(* ===== verification/Prelude.thy ===== *)
theory Prelude
  imports Main "HOL-Library.Word" "HOL-Library.List_Lexorder" "HOL-Library.Char_ord"
    "HOL-Library.Multiset" "HOL-Library.Sublist"
begin

text \<open>
  What every component shares: the model's base types (byte slices, Go strings, results with
  an error value), the operations of Go's \<^verbatim>\<open>strings\<close> package that the server calls, the two
  interface contracts that several components provide (codecs and enumerated maps), and the
  collections that carry the component proofs.

  A Go string is a sequence of bytes, so it is modelled as a HOL \<open>string\<close>, whose characters
  are exactly the 256 byte values; \<open>len\<close>, \<open><\<close> and slicing then mean what they mean in Go.
  A byte slice is a list of 8-bit words; \<open>bytes_of\<close> and \<open>string_of\<close> are the conversions
  \<^verbatim>\<open>[]byte(s)\<close> and \<^verbatim>\<open>string(b)\<close>.
\<close>

section \<open>Base types\<close>

type_synonym byte = "8 word"
type_synonym bytes = "byte list"

text \<open>A fallible operation returns \<open>Err\<close> of an error or \<open>Ok\<close> of a value.\<close>

abbreviation Err :: "'e \<Rightarrow> 'e + 'a" where "Err \<equiv> Inl"
abbreviation Ok :: "'a \<Rightarrow> 'e + 'a" where "Ok \<equiv> Inr"

named_theorems go_defs \<open>definitions of the library operations, for unfolding\<close>
named_theorems fields_simps \<open>what an operation leaves unchanged\<close>

definition bytes_of :: "string \<Rightarrow> bytes" where
  "bytes_of s = map (\<lambda>c. word_of_nat (of_char c)) s"

definition string_of :: "bytes \<Rightarrow> string" where
  "string_of b = map (\<lambda>x. char_of (unat x)) b"

lemma string_of_bytes_of [simp]: "string_of (bytes_of s) = s"
proof -
  have "char_of (unat (word_of_nat (of_char c) :: byte)) = c" for c :: char
    by (simp add: unat_of_nat take_bit_eq_mod)
  then show ?thesis by (simp add: string_of_def bytes_of_def comp_def)
qed

lemma bytes_of_string_of [simp]: "bytes_of (string_of b) = b"
proof -
  have "word_of_nat (of_char (char_of (unat x) :: char)) = x" for x :: byte
    using unsigned_less [of x, where 'a = nat] by (simp add: take_bit_eq_mod)
  then show ?thesis by (simp add: string_of_def bytes_of_def comp_def)
qed

lemma length_bytes_of [simp]: "length (bytes_of s) = length s"
  by (simp add: bytes_of_def)

lemma length_string_of [simp]: "length (string_of b) = length b"
  by (simp add: string_of_def)

lemma bytes_of_append [simp]: "bytes_of (s @ t) = bytes_of s @ bytes_of t"
  by (simp add: bytes_of_def)

lemma bytes_of_eq_iff [simp]: "bytes_of s = bytes_of t \<longleftrightarrow> s = t"
  by (metis string_of_bytes_of)

text \<open>A read of the random source into a fresh buffer of \<open>n\<close> bytes: what it delivered, then zeros.\<close>

definition read_into :: "nat \<Rightarrow> bytes \<Rightarrow> bytes" where
  "read_into n delivered = take n (delivered @ replicate n 0)"

lemma length_read_into [simp]: "length (read_into n d) = n"
  by (simp add: read_into_def)

lemma read_into_Nil_iff [simp]: "read_into n d = [] \<longleftrightarrow> n = 0" "[] = read_into n d \<longleftrightarrow> n = 0"
  by (metis length_0_conv length_read_into)+


section \<open>The strings package\<close>

definition HasPrefix :: "string \<Rightarrow> string \<Rightarrow> bool" where
  "HasPrefix s p = (take (length p) s = p)"

definition TrimPrefix :: "string \<Rightarrow> string \<Rightarrow> string" where
  "TrimPrefix s p = (if HasPrefix s p then drop (length p) s else s)"

definition HasSuffix :: "string \<Rightarrow> string \<Rightarrow> bool" where
  "HasSuffix s p = (length p \<le> length s \<and> drop (length s - length p) s = p)"

definition TrimSuffix :: "string \<Rightarrow> string \<Rightarrow> string" where
  "TrimSuffix s p = (if HasSuffix s p then take (length s - length p) s else s)"

lemma HasPrefix_append [simp]: "HasPrefix (p @ s) p"
  by (simp add: HasPrefix_def)

lemma TrimPrefix_append [simp]: "TrimPrefix (p @ s) p = s"
  by (simp add: TrimPrefix_def)

text \<open>\<open>strings.Split(s, sep)\<close> for a one-byte separator, and \<open>strings.Join\<close>.\<close>

fun Split :: "char \<Rightarrow> string \<Rightarrow> string list" where
  "Split c [] = [[]]"
| "Split c (x # xs) =
     (if x = c then [] # Split c xs
      else (case Split c xs of [] \<Rightarrow> [[x]] | y # ys \<Rightarrow> (x # y) # ys))"

fun Join :: "string \<Rightarrow> string list \<Rightarrow> string" where
  "Join sep [] = []"
| "Join sep [x] = x"
| "Join sep (x # y # zs) = x @ sep @ Join sep (y # zs)"

lemma Split_nonempty [simp]: "Split c s \<noteq> []"
  by (induction s) (auto split: list.splits)

lemma Split_no_sep: "c \<notin> set s \<Longrightarrow> Split c s = [s]"
  by (induction s) auto

lemma Split_append_sep: "c \<notin> set s \<Longrightarrow> Split c (s @ c # t) = s # Split c t"
  by (induction s) auto

lemma Split_append: "Split c (s @ c # t) = Split c s @ Split c t"
proof (induction s)
  case Nil
  then show ?case by simp
next
  case (Cons x xs)
  then show ?case by (cases "Split c xs") auto
qed

lemma Split_parts_no_sep: "p \<in> set (Split c s) \<Longrightarrow> c \<notin> set p"
  by (induction s arbitrary: p) (auto split: if_splits list.splits)

lemma sep_split_left:
  "c \<notin> set s \<Longrightarrow> c \<notin> set t \<Longrightarrow> s @ c # u = t @ c # v \<Longrightarrow> s = t \<and> u = v"
proof (induction s arbitrary: t)
  case Nil
  then show ?case by (cases t) auto
next
  case (Cons x xs)
  then show ?case by (cases t) auto
qed

lemma sep_split_right:
  assumes "c \<notin> set s" "c \<notin> set t" "u @ c # s = v @ c # t"
  shows "s = t \<and> u = v"
proof -
  have "rev s @ c # rev u = rev t @ c # rev v"
    using assms(3) by (metis append.assoc append_Cons append_Nil rev.simps(2) rev_append)
  then show ?thesis using sep_split_left [of c "rev s" "rev t" "rev u" "rev v"] assms(1,2) by simp
qed

lemma Split_Join:
  "ps \<noteq> [] \<Longrightarrow> (\<And>p. p \<in> set ps \<Longrightarrow> c \<notin> set p) \<Longrightarrow> Split c (Join [c] ps) = ps"
proof (induction "[c]" ps rule: Join.induct)
  case 1
  then show ?case by simp
next
  case (2 x)
  then show ?case by (simp add: Split_no_sep)
next
  case (3 x y zs)
  then show ?case by (simp add: Split_append_sep)
qed

text \<open>
  \<open>unicode.IsSpace\<close>: the six ASCII spaces, and the UTF-8 encodings of the others. A lead
  byte is never a continuation byte, so matching these encodings on bytes is matching runes.
\<close>

definition ascii_space :: "char \<Rightarrow> bool" where
  "ascii_space c = ((of_char c :: nat) \<in> {9, 10, 11, 12, 13, 32})"

definition unicode_spaces :: "string list" where
  "unicode_spaces = map (map (\<lambda>n. char_of (n :: nat)))
     ([[194, 133], [194, 160], [225, 154, 128]]
      @ map (\<lambda>k. [226, 128, k]) [128, 129, 130, 131, 132, 133, 134, 135, 136, 137, 138, 168, 169, 175]
      @ [[226, 129, 159], [227, 128, 128]])"

definition drop_space :: "string list \<Rightarrow> string \<Rightarrow> string option" where
  "drop_space sps s =
     (case s of [] \<Rightarrow> None
      | c # cs \<Rightarrow>
          if ascii_space c then Some cs
          else map_option (\<lambda>p. drop (length p) s)
                 (find (\<lambda>p. p \<noteq> [] \<and> HasPrefix s p) sps))"

lemma drop_space_shorter: "drop_space sps s = Some s' \<Longrightarrow> length s' < length s"
proof -
  assume a: "drop_space sps s = Some s'"
  then obtain c cs where s: "s = c # cs"
    by (auto simp: drop_space_def split: list.splits)
  show ?thesis
  proof (cases "ascii_space c")
    case True
    with a s show ?thesis by (simp add: drop_space_def)
  next
    case False
    with a s obtain p where "find (\<lambda>p. p \<noteq> [] \<and> HasPrefix s p) sps = Some p" "s' = drop (length p) s"
      by (auto simp: drop_space_def)
    then show ?thesis using s by (auto simp: find_Some_iff)
  qed
qed

function trim_spaces :: "string list \<Rightarrow> string \<Rightarrow> string" where
  "trim_spaces sps s = (case drop_space sps s of None \<Rightarrow> s | Some s' \<Rightarrow> trim_spaces sps s')"
  by pat_completeness auto
termination
  by (relation "measure (\<lambda>(sps, s). length s)") (auto dest: drop_space_shorter)

declare trim_spaces.simps [simp del]

definition TrimLeftSpace :: "string \<Rightarrow> string" where
  "TrimLeftSpace s = trim_spaces unicode_spaces s"

definition TrimRightSpace :: "string \<Rightarrow> string" where
  "TrimRightSpace s = rev (trim_spaces (map rev unicode_spaces) (rev s))"

definition TrimSpace :: "string \<Rightarrow> string" where
  "TrimSpace s = TrimRightSpace (TrimLeftSpace s)"

text \<open>
  A string without white space is what \<open>strings.TrimSpace\<close> leaves alone. The bytes that can
  begin or end a space are few; a string that avoids them (every base64url text, every host
  name) is untouched.
\<close>

definition plain_char :: "char \<Rightarrow> bool" where
  "plain_char c = (33 \<le> (of_char c :: nat) \<and> (of_char c :: nat) < 127)"

lemma of_char_of_nat: "n < 256 \<Longrightarrow> (of_char (char_of n :: char) :: nat) = n"
  by (simp add: take_bit_eq_mod)

lemma plain_char_not_ascii_space: "plain_char c \<Longrightarrow> \<not> ascii_space c"
  by (auto simp: plain_char_def ascii_space_def)

lemma unicode_spaces_not_plain: "p \<in> set unicode_spaces \<Longrightarrow> c \<in> set p \<Longrightarrow> \<not> plain_char c"
  by (auto simp: unicode_spaces_def plain_char_def of_char_of_nat)

lemma HasPrefix_hd: "HasPrefix s p \<Longrightarrow> p \<noteq> [] \<Longrightarrow> s \<noteq> [] \<and> hd s \<in> set p"
  by (cases s; cases p) (auto simp: HasPrefix_def)

lemma drop_space_plain:
  assumes "s = [] \<or> plain_char (hd s)" and "\<And>p c. p \<in> set sps \<Longrightarrow> c \<in> set p \<Longrightarrow> \<not> plain_char c"
  shows "drop_space sps s = None"
proof (cases s)
  case Nil
  then show ?thesis by (simp add: drop_space_def)
next
  case (Cons c cs)
  with assms(1) have c: "plain_char c" by simp
  have "\<not> (p \<noteq> [] \<and> HasPrefix s p)" if "p \<in> set sps" for p
    using HasPrefix_hd [of s p] assms(2) [OF that] c Cons by auto
  then have "find (\<lambda>p. p \<noteq> [] \<and> HasPrefix s p) sps = None"
    by (auto simp: find_None_iff)
  with Cons c show ?thesis
    by (simp add: drop_space_def plain_char_not_ascii_space)
qed

lemma trim_spaces_plain:
  "s = [] \<or> plain_char (hd s) \<Longrightarrow> (\<And>p c. p \<in> set sps \<Longrightarrow> c \<in> set p \<Longrightarrow> \<not> plain_char c)
   \<Longrightarrow> trim_spaces sps s = s"
  using drop_space_plain [of s sps] by (subst trim_spaces.simps) simp

lemma TrimSpace_leading: "ascii_space c \<Longrightarrow> TrimSpace (c # cs) = TrimSpace cs"
  by (simp add: TrimSpace_def TrimLeftSpace_def trim_spaces.simps [of _ "c # cs"] drop_space_def)

lemma TrimSpace_plain:
  assumes "s \<noteq> [] \<Longrightarrow> plain_char (hd s) \<and> plain_char (last s)"
  shows "TrimSpace s = s"
proof -
  have l: "TrimLeftSpace s = s"
    using assms unicode_spaces_not_plain by (auto simp: TrimLeftSpace_def intro!: trim_spaces_plain)
  have "trim_spaces (map rev unicode_spaces) (rev s) = rev s"
    using assms unicode_spaces_not_plain
    by (intro trim_spaces_plain) (auto simp: hd_rev)
  then show ?thesis by (simp add: TrimSpace_def l TrimRightSpace_def)
qed

text \<open>
  \<open>strings.ToUpper\<close> and \<open>strings.EqualFold\<close>: on ASCII text the byte mapping; on other text
  Go consults its Unicode tables, which are arguments here.
\<close>

definition is_ascii :: "string \<Rightarrow> bool" where
  "is_ascii s = list_all (\<lambda>c. (of_char c :: nat) < 128) s"

definition upper_char :: "char \<Rightarrow> char" where
  "upper_char c =
     (let n = (of_char c :: nat) in if 97 \<le> n \<and> n \<le> 122 then char_of (n - 32) else c)"

definition ToUpper :: "(string \<Rightarrow> string) \<Rightarrow> string \<Rightarrow> string" where
  "ToUpper uni s = (if is_ascii s then map upper_char s else uni s)"

definition EqualFold :: "(string \<Rightarrow> string \<Rightarrow> bool) \<Rightarrow> string \<Rightarrow> string \<Rightarrow> bool" where
  "EqualFold uni s t =
     (if is_ascii s \<and> is_ascii t then map upper_char s = map upper_char t else uni s t)"

lemma EqualFold_refl_ascii: "is_ascii s \<Longrightarrow> EqualFold uni s s"
  by (simp add: EqualFold_def)


section \<open>Codecs\<close>

text \<open>
  A codec's decoder inverts its encoder on the values the encoder is meant for; a strict
  codec accepts nothing but encodings, so that every accepted text has one value and every
  value one text.
\<close>

locale codec =
  fixes enc :: "'a \<Rightarrow> 'b" and dec :: "'b \<Rightarrow> 'a option" and good :: "'a \<Rightarrow> bool"
  assumes dec_enc: "good x \<Longrightarrow> dec (enc x) = Some x"
begin

lemma enc_inj: "good x \<Longrightarrow> good y \<Longrightarrow> enc x = enc y \<Longrightarrow> x = y"
  by (metis dec_enc option.inject)

lemma enc_eq_iff: "good x \<Longrightarrow> good y \<Longrightarrow> enc x = enc y \<longleftrightarrow> x = y"
  using enc_inj by blast

end

locale strict_codec = codec +
  assumes enc_dec: "dec y = Some x \<Longrightarrow> good x \<and> enc x = y"
begin

lemma dec_iff: "dec y = Some x \<longleftrightarrow> good x \<and> y = enc x"
  using dec_enc enc_dec by blast

lemma dec_inj: "dec y = Some x \<Longrightarrow> dec y' = Some x \<Longrightarrow> y = y'"
  using enc_dec by metis

end


section \<open>Ranging over a map\<close>

text \<open>
  Go's \<^verbatim>\<open>range\<close> over a map visits every key once, in an order the language leaves open. The
  model takes the order as a list of keys that enumerates the map's domain.
\<close>

definition enumerates :: "'k list \<Rightarrow> ('k \<rightharpoonup> 'v) \<Rightarrow> bool" where
  "enumerates ks m = (distinct ks \<and> set ks = dom m)"

definition range_values :: "'k list \<Rightarrow> ('k \<rightharpoonup> 'v) \<Rightarrow> 'v list" where
  "range_values ks m = List.map_filter m ks"

lemma range_values_eq_map: "enumerates ks m \<Longrightarrow> range_values ks m = map (the \<circ> m) ks"
proof -
  assume e: "enumerates ks m"
  have "set ks \<subseteq> dom m \<Longrightarrow> List.map_filter m ks = map (the \<circ> m) ks"
    by (induction ks) (auto simp: List.map_filter_simps)
  with e show ?thesis by (simp add: enumerates_def range_values_def)
qed

lemma set_range_values: "enumerates ks m \<Longrightarrow> set (range_values ks m) = ran m"
  by (force simp: range_values_eq_map enumerates_def ran_def)

lemma mset_range_values:
  assumes "enumerates ks m" "enumerates ks' m"
  shows "mset (range_values ks m) = mset (range_values ks' m)"
proof -
  have "mset ks = mset ks'"
    using assms by (metis enumerates_def set_eq_iff_mset_eq_distinct)
  then show ?thesis using assms by (simp add: range_values_eq_map)
qed

lemma enumerates_finite: "enumerates ks m \<Longrightarrow> finite (dom m)"
  by (metis enumerates_def List.finite_set)

end
