(* ===== verification/Go_Time.thy ===== *)
theory Go_Time
  imports Prelude
begin

text \<open>
  Go's \<^verbatim>\<open>time\<close> package as far as the server uses it. An instant is an integer number of
  nanoseconds since the zero \<^verbatim>\<open>time.Time\<close>; a \<^verbatim>\<open>time.Duration\<close> is a signed 64-bit number of
  nanoseconds and wraps when it is computed; \<open>Sub\<close> saturates at the ends of that range.
\<close>

type_synonym time = int
type_synonym duration = "64 word"

definition zero_time :: time where
  "zero_time = 0"

definition Second :: duration where "Second = 1000000000"
definition Minute :: duration where "Minute = 60 * Second"
definition Hour :: duration where "Hour = 60 * Minute"

definition time_add :: "time \<Rightarrow> duration \<Rightarrow> time" where
  "time_add t d = t + sint d"

definition time_sub :: "time \<Rightarrow> time \<Rightarrow> duration" where
  "time_sub t u = word_of_int (max (- (2 ^ 63)) (min (2 ^ 63 - 1) (t - u)))"

text \<open>\<open>t.After(u)\<close> and \<open>t.Before(u)\<close>.\<close>

definition After :: "time \<Rightarrow> time \<Rightarrow> bool" where "After t u = (u < t)"
definition Before :: "time \<Rightarrow> time \<Rightarrow> bool" where "Before t u = (t < u)"

text \<open>
  \<open>time.Duration(sec) * time.Second\<close> for a Go \<^verbatim>\<open>int\<close>: a 64-bit product, which wraps for
  \<open>\<bar>sec\<bar> > 9223372036\<close>.
\<close>

definition seconds :: "int \<Rightarrow> duration" where
  "seconds sec = word_of_int sec * Second"

text \<open>Comparison of durations is signed.\<close>

definition dur_less :: "duration \<Rightarrow> duration \<Rightarrow> bool" where
  "dur_less d e = (sint d < sint e)"

text \<open>Integer division of the source truncates towards zero.\<close>

definition quot :: "int \<Rightarrow> int \<Rightarrow> int" where
  "quot a b = sgn a * sgn b * (\<bar>a\<bar> div \<bar>b\<bar>)"

definition rem :: "int \<Rightarrow> int \<Rightarrow> int" where
  "rem a b = a - quot a b * b"

lemma quot_nonneg: "0 \<le> a \<Longrightarrow> 0 < b \<Longrightarrow> quot a b = a div b"
  by (cases "a = 0") (auto simp: quot_def)

lemma rem_nonneg: "0 \<le> a \<Longrightarrow> 0 < b \<Longrightarrow> rem a b = a mod b"
  by (simp add: rem_def quot_nonneg minus_div_mult_eq_mod)

text \<open>
  \<open>int(d.Seconds())\<close> and \<open>int(d.Seconds() + 0.5)\<close>. The source computes them in float64;
  for the durations the server forms (below \<open>2\<^sup>2\<^sup>2\<close> seconds) the float sums are within a
  nanosecond of the exact values and truncate to the same integers.
\<close>

definition whole_seconds :: "duration \<Rightarrow> int" where
  "whole_seconds d = quot (sint d) 1000000000"

definition rounded_seconds :: "duration \<Rightarrow> int" where
  "rounded_seconds d = quot (sint d + 500000000) 1000000000"

lemmas duration_consts = Hour_def Minute_def Second_def
lemmas time_defs = time_add_def time_sub_def After_def Before_def dur_less_def

lemma sint_Second [simp]: "sint Second = 1000000000"
  by (simp add: Second_def)

lemma sint_Minute [simp]: "sint Minute = 60000000000"
  by (simp add: duration_consts)

lemma sint_Hour [simp]: "sint Hour = 3600000000000"
  by (simp add: duration_consts)

lemma sint_word_of_int_64:
  "- (2 ^ 63) \<le> i \<Longrightarrow> i < 2 ^ 63 \<Longrightarrow> sint (word_of_int i :: 64 word) = i"
  by (simp add: sint_sbintrunc' signed_take_bit_int_eq_self)

lemma sint_seconds:
  assumes "- 9223372036 \<le> sec" "sec \<le> 9223372036"
  shows "sint (seconds sec) = sec * 1000000000"
proof -
  have "seconds sec = word_of_int (sec * 1000000000)"
    by (simp add: seconds_def Second_def)
  moreover have "sint (word_of_int (sec * 1000000000) :: duration) = sec * 1000000000"
    using assms by (intro sint_word_of_int_64) auto
  ultimately show ?thesis by (simp only:)
qed

lemma sint_time_sub: "sint (time_sub t u) = max (- (2 ^ 63)) (min (2 ^ 63 - 1) (t - u))"
  unfolding time_sub_def by (rule sint_word_of_int_64) auto

lemma sint_neg_duration: "- (2 ^ 63) < sint d \<Longrightarrow> sint (- d) = - sint (d :: duration)"
proof -
  assume "- (2 ^ 63) < sint d"
  moreover have "sint d < 2 ^ 63" using sint_lt [of d] by simp
  moreover have "- d = word_of_int (- sint d)" by simp
  ultimately show ?thesis by (metis sint_word_of_int_64 neg_le_iff_le neg_less_iff_less minus_minus less_imp_le)
qed

end
