(* ===== verification/Wire_Types.thy ===== *)
theory Wire_Types
  imports Go_Time
begin

text \<open>
  The records of \<^verbatim>\<open>types.go\<close> and the persistent records of \<^verbatim>\<open>state.go\<close> and
  \<^verbatim>\<open>envelope.go\<close>, field by field (a short prefix keeps the fields of different structs
  apart), and the part of Go's standard library that the server calls and whose tables or
  formats this development does not define: it is an argument, a record of functions.
\<close>

section \<open>Library functions taken as arguments\<close>

text \<open>
  Unicode case tables beyond ASCII, \<open>time.Parse(time.RFC3339, _)\<close>, \<open>Format(time.RFC3339)\<close> and
  the quoting verb \<^verbatim>\<open>%q\<close>.
\<close>

record env =
  env_upper :: "string \<Rightarrow> string"
  env_fold :: "string \<Rightarrow> string \<Rightarrow> bool"
  env_parse_time :: "string \<Rightarrow> time option"
  env_format_time :: "time \<Rightarrow> string"
  env_quote :: "string \<Rightarrow> string"

text \<open>A concrete instance, for witnesses.\<close>

definition sample_env :: env where
  "sample_env = \<lparr>env_upper = (\<lambda>s. s), env_fold = (\<lambda>s t. s = t), env_parse_time = (\<lambda>s. None),
     env_format_time = (\<lambda>t. ''T''), env_quote = (\<lambda>s. s)\<rparr>"


section \<open>Wire records\<close>

record AttestationBlob =
  ab_Platform :: string
  ab_Token :: string
  ab_Nonce :: string
  ab_BoundDevicePk :: string
  ab_Proof :: string

record IssueRequest =
  iq_V :: int
  iq_DevicePk :: string
  iq_Attestation :: AttestationBlob
  iq_ConfigID :: string
  iq_RequestNonce :: string
  iq_RequestSignature :: string

record IssueResponse =
  ir_ConfigB64 :: string
  ir_ExpiresAt :: string
  ir_ReceiptSig :: string

record AttestationChallenge =
  ac_Challenge :: string
  ac_ExpiresAt :: string

record RedeemRequest =
  rq_V :: int
  rq_Token :: string
  rq_RecipientPubkey :: string

text \<open>The error bodies of both endpoints: a code, a detail, and the seconds to wait (0: absent).\<close>

record api_error =
  er_Error :: string
  er_Detail :: string
  er_RetryAfter :: int


section \<open>Registry records\<close>

record AttestationArm =
  arm_Verifier :: string
  arm_RequireHardwareBacked :: bool
  arm_RequireTrustedRoot :: bool
  arm_RequireVerifiedBoot :: bool
  arm_AppID :: string
  arm_AndroidPackageName :: string
  arm_AndroidSigningCertSHA256 :: string

definition zero_arm :: AttestationArm where
  "zero_arm = \<lparr>arm_Verifier = '''', arm_RequireHardwareBacked = False, arm_RequireTrustedRoot = False,
     arm_RequireVerifiedBoot = False, arm_AppID = '''', arm_AndroidPackageName = '''',
     arm_AndroidSigningCertSHA256 = ''''\<rparr>"

text \<open>\<open>pol_Platforms\<close> is a JSON object whose values may be null; \<open>pol_Arm\<close> is the embedded legacy arm.\<close>

record AttestationPolicy =
  pol_Mode :: string
  pol_SoftFailureTtlSec :: int
  pol_MaxIssuancesPerHour :: int
  pol_Platforms :: "(string \<times> AttestationArm option) list"
  pol_Arm :: AttestationArm

record envelopePolicy =
  ep_OnlyMobileNetwork :: bool
  ep_AttestationLevel :: string
  ep_ExpiresAt :: "string option"
  ep_DisplayMessage :: string
  ep_CustomServerMessage :: string

record ConfigEntry =
  ce_ConfigID :: string
  ce_Config :: bytes
  ce_DisplayName :: string
  ce_AttestationPolicy :: "AttestationPolicy option"
  ce_IssuedPolicy :: "envelopePolicy option"
  ce_ConfigTtlSec :: int

record RedemptionToken =
  rt_Token :: string
  rt_ConfigIDs :: "string list"
  rt_RemainingRedemptions :: int
  rt_ExpiresAt :: string
  rt_CreatedAt :: string
  rt_Label :: string

end
