(* ===== verification/Sliding_Window.thy ===== *)
theory Sliding_Window
  imports Go_Time
begin

text \<open>
  The contract shared by the two tables that admit a key a bounded number of times per
  window: the rate limiter of \<^verbatim>\<open>ratelimit.go\<close> and the replay cache of
  \<^verbatim>\<open>attestation_challenge.go\<close>. Both keep only what is still recent and prune the rest, so
  neither holds the history its promise speaks of; the reference table here keeps the whole
  history. A table that meets the contract admits exactly the requests the reference admits,
  and the reference never admits more than the limit of a key within one window.
\<close>

section \<open>Traces and the reference table\<close>

text \<open>A request of a key or a sweep, each with its clock reading.\<close>

datatype 'k window_event = Admit time 'k | Prune time

fun event_time :: "'k window_event \<Rightarrow> time" where
  "event_time (Admit t k) = t"
| "event_time (Prune t) = t"

text \<open>What a table admits along a trace, in order.\<close>

fun window_run ::
    "('s \<Rightarrow> time \<Rightarrow> 'k \<Rightarrow> bool \<times> 's) \<Rightarrow> ('s \<Rightarrow> time \<Rightarrow> 's) \<Rightarrow> 's \<Rightarrow> 'k window_event list \<Rightarrow> ('k \<times> time) list" where
  "window_run admit prune s [] = []"
| "window_run admit prune s (Admit t k # es) =
     (case admit s t k of (ok, s') \<Rightarrow> (if ok then [(k, t)] else []) @ window_run admit prune s' es)"
| "window_run admit prune s (Prune t # es) = window_run admit prune (prune s t) es"

text \<open>The reference: the log of everything admitted so far, never pruned.\<close>

definition log_recent :: "int \<Rightarrow> ('k \<times> time) list \<Rightarrow> time \<Rightarrow> 'k \<Rightarrow> time list" where
  "log_recent w G t k = map snd (filter (\<lambda>(k', u). k' = k \<and> t - w < u) G)"

fun log_run :: "('k \<Rightarrow> nat) \<Rightarrow> int \<Rightarrow> ('k \<times> time) list \<Rightarrow> 'k window_event list \<Rightarrow> ('k \<times> time) list" where
  "log_run lim w G [] = []"
| "log_run lim w G (Admit t k # es) =
     (if length (log_recent w G t k) < lim k
      then (k, t) # log_run lim w (G @ [(k, t)]) es
      else log_run lim w G es)"
| "log_run lim w G (Prune t # es) = log_run lim w G es"

text \<open>How many entries of a log fall to a key within the window that ends at an instant.\<close>

definition window_count :: "int \<Rightarrow> ('k \<times> time) list \<Rightarrow> 'k \<Rightarrow> time \<Rightarrow> nat" where
  "window_count w G k t = length (filter (\<lambda>(k', u). k' = k \<and> t - w < u \<and> u \<le> t) G)"

lemma log_recent_append:
  "log_recent w (G @ [(k', u)]) t k = log_recent w G t k @ (if k' = k \<and> t - w < u then [u] else [])"
  by (simp add: log_recent_def)

lemma window_count_le_recent:
  assumes "t \<le> t'" shows "window_count w G k t' \<le> length (log_recent w G t k)"
proof -
  have "window_count w G k t' = length (filter (\<lambda>(k', u). k' = k \<and> t' - w < u \<and> u \<le> t')
      (filter (\<lambda>(k', u). k' = k \<and> t - w < u) G))"
    unfolding window_count_def filter_filter using assms
    by (intro arg_cong [where f = length] filter_cong) auto
  then show ?thesis by (simp add: log_recent_def del: filter_filter)
qed

lemma window_count_append:
  "window_count w (G @ [(k', u)]) k t =
     window_count w G k t + (if k' = k \<and> t - w < u \<and> u \<le> t then 1 else 0)"
  by (simp add: window_count_def)

lemma window_count_appends:
  "window_count w (G @ H) k t = window_count w G k t + window_count w H k t"
  by (simp add: window_count_def)

text \<open>The reference keeps every window of every key within its limit.\<close>

lemma log_run_bound:
  assumes "\<And>k t. window_count w G k t \<le> lim k"
  shows "window_count w (G @ log_run lim w G es) k t \<le> lim k"
  using assms
proof (induction es arbitrary: G rule: list.induct)
  case Nil
  then show ?case by simp
next
  case (Cons e es)
  show ?case
  proof (cases e)
    case (Prune t')
    then show ?thesis using Cons by simp
  next
    case (Admit t' k')
    show ?thesis
    proof (cases "length (log_recent w G t' k') < lim k'")
      case False
      then show ?thesis using Cons Admit by simp
    next
      case True
      have "window_count w (G @ [(k', t')]) k u \<le> lim k" for k u
        using Cons.prems [of k u] window_count_le_recent [of t' u w G k'] True
        by (auto simp: window_count_append)
      then show ?thesis using Cons.IH [of "G @ [(k', t')]"] Admit True by simp
    qed
  qed
qed


section \<open>The contract\<close>

text \<open>
  \<open>recent s t k\<close> is what the table knows of the admissions of \<open>k\<close> in the window before
  \<open>t\<close>. The laws: a request is admitted when fewer than the limit are recent; an admission adds
  itself and disturbs no other key; pruning at an instant changes nothing that a later
  instant can see.
\<close>

locale sliding_window =
  fixes admit :: "'s \<Rightarrow> time \<Rightarrow> 'k \<Rightarrow> bool \<times> 's"
    and prune :: "'s \<Rightarrow> time \<Rightarrow> 's"
    and recent :: "'s \<Rightarrow> time \<Rightarrow> 'k \<Rightarrow> time list"
    and lim :: "'k \<Rightarrow> nat"
    and w :: int
    and fresh :: 's
  assumes admit_iff: "fst (admit s t k) \<longleftrightarrow> length (recent s t k) < lim k"
    and recent_admit: "t \<le> t' \<Longrightarrow> recent (snd (admit s t k)) t' k' =
      recent s t' k' @ (if k' = k \<and> fst (admit s t k) \<and> t' - w < t then [t] else [])"
    and recent_prune: "t \<le> t' \<Longrightarrow> recent (prune s t) t' k = recent s t' k"
    and recent_fresh: "recent fresh t k = []"
begin

lemma run_eq_log_run:
  assumes "\<And>t k. t0 \<le> t \<Longrightarrow> recent s t k = log_recent w G t k"
    and "sorted (t0 # map event_time es)"
  shows "window_run admit prune s es = log_run lim w G es"
  using assms
proof (induction es arbitrary: s G t0 rule: list.induct)
  case Nil
  then show ?case by simp
next
  case (Cons e es)
  show ?case
  proof (cases e)
    case (Prune t)
    then have t: "t0 \<le> t" "sorted (t # map event_time es)" using Cons.prems(2) by auto
    have "recent (prune s t) u k = log_recent w G u k" if "t \<le> u" for u k
      using that t Cons.prems(1) [of u k] recent_prune by simp
    then show ?thesis using Cons.IH [OF _ t(2)] Prune by simp
  next
    case (Admit t k)
    then have t: "t0 \<le> t" "sorted (t # map event_time es)" using Cons.prems(2) by auto
    let ?G = "if fst (admit s t k) then G @ [(k, t)] else G"
    have "recent (snd (admit s t k)) u k' = log_recent w ?G u k'" if "t \<le> u" for u k'
      using that t Cons.prems(1) [of u k'] recent_admit [OF that, of s k k']
      by (auto simp: log_recent_append)
    then have "window_run admit prune (snd (admit s t k)) es = log_run lim w ?G es"
      using Cons.IH [OF _ t(2)] by blast
    moreover have "fst (admit s t k) \<longleftrightarrow> length (log_recent w G t k) < lim k"
      using admit_iff Cons.prems(1) [of t k] t by simp
    ultimately show ?thesis using Admit by (cases "admit s t k") auto
  qed
qed

text \<open>From the empty table: the pruning table and the reference admit the same requests.\<close>

lemma run_refines_log:
  assumes "sorted (map event_time es)"
  shows "window_run admit prune fresh es = log_run lim w [] es"
proof (cases es)
  case Nil
  then show ?thesis by simp
next
  case (Cons e es')
  with assms have "sorted (event_time e # map event_time es)" by auto
  then show ?thesis by (rule run_eq_log_run [rotated]) (simp add: recent_fresh log_recent_def)
qed

lemma run_window_bound:
  assumes "sorted (map event_time es)"
  shows "window_count w (window_run admit prune fresh es) k t \<le> lim k"
  using log_run_bound [of w "[]" lim es k t] run_refines_log [OF assms]
  by (simp add: window_count_def)

end

end
