(* ===== verification/RateLimit.thy ===== *)
theory RateLimit
  imports Sliding_Window
begin

text \<open>
  The sliding-window rate limiter of \<^verbatim>\<open>ratelimit.go\<close>. The table maps a key to the times of
  its recent admissions; \<open>Allow\<close> drops the ones that have left the window, refuses when as
  many as the limit remain, and records the new one otherwise; \<open>Sweep\<close> forgets the keys with
  nothing recent. Each operation runs under the limiter's mutex, so a run is a sequence of
  operations; the clock is an argument (\<open>now\<close> is a seam of the source). The capacity hint of
  \<^verbatim>\<open>make\<close> has no counterpart.
\<close>

section \<open>The limiter\<close>

record rateLimiter =
  entries :: "string \<rightharpoonup> time list"

definition newRateLimiter :: rateLimiter where
  "newRateLimiter = \<lparr>entries = Map.empty\<rparr>"

record rateLimitDecision =
  Allowed :: bool
  RetryAfter :: duration

definition bucket_of :: "rateLimiter \<Rightarrow> string \<Rightarrow> time list" where
  "bucket_of r key = (case entries r key of None \<Rightarrow> [] | Some b \<Rightarrow> b)"

definition Allow ::
    "rateLimiter \<Rightarrow> time \<Rightarrow> string \<Rightarrow> int \<Rightarrow> duration \<Rightarrow> rateLimitDecision \<times> rateLimiter" where
  "Allow r now key limit window =
     (if limit \<le> 0 then (\<lparr>Allowed = True, RetryAfter = 0\<rparr>, r)
      else
        let cutoff = time_add now (- window);
            trimmed = filter (\<lambda>ts. After ts cutoff) (bucket_of r key)
        in if limit \<le> int (length trimmed) then
             let oldest = hd trimmed;
                 retryAfter = time_sub (time_add oldest window) now;
                 retryAfter' = (if dur_less retryAfter Second then Second else retryAfter)
             in (\<lparr>Allowed = False, RetryAfter = retryAfter'\<rparr>,
                 r\<lparr>entries := (entries r)(key \<mapsto> trimmed)\<rparr>)
           else
             (\<lparr>Allowed = True, RetryAfter = 0\<rparr>,
              r\<lparr>entries := (entries r)(key \<mapsto> trimmed @ [now])\<rparr>))"

definition RateLimit_Sweep :: "rateLimiter \<Rightarrow> time \<Rightarrow> duration \<Rightarrow> rateLimiter" where
  "RateLimit_Sweep r now window =
     (let cutoff = time_add now (- window) in
      r\<lparr>entries := (\<lambda>key. case entries r key of None \<Rightarrow> None
        | Some bucket \<Rightarrow> if list_ex (\<lambda>ts. After ts cutoff) bucket then Some bucket else None)\<rparr>)"

definition RateLimit_Size :: "rateLimiter \<Rightarrow> nat" where
  "RateLimit_Size r = card (dom (entries r))"


section \<open>The limiter is a sliding window\<close>

text \<open>What the limiter remembers of a key at an instant, whatever the trimming has left.\<close>

definition live_bucket :: "duration \<Rightarrow> rateLimiter \<Rightarrow> time \<Rightarrow> string \<Rightarrow> time list" where
  "live_bucket window r t key = filter (\<lambda>ts. t - sint window < ts) (bucket_of r key)"

definition allow_step :: "(string \<Rightarrow> nat) \<Rightarrow> duration \<Rightarrow> rateLimiter \<Rightarrow> time \<Rightarrow> string \<Rightarrow> bool \<times> rateLimiter" where
  "allow_step lim window r now key =
     (let x = Allow r now key (int (lim key)) window in (Allowed (fst x), snd x))"

definition sweep_step :: "duration \<Rightarrow> rateLimiter \<Rightarrow> time \<Rightarrow> rateLimiter" where
  "sweep_step window r now = RateLimit_Sweep r now window"

lemma bucket_of_update [simp]:
  "bucket_of (r\<lparr>entries := (entries r)(k \<mapsto> b)\<rparr>) k' = (if k' = k then b else bucket_of r k')"
  by (simp add: bucket_of_def)

lemma cutoff_eq: "- (2 ^ 63) < sint window \<Longrightarrow> time_add now (- window) = now - sint window"
  by (simp add: time_add_def sint_neg_duration)

lemma Allow_trimmed:
  "- (2 ^ 63) < sint window \<Longrightarrow>
   filter (\<lambda>ts. After ts (time_add now (- window))) (bucket_of r key) = live_bucket window r now key"
  by (simp add: live_bucket_def After_def cutoff_eq)

lemma Allow_allowed:
  "- (2 ^ 63) < sint window \<Longrightarrow> 0 < limit \<Longrightarrow>
   Allowed (fst (Allow r now key limit window)) \<longleftrightarrow> int (length (live_bucket window r now key)) < limit"
  by (simp add: Allow_def Let_def Allow_trimmed not_le)

lemma Allow_state:
  "- (2 ^ 63) < sint window \<Longrightarrow> 0 < limit \<Longrightarrow>
   snd (Allow r now key limit window) =
     r\<lparr>entries := (entries r)(key \<mapsto> live_bucket window r now key @
        (if Allowed (fst (Allow r now key limit window)) then [now] else []))\<rparr>"
  by (simp add: Allow_def Let_def Allow_trimmed)

lemma live_bucket_Allow:
  assumes "- (2 ^ 63) < sint window" "0 < limit" "now \<le> t"
  shows "live_bucket window (snd (Allow r now key limit window)) t key' =
    live_bucket window r t key' @
      (if key' = key \<and> Allowed (fst (Allow r now key limit window)) \<and> t - sint window < now
       then [now] else [])"
proof -
  have "filter (\<lambda>ts. t - sint window < ts) (live_bucket window r now key) = live_bucket window r t key"
    using assms(3) unfolding live_bucket_def filter_filter by (intro filter_cong) auto
  then show ?thesis
    using Allow_state [OF assms(1,2), of r now key] by (simp add: live_bucket_def)
qed

lemma live_bucket_Sweep:
  assumes "- (2 ^ 63) < sint window" "now \<le> t"
  shows "live_bucket window (RateLimit_Sweep r now window) t key = live_bucket window r t key"
  using assms
  by (auto simp: live_bucket_def RateLimit_Sweep_def Let_def bucket_of_def list_ex_iff After_def
      cutoff_eq split: option.splits intro!: filter_False [symmetric])

text \<open>
  The contract for every window and every choice of positive limits per key; the server's
  own instances (30 redemptions per client and hour, the issuance cap per device, config and
  hour) are the case of a window of one hour.
\<close>

lemma limiter_sliding_window:
  assumes "- (2 ^ 63) < sint window" "\<And>k. 0 < lim k"
  shows "sliding_window (allow_step lim window) (sweep_step window) (live_bucket window) lim
    (sint window) newRateLimiter"
proof
  have pos: "0 < int (lim k)" for k using assms(2) by simp
  fix s t t' k k'
  show "fst (allow_step lim window s t k) \<longleftrightarrow> length (live_bucket window s t k) < lim k"
    using Allow_allowed [OF assms(1) pos, of s t k k] by (simp add: allow_step_def Let_def)
  show "live_bucket window (sweep_step window s t) t' k = live_bucket window s t' k" if "t \<le> t'"
    using live_bucket_Sweep [OF assms(1) that] by (simp add: sweep_step_def)
  show "live_bucket window (snd (allow_step lim window s t k)) t' k' = live_bucket window s t' k' @
      (if k' = k \<and> fst (allow_step lim window s t k) \<and> t' - sint window < t then [t] else [])"
    if "t \<le> t'"
    using live_bucket_Allow [OF assms(1) pos that, of s k k k']
    by (simp add: allow_step_def Let_def)
  show "live_bucket window newRateLimiter t k = []"
    by (simp add: live_bucket_def bucket_of_def newRateLimiter_def)
qed

interpretation hourly: sliding_window
    "allow_step (\<lambda>k. Suc (lim k)) Hour" "sweep_step Hour" "live_bucket Hour" "\<lambda>k. Suc (lim k)"
    "sint Hour" newRateLimiter for lim
  by (rule limiter_sliding_window) simp_all


section \<open>Properties\<close>

text \<open>
  C12. Along any run of the limiter whose clock does not go back, with requests of any keys
  and sweeps in any order, no window of an hour ever holds more admissions of a key than that
  key's limit.
\<close>

theorem limiter_window_bound:
  assumes "sorted (map event_time es)"
  shows "window_count (sint Hour)
      (window_run (allow_step (\<lambda>k. Suc (lim k)) Hour) (sweep_step Hour) newRateLimiter es) key t
    \<le> Suc (lim key)"
  using assms by (rule hourly.run_window_bound)

theorem limiter_window_bound_witness:
  "window_count (sint Hour)
     (window_run (allow_step (\<lambda>k. Suc 0) Hour) (sweep_step Hour) newRateLimiter
       [Admit 5 ''ip'', Prune 6, Admit 7 ''ip'']) ''ip'' 9 \<le> 1"
  using limiter_window_bound [of "[Admit 5 ''ip'', Prune 6, Admit 7 ''ip'']" "\<lambda>k. 0" "''ip''" 9]
  by simp

text \<open>
  Trimming and sweeping are invisible: the limiter admits exactly the requests that a
  limiter remembering every admission it ever made would admit.
\<close>

theorem limiter_refines_full_history:
  assumes "sorted (map event_time es)"
  shows "window_run (allow_step (\<lambda>k. Suc (lim k)) Hour) (sweep_step Hour) newRateLimiter es
    = log_run (\<lambda>k. Suc (lim k)) (sint Hour) [] es"
  using assms by (rule hourly.run_refines_log)

theorem limiter_refines_full_history_witness:
  "window_run (allow_step (\<lambda>k. Suc 0) Hour) (sweep_step Hour) newRateLimiter
     [Admit 5 ''ip'', Prune 6, Admit 7 ''ip'', Admit (6 + sint Hour) ''ip'']
   = [(''ip'', 5), (''ip'', 6 + sint Hour)]"
  using limiter_refines_full_history
    [of "[Admit 5 ''ip'', Prune 6, Admit 7 ''ip'', Admit (6 + sint Hour) ''ip'']" "\<lambda>k. 0"]
  by (simp add: log_recent_def)

text \<open>
  The advice given with a refusal is honest: it is at least a second, and the same key,
  if it waits that long and nothing else happens, is admitted.
\<close>

theorem limiter_retry_after:
  assumes "0 < sint window" "sint window < 2 ^ 62" "0 < limit"
    and "int (length (bucket_of r key)) \<le> limit"
    and "\<forall>ts \<in> set (bucket_of r key). ts \<le> now"
    and "Allow r now key limit window = (d, r')" "\<not> Allowed d"
  shows "sint Second \<le> sint (RetryAfter d)
    \<and> Allowed (fst (Allow r' (time_add now (RetryAfter d)) key limit window))"
proof -
  have w: "- (2 ^ 63) < sint window" using assms(1) by simp
  let ?live = "live_bucket window r now key"
  have full: "limit \<le> int (length ?live)"
    using Allow_allowed [OF w assms(3), of r now key] assms(6,7) by simp
  then obtain o' rest where live: "?live = o' # rest" using assms(3) by (cases ?live) auto
  have "o' \<in> set ?live" using live by simp
  then have o': "now - sint window < o'" "o' \<le> now"
    using assms(5) by (auto simp: live_bucket_def)
  have d: "RetryAfter d = (if dur_less (time_sub (time_add o' window) now) Second
      then Second else time_sub (time_add o' window) now)"
    using assms(3,6,7) full live by (auto simp: Allow_def Let_def Allow_trimmed [OF w] split: if_splits)
  have "sint (time_sub (time_add o' window) now) = o' + sint window - now"
    using o' assms(1,2) by (simp add: sint_time_sub time_add_def)
  then have ra: "sint Second \<le> sint (RetryAfter d)" "o' + sint window - now \<le> sint (RetryAfter d)"
    using d by (auto simp: dur_less_def split: if_splits)
  have "bucket_of r' key = ?live"
    using Allow_state [OF w assms(3), of r now key] assms(6,7) by simp
  moreover have "length (o' # rest) \<le> length (bucket_of r key)"
    using live unfolding live_bucket_def by (metis length_filter_le)
  ultimately have "int (length (live_bucket window r' (now + sint (RetryAfter d)) key)) < limit"
    using live ra(2) assms(4)
    by (auto simp: live_bucket_def intro!: le_less_trans [OF of_nat_mono [OF length_filter_le]])
  then show ?thesis
    using ra(1) Allow_allowed [OF w assms(3)] by (simp add: time_add_def)
qed

theorem limiter_retry_after_witness:
  "sint Second \<le> sint (3599999999995 :: duration)
   \<and> Allowed (fst (Allow \<lparr>entries = [''ip'' \<mapsto> [5]]\<rparr> (time_add 10 3599999999995) ''ip'' 1 Hour))"
proof -
  have "Allow \<lparr>entries = [''ip'' \<mapsto> [5]]\<rparr> 10 ''ip'' 1 Hour
    = (\<lparr>Allowed = False, RetryAfter = 3599999999995\<rparr>, \<lparr>entries = [''ip'' \<mapsto> [5]]\<rparr>)"
    by (simp add: Allow_def bucket_of_def time_defs duration_consts)
  from limiter_retry_after [OF _ _ _ _ _ this] show ?thesis
    by (simp add: bucket_of_def)
qed

end
