(* ===== verification/AtomicFile.thy ===== *)
theory AtomicFile
  imports Go_Time
begin

text \<open>
  \<^verbatim>\<open>atomicfile.go\<close>: replacing a state file through a temporary file and a rename. The file
  system is a map from paths to files with content, mode, owner and modification time; every
  system call of the routine can fail, as a script of outcomes says; the routine returns its
  error and every state the file system goes through, so that a crash at any point leaves one
  of the listed states. Directory synchronisation has no effect on this model's states.
\<close>

section \<open>Contract of an atomic store\<close>

locale atomic_store =
  fixes wr :: "'io \<Rightarrow> 's \<Rightarrow> 'k \<Rightarrow> 'v \<Rightarrow> bool \<times> 's"
    and rd :: "'s \<Rightarrow> 'k \<Rightarrow> 'v option"
  assumes write_ok: "fst (wr io s k v) \<Longrightarrow> rd (snd (wr io s k v)) k = Some v"
    and write_fail: "\<not> fst (wr io s k v) \<Longrightarrow> rd (snd (wr io s k v)) k = rd s k"
    and write_frame: "k' \<noteq> k \<Longrightarrow> rd s k' = Some v' \<Longrightarrow> rd (snd (wr io s k v)) k' = Some v'"

text \<open>A run of writes, whatever their outcomes.\<close>

fun store_run :: "('io \<Rightarrow> 's \<Rightarrow> 'k \<Rightarrow> 'v \<Rightarrow> bool \<times> 's) \<Rightarrow> 's \<Rightarrow> ('io \<times> 'k \<times> 'v) list \<Rightarrow> 's" where
  "store_run wr s [] = s"
| "store_run wr s ((io, k, v) # ws) = store_run wr (snd (wr io s k v)) ws"

context atomic_store
begin

lemma write_old_or_new: "rd (snd (wr io s k v)) k \<in> {rd s k, Some v}"
  using write_ok write_fail by (cases "fst (wr io s k v)") auto

lemma write_keeps: "rd s k' = Some v' \<Longrightarrow> \<exists>v''. rd (snd (wr io s k v)) k' = Some v'' \<and> v'' \<in> {v', v}"
  using write_old_or_new [of io s k v] write_frame [of k' k s v' io v] by (cases "k' = k") auto

text \<open>No run tears a value: what is read is what was there or something written whole.\<close>

lemma run_no_torn_value:
  "rd s k = Some v0 \<Longrightarrow> \<exists>v. rd (store_run wr s ws) k = Some v \<and> v \<in> insert v0 {v. \<exists>io. (io, k, v) \<in> set ws}"
proof (induction ws arbitrary: s v0)
  case Nil
  then show ?case by simp
next
  case (Cons w ws)
  obtain io k' v' where w: "w = (io, k', v')" by (cases w)
  show ?case
  proof (cases "k' = k")
    case True
    obtain u where "rd (snd (wr io s k v')) k = Some u" "u \<in> {v0, v'}"
      using write_keeps [OF Cons.prems, of io k v'] by auto
    then show ?thesis using Cons.IH [of "snd (wr io s k v')" u] w True by auto
  next
    case False
    then have "rd (snd (wr io s k' v')) k = Some v0"
      using write_frame Cons.prems by metis
    then show ?thesis using Cons.IH [of "snd (wr io s k' v')" v0] w by auto
  qed
qed

end


section \<open>The file system\<close>

record inode =
  content :: bytes
  perm :: nat
  uid :: int
  gid :: int
  mtime :: time

record fsys =
  files :: "string \<rightharpoonup> inode"
  dirs :: "string \<rightharpoonup> int \<times> int"

datatype syscall =
  StatTarget | StatDir | CreateTemp | Chmod | StatTmp | Chown | Write | Sync | CloseTmp | Rename | RemoveTmp

text \<open>
  The outcomes of one call of the routine: which system calls succeed, how much of the data a
  failed write left behind, the random suffix of the temporary file, the owner new files get,
  and the time of the write.
\<close>

record io =
  io_ok :: "syscall \<Rightarrow> bool"
  io_partial :: nat
  io_suffix :: string
  io_uid :: int
  io_gid :: int
  io_now :: time

definition put_file :: "string \<Rightarrow> inode \<Rightarrow> fsys \<Rightarrow> fsys" where
  "put_file p n fs = fs\<lparr>files := (files fs)(p \<mapsto> n)\<rparr>"

definition remove_file :: "string \<Rightarrow> fsys \<Rightarrow> fsys" where
  "remove_file p fs = fs\<lparr>files := (files fs)(p := None)\<rparr>"

definition rename_file :: "string \<Rightarrow> string \<Rightarrow> inode \<Rightarrow> fsys \<Rightarrow> fsys" where
  "rename_file old new n fs = fs\<lparr>files := (files fs)(old := None, new \<mapsto> n)\<rparr>"

text \<open>\<open>filepath.Dir\<close> and \<open>filepath.Base\<close> of a clean path that does not end in a slash.\<close>

definition Base :: "string \<Rightarrow> string" where
  "Base p = rev (takeWhile (\<lambda>c. c \<noteq> CHR ''/'') (rev p))"

definition Dir :: "string \<Rightarrow> string" where
  "Dir p =
     (case dropWhile (\<lambda>c. c \<noteq> CHR ''/'') (rev p) of
        [] \<Rightarrow> ''.''
      | _ # r \<Rightarrow> if r = [] then ''/'' else rev r)"

text \<open>The name \<open>os.CreateTemp\<close> makes from the pattern \<open>.base.tmp-\<close>.\<close>

definition temp_name :: "string \<Rightarrow> string \<Rightarrow> string" where
  "temp_name p sfx =
     (if Dir p = ''/'' then ''/'' else Dir p @ ''/'') @ ''.'' @ Base p @ ''.tmp-'' @ sfx"


section \<open>The routine\<close>

text \<open>
  Mode and owner to give the new file: those of the target, or for a new target the default
  mode and the directory's owner. \<open>fileOwner\<close> always knows the owner on the systems the
  server runs on.
\<close>

definition fileOwner :: "inode \<Rightarrow> int \<times> int \<times> bool" where
  "fileOwner n = (uid n, gid n, True)"

definition target_attrs :: "io \<Rightarrow> fsys \<Rightarrow> string \<Rightarrow> nat \<Rightarrow> string + (nat \<times> int \<times> int)" where
  "target_attrs io fs path defaultMode =
     (if \<not> io_ok io StatTarget then Err ''stat target''
      else case files fs path of
        Some n \<Rightarrow> Ok (perm n, uid n, gid n)
      | None \<Rightarrow>
          if \<not> io_ok io StatDir then Err ''stat state directory''
          else (case dirs fs (Dir path) of
              None \<Rightarrow> Err ''stat state directory''
            | Some (u, g) \<Rightarrow> Ok (defaultMode, u, g)))"

text \<open>
  Everything between creating the temporary file and renaming it is a sequence of calls that
  each return early on failure. A step says whether its call succeeds, the error it returns
  otherwise, its effect, and what a failed call leaves behind; the deferred clean-up runs
  after a failure. (After the rename the clean-up finds no temporary file.)
\<close>

datatype step = Step bool string "fsys \<Rightarrow> fsys" "fsys \<Rightarrow> fsys"

fun run_steps :: "(fsys \<Rightarrow> fsys) \<Rightarrow> fsys \<Rightarrow> step list \<Rightarrow> string option \<times> fsys list" where
  "run_steps cleanup fs [] = (None, [fs])"
| "run_steps cleanup fs (Step succeeds err effect partial # rest) =
     (if succeeds then let r = run_steps cleanup (effect fs) rest in (fst r, fs # snd r)
      else (Some err, [fs, partial fs, cleanup (partial fs)]))"

definition temp_steps ::
    "io \<Rightarrow> string \<Rightarrow> bytes \<Rightarrow> nat \<times> int \<times> int \<Rightarrow> inode \<Rightarrow> step list" where
  "temp_steps io tmp data attrs n0 =
     (case attrs of (mode, u, g) \<Rightarrow>
        let n1 = n0\<lparr>perm := mode\<rparr>;
            differs = (uid n1 \<noteq> u \<or> gid n1 \<noteq> g);
            n2 = (if differs then n1\<lparr>uid := u, gid := g\<rparr> else n1)
        in [Step (io_ok io Chmod) ''set temporary file mode'' (put_file tmp n1) (\<lambda>s. s),
            Step (io_ok io StatTmp) ''stat temporary file'' (\<lambda>s. s) (\<lambda>s. s),
            Step (\<not> differs \<or> io_ok io Chown) ''preserve state ownership'' (put_file tmp n2) (\<lambda>s. s),
            Step (io_ok io Write) ''write temporary file'' (put_file tmp (n2\<lparr>content := data\<rparr>))
              (put_file tmp (n2\<lparr>content := take (io_partial io) data\<rparr>)),
            Step (io_ok io Sync) ''sync temporary file'' (\<lambda>s. s) (\<lambda>s. s),
            Step (io_ok io CloseTmp) ''close temporary file'' (\<lambda>s. s) (\<lambda>s. s)])"

definition final_inode :: "io \<Rightarrow> bytes \<Rightarrow> nat \<times> int \<times> int \<Rightarrow> inode" where
  "final_inode io data attrs =
     (case attrs of (mode, u, g) \<Rightarrow>
        \<lparr>content = data, perm = mode, uid = u, gid = g, mtime = io_now io\<rparr>)"

definition atomicWriteFile_states ::
    "io \<Rightarrow> fsys \<Rightarrow> string \<Rightarrow> bytes \<Rightarrow> nat \<Rightarrow> string option \<times> fsys list" where
  "atomicWriteFile_states io fs path data defaultMode =
     (case target_attrs io fs path defaultMode of
        Err e \<Rightarrow> (Some e, [fs])
      | Ok attrs \<Rightarrow>
          let tmp = temp_name path (io_suffix io);
              n0 = \<lparr>content = [], perm = 384, uid = io_uid io, gid = io_gid io, mtime = io_now io\<rparr>;
              cleanup = (\<lambda>s. if io_ok io RemoveTmp then remove_file tmp s else s)
          in if \<not> io_ok io CreateTemp \<or> files fs tmp \<noteq> None then (Some ''create temporary file'', [fs])
          else
            let r = run_steps cleanup (put_file tmp n0 fs)
                  (temp_steps io tmp data attrs n0
                    @ [Step (io_ok io Rename) ''replace state file''
                         (rename_file tmp path (final_inode io data attrs)) (\<lambda>s. s)])
            in (fst r, fs # snd r))"

definition atomicWriteFile ::
    "io \<Rightarrow> fsys \<Rightarrow> string \<Rightarrow> bytes \<Rightarrow> nat \<Rightarrow> string option \<times> fsys" where
  "atomicWriteFile io fs path data defaultMode =
     (case atomicWriteFile_states io fs path data defaultMode of (e, ss) \<Rightarrow> (e, last ss))"

definition ReadFile :: "fsys \<Rightarrow> string \<Rightarrow> bytes option" where
  "ReadFile fs p = map_option content (files fs p)"


section \<open>The temporary file is not the target\<close>

lemma length_path: "length p = length (Base p) + length (dropWhile (\<lambda>c. c \<noteq> CHR ''/'') (rev p))"
  unfolding Base_def by (metis length_append length_rev takeWhile_dropWhile_id)

lemma length_temp_name: "length p < length (temp_name p s)"
proof -
  define d where "d = dropWhile (\<lambda>c. c \<noteq> CHR ''/'') (rev p)"
  have dir: "Dir p = (case d of [] \<Rightarrow> ''.'' | _ # r \<Rightarrow> if r = [] then ''/'' else rev r)"
    by (simp add: Dir_def d_def)
  have "length p = length (Base p) + length d" unfolding d_def by (rule length_path)
  with dir show ?thesis by (cases d) (auto simp: temp_name_def)
qed

lemma temp_name_neq [simp]: "temp_name p s \<noteq> p" "p \<noteq> temp_name p s"
  using length_temp_name [of p s] by auto

lemma files_put [simp]: "files (put_file p n fs) = (files fs)(p \<mapsto> n)"
  by (simp add: put_file_def)

lemma files_remove [simp]: "files (remove_file p fs) = (files fs)(p := None)"
  by (simp add: remove_file_def)

lemma files_rename [simp]: "files (rename_file o' p n fs) = (files fs)(o' := None, p \<mapsto> n)"
  by (simp add: rename_file_def)


section \<open>What the routine guarantees\<close>

text \<open>The file a successful call leaves: the data, with the wanted mode and owner.\<close>

definition written :: "io \<Rightarrow> fsys \<Rightarrow> string \<Rightarrow> bytes \<Rightarrow> nat \<Rightarrow> inode option" where
  "written io fs path data defaultMode =
     (case target_attrs io fs path defaultMode of
        Err e \<Rightarrow> None
      | Ok attrs \<Rightarrow> Some (final_inode io data attrs))"

text \<open>Steps that touch one path only leave every other path alone until the rename.\<close>

definition only_at :: "string \<Rightarrow> (fsys \<Rightarrow> fsys) \<Rightarrow> bool" where
  "only_at tmp f \<longleftrightarrow> (\<forall>s p. p \<noteq> tmp \<longrightarrow> files (f s) p = files s p)"

fun step_only_at :: "string \<Rightarrow> step \<Rightarrow> bool" where
  "step_only_at tmp (Step ok e f g) = (only_at tmp f \<and> only_at tmp g)"

lemma only_atI [intro]: "(\<And>s p. p \<noteq> tmp \<Longrightarrow> files (f s) p = files s p) \<Longrightarrow> only_at tmp f"
  by (simp add: only_at_def)

lemma only_atD: "only_at tmp f \<Longrightarrow> p \<noteq> tmp \<Longrightarrow> files (f s) p = files s p"
  by (simp add: only_at_def)

lemma temp_steps_only_at: "list_all (step_only_at tmp) (temp_steps io tmp data attrs n0)"
  by (cases attrs) (auto simp: temp_steps_def Let_def intro!: only_atI)

lemma run_steps_nonempty: "snd (run_steps c fs xs) \<noteq> []"
  by (induction c fs xs rule: run_steps.induct) (auto simp: Let_def)

lemma run_steps_Cons:
  "run_steps c fs (Step True er f g # rest) = (e, ss)
    \<longleftrightarrow> (\<exists>ss'. run_steps c (f fs) rest = (e, ss') \<and> ss = fs # ss')"
  by (cases "run_steps c (f fs) rest") (auto simp: Let_def)

lemma run_steps_before:
  assumes "list_all (step_only_at tmp) xs" "only_at tmp c"
    and "run_steps c fs (xs @ [Step ok er (rename_file tmp path n) (\<lambda>s. s)]) = (e, ss)" "p \<noteq> tmp"
  shows "\<forall>s \<in> set (butlast ss). files s p = files fs p"
  using assms
proof (induction xs arbitrary: fs e ss)
  case Nil
  then show ?case by (auto simp: Let_def split: if_splits)
next
  case (Cons x xs)
  obtain ok' er' f g where x: "x = Step ok' er' f g" by (cases x)
  show ?case
  proof (cases ok')
    case False
    then show ?thesis using Cons.prems x by (auto simp: only_at_def)
  next
    case True
    obtain ss' where r: "run_steps c (f fs) (xs @ [Step ok er (rename_file tmp path n) (\<lambda>s. s)]) = (e, ss')"
      "ss = fs # ss'"
      using Cons.prems(3) x True by (auto simp: run_steps_Cons simp del: run_steps.simps)
    have eq: "files (f fs) p = files fs p"
      using only_atD [of tmp f p fs] Cons.prems(1,4) x by simp
    have "\<forall>s \<in> set (butlast ss'). files s p = files fs p"
      unfolding eq [symmetric] using Cons.IH [OF _ Cons.prems(2) r(1) Cons.prems(4)] Cons.prems(1) by simp
    moreover have "set (butlast ss) \<subseteq> insert fs (set (butlast ss'))" by (simp add: r(2))
    ultimately show ?thesis by blast
  qed
qed

lemma run_steps_last:
  assumes "list_all (step_only_at tmp) xs" "only_at tmp c"
    and "run_steps c fs (xs @ [Step ok er (rename_file tmp path n) (\<lambda>s. s)]) = (e, ss)" "p \<noteq> tmp"
  shows "files (last ss) p = (if e = None \<and> p = path then Some n else files fs p)"
  using assms
proof (induction xs arbitrary: fs e ss)
  case Nil
  then show ?case by (auto simp: Let_def only_at_def split: if_splits)
next
  case (Cons x xs)
  obtain ok' er' f g where x: "x = Step ok' er' f g" by (cases x)
  show ?case
  proof (cases ok')
    case False
    then show ?thesis using Cons.prems x by (auto simp: only_at_def)
  next
    case True
    obtain ss' where r: "run_steps c (f fs) (xs @ [Step ok er (rename_file tmp path n) (\<lambda>s. s)]) = (e, ss')"
      "ss = fs # ss'"
      using Cons.prems(3) x True by (auto simp: run_steps_Cons simp del: run_steps.simps)
    have "files (last ss') p = (if e = None \<and> p = path then Some n else files (f fs) p)"
      using Cons.IH [OF _ Cons.prems(2) r(1) Cons.prems(4)] Cons.prems(1) by simp
    moreover have "files (f fs) p = files fs p"
      using only_atD [of tmp f p fs] Cons.prems(1,4) x by simp
    moreover have "ss' \<noteq> []" using run_steps_nonempty r(1) by (metis snd_conv)
    ultimately show ?thesis using r(2) by simp
  qed
qed

lemma run_steps_temp:
  assumes "run_steps c fs (xs @ [Step ok er (rename_file tmp path n) (\<lambda>s. s)]) = (e, ss)"
    and "tmp \<noteq> path" "e = None \<or> (\<forall>s. files (c s) tmp = None)"
  shows "files (last ss) tmp = None"
  using assms
proof (induction xs arbitrary: fs e ss)
  case Nil
  then show ?case by (auto simp: Let_def split: if_splits)
next
  case (Cons x xs)
  obtain ok' er' f g where x: "x = Step ok' er' f g" by (cases x)
  show ?case
  proof (cases ok')
    case False
    then show ?thesis using Cons.prems x by auto
  next
    case True
    obtain ss' where r: "run_steps c (f fs) (xs @ [Step ok er (rename_file tmp path n) (\<lambda>s. s)]) = (e, ss')"
      "ss = fs # ss'"
      using Cons.prems(1) x True by (auto simp: run_steps_Cons simp del: run_steps.simps)
    moreover have "ss' \<noteq> []" using run_steps_nonempty r(1) by (metis snd_conv)
    ultimately show ?thesis using Cons.IH [OF r(1)] Cons.prems by simp
  qed
qed

text \<open>The two ways a call goes: an early error that touches nothing, or a run of the steps.\<close>

lemma atomicWriteFile_states_cases:
  assumes "atomicWriteFile_states io fs path data m = (e, ss)"
  obtains (early) "e \<noteq> None" "ss = [fs]"
  | (steps) attrs c fs0 xs ok er ss' where
      "target_attrs io fs path m = Ok attrs" "ss = fs # ss'"
      "list_all (step_only_at (temp_name path (io_suffix io))) xs"
      "only_at (temp_name path (io_suffix io)) c"
      "io_ok io RemoveTmp \<Longrightarrow> \<forall>s. files (c s) (temp_name path (io_suffix io)) = None"
      "files fs (temp_name path (io_suffix io)) = None"
      "\<And>p. p \<noteq> temp_name path (io_suffix io) \<Longrightarrow> files fs0 p = files fs p"
      "run_steps c fs0 (xs @ [Step ok er
         (rename_file (temp_name path (io_suffix io)) path (final_inode io data attrs)) (\<lambda>s. s)]) = (e, ss')"
proof -
  let ?tmp = "temp_name path (io_suffix io)"
  let ?n0 = "\<lparr>content = [], perm = 384, uid = io_uid io, gid = io_gid io, mtime = io_now io\<rparr>"
  let ?c = "\<lambda>s. if io_ok io RemoveTmp then remove_file ?tmp s else s"
  show ?thesis
  proof (cases "target_attrs io fs path m")
    case (Inl x)
    then show ?thesis using assms by (intro early) (auto simp: atomicWriteFile_states_def)
  next
    case (Inr attrs)
    show ?thesis
    proof (cases "\<not> io_ok io CreateTemp \<or> files fs ?tmp \<noteq> None")
      case True
      then show ?thesis using assms Inr by (intro early) (auto simp: atomicWriteFile_states_def Let_def)
    next
      case False
      let ?r = "run_steps ?c (put_file ?tmp ?n0 fs) (temp_steps io ?tmp data attrs ?n0
        @ [Step (io_ok io Rename) ''replace state file''
             (rename_file ?tmp path (final_inode io data attrs)) (\<lambda>s. s)])"
      have "e = fst ?r" "ss = fs # snd ?r"
        using assms Inr False by (simp_all add: atomicWriteFile_states_def Let_def)
      then show ?thesis
        using False Inr temp_steps_only_at
        by (intro steps [of attrs "snd ?r" "temp_steps io ?tmp data attrs ?n0" ?c "put_file ?tmp ?n0 fs"
              "io_ok io Rename" "''replace state file''"]) auto
    qed
  qed
qed

lemma atomicWriteFile_states_target:
  assumes "atomicWriteFile_states io fs path data m = (e, ss)"
  shows "\<forall>s \<in> set (butlast ss). files s path = files fs path"
    and "files (last ss) path = (if e = None then written io fs path data m else files fs path)"
    and "e = None \<Longrightarrow> written io fs path data m \<noteq> None"
  using assms
proof (atomize (full), cases rule: atomicWriteFile_states_cases)
  case early
  then show "(\<forall>s \<in> set (butlast ss). files s path = files fs path)
    \<and> files (last ss) path = (if e = None then written io fs path data m else files fs path)
    \<and> (e = None \<longrightarrow> written io fs path data m \<noteq> None)" by auto
next
  case (steps attrs c fs0 xs ok er ss')
  have "ss' \<noteq> []" using run_steps_nonempty steps(8) by (metis snd_conv)
  then show "(\<forall>s \<in> set (butlast ss). files s path = files fs path)
    \<and> files (last ss) path = (if e = None then written io fs path data m else files fs path)
    \<and> (e = None \<longrightarrow> written io fs path data m \<noteq> None)"
    using steps(1,2) steps(7) [of path] run_steps_before [OF steps(3,4,8), of path]
      run_steps_last [OF steps(3,4,8), of path]
    by (auto simp: written_def)
qed

lemma atomicWriteFile_states_others:
  assumes "atomicWriteFile_states io fs path data m = (e, ss)" "s \<in> set ss" "p \<noteq> path"
    "p \<noteq> temp_name path (io_suffix io)"
  shows "files s p = files fs p"
  using assms(1)
proof (cases rule: atomicWriteFile_states_cases)
  case early
  then show ?thesis using assms(2) by simp
next
  case (steps attrs c fs0 xs ok er ss')
  have ne: "ss' \<noteq> []" using run_steps_nonempty steps(8) by (metis snd_conv)
  have "s = fs \<or> s \<in> set (butlast ss') \<or> s = last ss'"
    using assms(2) steps(2) ne append_butlast_last_id [OF ne]
    by (metis Un_iff empty_iff empty_set set_ConsD set_append)
  then show ?thesis
    using steps(7) [OF assms(4)] run_steps_before [OF steps(3,4,8) assms(4)]
      run_steps_last [OF steps(3,4,8) assms(4)] assms(3) by auto
qed

lemma atomicWriteFile_states_existing:
  assumes "atomicWriteFile_states io fs path data m = (e, ss)" "s \<in> set ss" "p \<noteq> path"
    "files fs p \<noteq> None"
  shows "files s p = files fs p"
proof (cases "p = temp_name path (io_suffix io)")
  case False
  then show ?thesis using atomicWriteFile_states_others [OF assms(1,2,3)] by blast
next
  case True
  then have "ss = [fs]"
    using assms(1,4) by (auto elim: atomicWriteFile_states_cases)
  then show ?thesis using assms(2) by simp
qed

lemma atomicWriteFile_states_temp:
  assumes "atomicWriteFile_states io fs path data m = (e, ss)"
    "files fs (temp_name path (io_suffix io)) = None" "e = None \<or> io_ok io RemoveTmp"
  shows "files (last ss) (temp_name path (io_suffix io)) = None"
  using assms(1)
proof (cases rule: atomicWriteFile_states_cases)
  case early
  then show ?thesis using assms(2) by simp
next
  case (steps attrs c fs0 xs ok er ss')
  have "ss' \<noteq> []" using run_steps_nonempty steps(8) by (metis snd_conv)
  then show ?thesis using run_steps_temp [OF steps(8)] steps(2,5) assms(3) by auto
qed

lemma atomicWriteFile_states_nonempty:
  "atomicWriteFile_states io fs path data m = (e, ss) \<Longrightarrow> ss \<noteq> []"
  by (auto elim: atomicWriteFile_states_cases)

lemma atomicWriteFile_target:
  assumes "atomicWriteFile io fs path data m = (e, fs')"
  shows "files fs' path = (if e = None then written io fs path data m else files fs path)"
    and "e = None \<Longrightarrow> written io fs path data m \<noteq> None"
  using assms atomicWriteFile_states_target [of io fs path data m]
  by (auto simp: atomicWriteFile_def split: prod.splits)

lemma atomicWriteFile_frame:
  assumes "atomicWriteFile io fs path data m = (e, fs')" "p \<noteq> path" "files fs p \<noteq> None"
  shows "files fs' p = files fs p"
proof -
  obtain ss where ss: "atomicWriteFile_states io fs path data m = (e, ss)" "fs' = last ss"
    using assms(1) by (auto simp: atomicWriteFile_def split: prod.splits)
  then have "fs' \<in> set ss" using atomicWriteFile_states_nonempty by fastforce
  then show ?thesis using atomicWriteFile_states_existing [OF ss(1) _ assms(2,3)] by blast
qed

lemma written_content: "written io fs path data m = Some n \<Longrightarrow> content n = data"
  by (auto simp: written_def final_inode_def split: sum.splits prod.splits)

text \<open>The call succeeds when no system call fails and the target or its directory exists.\<close>

lemma run_steps_all_ok:
  "list_all (\<lambda>x. case x of Step ok er f g \<Rightarrow> ok) xs \<Longrightarrow> fst (run_steps c fs xs) = None"
  by (induction xs arbitrary: fs) (auto simp: Let_def split: step.splits)

lemma atomicWriteFile_succeeds:
  assumes "\<And>c. io_ok io c" "files fs path = Some n" "files fs (temp_name path (io_suffix io)) = None"
  obtains fs' where "atomicWriteFile io fs path data m = (None, fs')"
    "files fs' path = Some \<lparr>content = data, perm = perm n, uid = uid n, gid = gid n, mtime = io_now io\<rparr>"
    "files fs' (temp_name path (io_suffix io)) = None"
proof -
  obtain e fs' where r: "atomicWriteFile io fs path data m = (e, fs')" by fastforce
  have "fst (atomicWriteFile_states io fs path data m) = None"
    using assms by (auto simp: atomicWriteFile_states_def target_attrs_def Let_def temp_steps_def intro!: run_steps_all_ok)
  then have e: "e = None" using r by (auto simp: atomicWriteFile_def split: prod.splits)
  moreover have "files fs' path = written io fs path data m"
    using atomicWriteFile_target(1) [OF r] e by simp
  moreover have "files fs' (temp_name path (io_suffix io)) = None"
    using atomicWriteFile_states_temp [of io fs path data m, OF prod.collapse [symmetric] assms(3)] r e
    by (auto simp: atomicWriteFile_def split: prod.splits)
  ultimately show ?thesis using that r assms(1,2)
    by (simp add: written_def target_attrs_def final_inode_def)
qed

definition store_write :: "nat \<Rightarrow> io \<Rightarrow> fsys \<Rightarrow> string \<Rightarrow> bytes \<Rightarrow> bool \<times> fsys" where
  "store_write m io fs path data =
     (let r = atomicWriteFile io fs path data m in (fst r = None, snd r))"

interpretation state_files: atomic_store "store_write m" ReadFile for m
proof
  fix io s and k k' :: string and v v'
  obtain e s' where r: "atomicWriteFile io s k v m = (e, s')" by fastforce
  note t = atomicWriteFile_target [OF r]
  show "ReadFile (snd (store_write m io s k v)) k = Some v" if "fst (store_write m io s k v)"
    using that r t written_content by (auto simp: store_write_def ReadFile_def)
  show "ReadFile (snd (store_write m io s k v)) k = ReadFile s k" if "\<not> fst (store_write m io s k v)"
    using that r t(1) by (simp add: store_write_def ReadFile_def del: not_None_eq)
  show "ReadFile (snd (store_write m io s k v)) k' = Some v'" if "k' \<noteq> k" "ReadFile s k' = Some v'"
    using that r atomicWriteFile_frame [OF r that(1)] by (auto simp: store_write_def ReadFile_def)
qed


section \<open>Properties\<close>


definition sample_io :: io where
  "sample_io = \<lparr>io_ok = (\<lambda>c. c \<noteq> Rename), io_partial = 0, io_suffix = ''1'', io_uid = 0, io_gid = 0, io_now = 5\<rparr>"

definition sample_fs :: fsys where
  "sample_fs = \<lparr>files = [''/s/f'' \<mapsto> \<lparr>content = [1], perm = 416, uid = 7, gid = 8, mtime = 1\<rparr>],
     dirs = [''/s'' \<mapsto> (7, 8)]\<rparr>"


text \<open>
  Nothing else is disturbed: no existing file other than the target changes in any state,
  and the temporary file is gone at the end of every call whose removal is not refused.
\<close>

theorem atomic_write_frame:
  assumes "atomicWriteFile_states io fs path data m = (e, ss)"
  shows "(\<forall>s \<in> set ss. \<forall>p. p \<noteq> path \<and> files fs p \<noteq> None \<longrightarrow> files s p = files fs p)
    \<and> (e = None \<or> io_ok io RemoveTmp \<longrightarrow>
        (\<forall>p. p \<noteq> path \<longrightarrow> files (last ss) p = files fs p))"
proof (intro conjI ballI allI impI)
  fix s p assume "s \<in> set ss" "p \<noteq> path \<and> files fs p \<noteq> None"
  then show "files s p = files fs p" using atomicWriteFile_states_existing [OF assms] by blast
next
  fix p assume c: "e = None \<or> io_ok io RemoveTmp" "p \<noteq> path"
  have l: "last ss \<in> set ss" using atomicWriteFile_states_nonempty [OF assms] by simp
  show "files (last ss) p = files fs p"
  proof (cases "p = temp_name path (io_suffix io) \<and> files fs p = None")
    case True
    with atomicWriteFile_states_temp [OF assms _ c(1)] show ?thesis by metis
  next
    case False
    with atomicWriteFile_states_others [OF assms l c(2)] atomicWriteFile_states_existing [OF assms l c(2)]
    show ?thesis by auto
  qed
qed

theorem atomic_write_frame_witness:
  "\<forall>p. p = ''/s/f'' \<or>
     files (last (snd (atomicWriteFile_states sample_io sample_fs ''/s/f'' [2] 384))) p = files sample_fs p"
  using atomic_write_frame [of sample_io sample_fs "''/s/f''" "[2]" 384, OF prod.collapse [symmetric]]
  by (auto simp: sample_io_def)

end
