(* ===== verification/Base64Url.thy ===== *)
theory Base64Url
  imports Prelude
begin

text \<open>
  The encoding \<open>b64url\<close> of \<^verbatim>\<open>crypto.go\<close>: base64 with the URL alphabet and without padding,
  as Go's \<^verbatim>\<open>encoding/base64\<close> implements it. Its decoder skips carriage returns and newlines
  wherever they stand, ignores the unused low bits of a last partial group, and rejects every
  other character outside the alphabet and a group of a single character.
\<close>

section \<open>The alphabet\<close>

definition b64_alphabet :: string where
  "b64_alphabet = ''ABCDEFGHIJKLMNOPQRSTUVWXYZabcdefghijklmnopqrstuvwxyz0123456789-_''"

definition b64_char :: "nat \<Rightarrow> char" where
  "b64_char n = b64_alphabet ! n"

text \<open>The inverse table \<open>decodeMap\<close>, as the ranges of the alphabet.\<close>

definition b64_value :: "char \<Rightarrow> nat option" where
  "b64_value c =
     (let n = of_char c in
      if 65 \<le> n \<and> n \<le> 90 then Some (n - 65)
      else if 97 \<le> n \<and> n \<le> 122 then Some (n - 71)
      else if 48 \<le> n \<and> n \<le> 57 then Some (n + 4)
      else if n = 45 then Some 62
      else if n = 95 then Some 63
      else None)"

lemma b64_value_char_all: "list_all (\<lambda>n. b64_value (b64_char n) = Some n) [0..<64]"
  by (simp add: b64_value_def b64_char_def b64_alphabet_def upt_rec)

lemma b64_char_plain_all: "list_all (\<lambda>n. plain_char (b64_char n) \<and> b64_char n \<noteq> CHR ''|'') [0..<64]"
  by (simp add: plain_char_def b64_char_def b64_alphabet_def upt_rec)

lemma b64_value_char [simp]: "n < 64 \<Longrightarrow> b64_value (b64_char n) = Some n"
  using b64_value_char_all by (simp add: list_all_iff)

lemma b64_char_plain: "n < 64 \<Longrightarrow> plain_char (b64_char n)"
  using b64_char_plain_all by (simp add: list_all_iff)

lemma b64_value_less: "b64_value c = Some n \<Longrightarrow> n < 64"
  by (auto simp: b64_value_def Let_def split: if_splits)

lemma b64_value_not_pipe: "b64_value c = Some n \<Longrightarrow> c \<noteq> CHR ''|''"
  by (auto simp: b64_value_def Let_def)


section \<open>Encoding and decoding\<close>

fun b64_encode :: "nat list \<Rightarrow> nat list" where
  "b64_encode [] = []"
| "b64_encode [a] = [a div 4, a mod 4 * 16]"
| "b64_encode [a, b] = [a div 4, a mod 4 * 16 + b div 16, b mod 16 * 4]"
| "b64_encode (a # b # c # rest) =
     [a div 4, a mod 4 * 16 + b div 16, b mod 16 * 4 + c div 64, c mod 64] @ b64_encode rest"

fun b64_decode :: "nat list \<Rightarrow> nat list option" where
  "b64_decode [] = Some []"
| "b64_decode [w] = None"
| "b64_decode [w, x] = Some [w * 4 + x div 16]"
| "b64_decode [w, x, y] = Some [w * 4 + x div 16, x mod 16 * 16 + y div 4]"
| "b64_decode (w # x # y # z # rest) =
     map_option (\<lambda>bs. [w * 4 + x div 16, x mod 16 * 16 + y div 4, y mod 4 * 64 + z] @ bs)
       (b64_decode rest)"

definition EncodeToString :: "bytes \<Rightarrow> string" where
  "EncodeToString bs = map b64_char (b64_encode (map unat bs))"

definition is_newline :: "char \<Rightarrow> bool" where
  "is_newline c = ((of_char c :: nat) \<in> {10, 13})"

text \<open>All or nothing: the values of the characters, if each has one.\<close>

fun b64_values :: "string \<Rightarrow> nat list option" where
  "b64_values [] = Some []"
| "b64_values (c # cs) =
     (case b64_value c of None \<Rightarrow> None
      | Some n \<Rightarrow> map_option (\<lambda>ns. n # ns) (b64_values cs))"

definition DecodeString :: "string \<Rightarrow> bytes option" where
  "DecodeString s =
     (case b64_values (filter (\<lambda>c. \<not> is_newline c) s) of
        None \<Rightarrow> None
      | Some ns \<Rightarrow> map_option (map word_of_nat) (b64_decode ns))"


section \<open>Decoding an encoding gives the bytes back\<close>

lemma b64_encode_less: "list_all (\<lambda>a. a < 256) as \<Longrightarrow> list_all (\<lambda>n. n < 64) (b64_encode as)"
  by (induction as rule: b64_encode.induct) (auto simp: less_mult_imp_div_less)

lemma b64_decode_encode: "list_all (\<lambda>a. a < 256) as \<Longrightarrow> b64_decode (b64_encode as) = Some as"
  by (induction as rule: b64_encode.induct) (auto simp: less_mult_imp_div_less)

lemma b64_values_chars: "list_all (\<lambda>n. n < 64) ns \<Longrightarrow> b64_values (map b64_char ns) = Some ns"
  by (induction ns) auto

lemma unat_bytes_less: "list_all (\<lambda>a. a < 256) (map unat (bs :: bytes))"
  using unsigned_less [where 'b = 8 and 'a = nat] by (auto simp: list_all_iff)

lemma b64_char_not_newline: "n < 64 \<Longrightarrow> \<not> is_newline (b64_char n)"
  using b64_char_plain [of n] by (auto simp: plain_char_def is_newline_def)

lemma EncodeToString_plain: "list_all plain_char (EncodeToString bs)"
  using b64_encode_less [OF unat_bytes_less, of bs]
  by (auto simp: EncodeToString_def list_all_iff intro: b64_char_plain)

lemma EncodeToString_no_newline: "filter (\<lambda>c. \<not> is_newline c) (EncodeToString bs) = EncodeToString bs"
  using b64_encode_less [OF unat_bytes_less, of bs]
  by (auto simp: EncodeToString_def list_all_iff b64_char_not_newline intro: filter_True)

lemma Decode_Encode: "DecodeString (EncodeToString bs) = Some bs"
proof -
  have "b64_values (EncodeToString bs) = Some (b64_encode (map unat bs))"
    by (simp add: EncodeToString_def b64_values_chars b64_encode_less unat_bytes_less)
  then show ?thesis
    by (simp add: DecodeString_def EncodeToString_no_newline b64_decode_encode unat_bytes_less comp_def)
qed

lemma EncodeToString_inj [simp]: "EncodeToString a = EncodeToString b \<longleftrightarrow> a = b"
  by (metis Decode_Encode option.inject)

interpretation b64url: codec EncodeToString DecodeString "\<lambda>_. True"
  by unfold_locales (rule Decode_Encode)


section \<open>What decodes\<close>

text \<open>A decodable text holds no field separator of the signing inputs.\<close>

lemma b64_values_no_pipe: "b64_values cs = Some ns \<Longrightarrow> CHR ''|'' \<notin> set cs"
  by (induction cs arbitrary: ns) (auto split: option.splits dest: b64_value_not_pipe)

lemma newline_not_pipe: "\<not> is_newline (CHR ''|'')"
  by (simp add: is_newline_def)

lemma DecodeString_no_pipe: "DecodeString s = Some bs \<Longrightarrow> CHR ''|'' \<notin> set s"
proof
  assume d: "DecodeString s = Some bs" and m: "CHR ''|'' \<in> set s"
  from m have "CHR ''|'' \<in> set (filter (\<lambda>c. \<not> is_newline c) s)"
    by (simp add: newline_not_pipe)
  with d show False
    using b64_values_no_pipe [of "filter (\<lambda>c. \<not> is_newline c) s"]
    by (auto simp: DecodeString_def split: option.splits)
qed

text \<open>The number of bytes is three quarters of the number of significant characters.\<close>

lemma length_b64_decode: "b64_decode ns = Some bs \<Longrightarrow> length bs = 3 * length ns div 4"
  by (induction ns arbitrary: bs rule: b64_decode.induct) auto

lemma length_b64_values: "b64_values cs = Some ns \<Longrightarrow> length ns = length cs"
  by (induction cs arbitrary: ns) (auto split: option.splits)

lemma length_DecodeString:
  "DecodeString s = Some bs \<Longrightarrow> length bs = 3 * length (filter (\<lambda>c. \<not> is_newline c) s) div 4"
  by (auto simp: DecodeString_def split: option.splits dest!: length_b64_decode length_b64_values)

text \<open>Newlines do not change what a text decodes to, so decoding is not injective.\<close>

lemma DecodeString_newline: "is_newline c \<Longrightarrow> DecodeString (s @ c # t) = DecodeString (s @ t)"
  by (simp add: DecodeString_def)

end
