(* ===== verification/Crypto.thy ===== *)
theory Crypto
  imports Wire_Types Base64Url
begin

unbundle bit_operations_syntax

text \<open>
  \<^verbatim>\<open>crypto.go\<close> and the key and signature formats of \<^verbatim>\<open>envelope.go\<close>, \<^verbatim>\<open>state.go\<close> and
  \<^verbatim>\<open>app_attest.go\<close>: big-endian integers, SEC1 points, P1363 signatures and the texts that
  are signed. The primitives themselves (hashing, elliptic-curve arithmetic, signing, key
  derivation, authenticated encryption) are arguments; laws about them appear as hypotheses
  where a property needs one.
\<close>

section \<open>Primitives taken as arguments\<close>

datatype curve = P256 | OtherCurve

record PublicKey =
  pk_Curve :: curve
  pk_X :: nat
  pk_Y :: nat

record PrivateKey =
  sk_Public :: PublicKey
  sk_D :: nat

text \<open>
  Functions that consume randomness take it as a byte string. The elliptic-curve Diffie-Hellman
  functions follow \<^verbatim>\<open>crypto/ecdh\<close>: a generated key is its scalar with its 65-byte public point.
\<close>

record crypto =
  sha256 :: "bytes \<Rightarrow> bytes"
  UnmarshalCompressed :: "bytes \<Rightarrow> (nat \<times> nat) option"
  ecdsa_Sign :: "bytes \<Rightarrow> PrivateKey \<Rightarrow> bytes \<Rightarrow> (nat \<times> nat) option"
  ecdsa_Verify :: "PublicKey \<Rightarrow> bytes \<Rightarrow> nat \<Rightarrow> nat \<Rightarrow> bool"
  ecdh_NewPublicKey :: "bytes \<Rightarrow> bytes option"
  ecdh_GenerateKey :: "bytes \<Rightarrow> (bytes \<times> bytes) option"
  ecdh_ECDH :: "bytes \<Rightarrow> bytes \<Rightarrow> bytes option"
  hkdf_sha256 :: "bytes \<Rightarrow> bytes \<Rightarrow> bytes \<Rightarrow> nat \<Rightarrow> bytes option"
  gcm_Seal :: "bytes \<Rightarrow> bytes \<Rightarrow> bytes \<Rightarrow> bytes \<Rightarrow> bytes"
  chacha_Seal :: "bytes \<Rightarrow> bytes \<Rightarrow> bytes \<Rightarrow> bytes \<Rightarrow> bytes"
  chacha_Open :: "bytes \<Rightarrow> bytes \<Rightarrow> bytes \<Rightarrow> bytes \<Rightarrow> bytes option"

text \<open>The text of a panic of the runtime, as an error value.\<close>

definition slice_panic :: string where
  "slice_panic = ''panic: runtime error: slice bounds out of range''"

definition index_panic :: string where
  "index_panic = ''panic: runtime error: index out of range''"


section \<open>Big-endian integers\<close>

text \<open>\<open>big.Int.SetBytes\<close> and \<open>big.Int.Bytes\<close> (no leading zeros).\<close>

definition SetBytes :: "bytes \<Rightarrow> nat" where
  "SetBytes bs = foldl (\<lambda>a b. a * 256 + unat b) 0 bs"

fun Int_Bytes :: "nat \<Rightarrow> bytes" where
  "Int_Bytes n = (if n = 0 then [] else Int_Bytes (n div 256) @ [word_of_nat (n mod 256)])"

declare Int_Bytes.simps [simp del]

text \<open>
  \<open>copy(buf[hi-len(b):], b)\<close> for a \<open>hi\<close> within the buffer: \<open>b\<close> ends at \<open>hi\<close>; when it is longer
  than \<open>hi\<close> the slice bound is negative, which panics.
\<close>

definition copy_right :: "nat \<Rightarrow> bytes \<Rightarrow> bytes \<Rightarrow> string + bytes" where
  "copy_right hi b buf =
     (if length b \<le> hi then Ok (take (hi - length b) buf @ b @ drop hi buf) else Err slice_panic)"

text \<open>The number in \<open>w\<close> bytes, which it fills from the right.\<close>

definition word_bytes :: "nat \<Rightarrow> nat \<Rightarrow> bytes" where
  "word_bytes w n = replicate (w - length (Int_Bytes n)) 0 @ Int_Bytes n"

lemma SetBytes_snoc: "SetBytes (bs @ [b]) = SetBytes bs * 256 + unat b"
  by (simp add: SetBytes_def)

lemma SetBytes_Nil [simp]: "SetBytes [] = 0"
  by (simp add: SetBytes_def)

lemma SetBytes_Int_Bytes [simp]: "SetBytes (Int_Bytes n) = n"
proof (induction n rule: Int_Bytes.induct)
  case (1 n)
  show ?case
  proof (cases "n = 0")
    case True
    then show ?thesis by (subst Int_Bytes.simps) simp
  next
    case False
    then have "SetBytes (Int_Bytes n) = n div 256 * 256 + unat (word_of_nat (n mod 256) :: byte)"
      using 1 by (subst Int_Bytes.simps) (simp add: SetBytes_snoc)
    then show ?thesis by (simp add: unat_of_nat take_bit_eq_mod)
  qed
qed

lemma SetBytes_zeros: "SetBytes (replicate k 0 @ bs) = SetBytes bs"
  by (induction k) (simp_all add: SetBytes_def)

lemma SetBytes_less: "SetBytes bs < 256 ^ length bs"
proof (induction bs rule: rev_induct)
  case Nil
  then show ?case by simp
next
  case (snoc b bs)
  have "unat b < 256" using unsigned_less [of b, where 'a = nat] by simp
  moreover have "Suc (SetBytes bs) * 256 \<le> 256 ^ length bs * 256" using snoc.IH by simp
  ultimately show ?case by (simp add: SetBytes_snoc)
qed

lemma SetBytes_inj: "length as = length bs \<Longrightarrow> SetBytes as = SetBytes bs \<Longrightarrow> as = bs"
proof (induction as arbitrary: bs rule: rev_induct)
  case Nil
  then show ?case by simp
next
  case (snoc a as)
  then obtain bs' b where bs: "bs = bs' @ [b]" by (metis append_is_Nil_conv length_0_conv not_Cons_self2 rev_exhaust)
  have lt: "unat a < 256" "unat b < 256" using unsigned_less [where 'b = 8 and 'a = nat] by auto
  have eq: "SetBytes as * 256 + unat a = SetBytes bs' * 256 + unat b"
    using snoc.prems(2) bs by (simp add: SetBytes_snoc)
  then have "a = b" using lt
    by (metis mod_mult_self3 mod_less word_unat_eq_iff)
  moreover from this eq have "SetBytes as = SetBytes bs'" by simp
  ultimately show ?case using snoc bs by simp
qed

lemma length_Int_Bytes: "n < 256 ^ w \<Longrightarrow> length (Int_Bytes n) \<le> w"
proof (induction w arbitrary: n)
  case 0
  then show ?case by (subst Int_Bytes.simps) simp
next
  case (Suc w)
  show ?case
  proof (cases "n = 0")
    case True
    then show ?thesis by (subst Int_Bytes.simps) simp
  next
    case False
    have "n div 256 < 256 ^ w" using Suc.prems by (simp add: less_mult_imp_div_less)
    then show ?thesis using False Suc.IH by (subst Int_Bytes.simps) simp
  qed
qed

lemma SetBytes_word_bytes [simp]: "SetBytes (word_bytes w n) = n"
  by (simp add: word_bytes_def SetBytes_zeros)

lemma length_word_bytes [simp]: "n < 256 ^ w \<Longrightarrow> length (word_bytes w n) = w"
  using length_Int_Bytes [of n w] by (simp add: word_bytes_def)

lemma word_bytes_SetBytes: "length bs = w \<Longrightarrow> word_bytes w (SetBytes bs) = bs"
  using SetBytes_less [of bs] by (intro SetBytes_inj) auto

lemma copy_right_word:
  assumes "n < 256 ^ w" "w \<le> hi" "hi \<le> length buf" "take w (drop (hi - w) buf) = replicate w 0"
  shows "copy_right hi (Int_Bytes n) buf = Ok (take (hi - w) buf @ word_bytes w n @ drop hi buf)"
proof -
  let ?l = "length (Int_Bytes n)"
  have l: "?l \<le> w" using assms(1) by (rule length_Int_Bytes)
  have "take (hi - ?l) buf = take (hi - w) buf @ take (w - ?l) (drop (hi - w) buf)"
    using l assms(2) by (simp add: take_add [symmetric])
  also have "take (w - ?l) (drop (hi - w) buf) = take (w - ?l) (replicate w 0)"
    by (simp add: assms(4) [symmetric])
  finally show ?thesis using l assms(2) by (simp add: copy_right_def word_bytes_def)
qed


section \<open>P1363 signatures\<close>

definition verifyP1363Signature :: "crypto \<Rightarrow> PublicKey \<Rightarrow> bytes \<Rightarrow> bytes \<Rightarrow> bool" where
  "verifyP1363Signature C pub msg signatureRaw =
     (if length signatureRaw \<noteq> 64 then False
      else let r = SetBytes (take 32 signatureRaw); s = SetBytes (drop 32 signatureRaw);
               hash = sha256 C msg
           in ecdsa_Verify C pub hash r s)"

text \<open>The 64 bytes \<open>r||s\<close>, as both signing routines lay them out.\<close>

definition p1363_bytes :: "nat \<Rightarrow> nat \<Rightarrow> string + bytes" where
  "p1363_bytes r s =
     (let sig = replicate 64 0; rBytes = Int_Bytes r; sBytes = Int_Bytes s in
      case copy_right 32 rBytes sig of
        Err e \<Rightarrow> Err e
      | Ok sig' \<Rightarrow> copy_right 64 sBytes sig')"

definition signP1363 :: "crypto \<Rightarrow> bytes \<Rightarrow> PrivateKey \<Rightarrow> bytes \<Rightarrow> string + bytes" where
  "signP1363 C rnd priv msg =
     (let hash = sha256 C msg in
      case ecdsa_Sign C rnd priv hash of
        None \<Rightarrow> Err ''ecdsa.Sign''
      | Some (r, s) \<Rightarrow> p1363_bytes r s)"

definition p1363_enc :: "nat \<times> nat \<Rightarrow> bytes" where
  "p1363_enc rs = (case p1363_bytes (fst rs) (snd rs) of Err _ \<Rightarrow> [] | Ok b \<Rightarrow> b)"

definition p1363_dec :: "bytes \<Rightarrow> (nat \<times> nat) option" where
  "p1363_dec sig = (if length sig = 64 then Some (SetBytes (take 32 sig), SetBytes (drop 32 sig)) else None)"

lemma p1363_bytes_Ok:
  assumes "r < 256 ^ 32" "s < 256 ^ 32"
  shows "p1363_bytes r s = Ok (word_bytes 32 r @ word_bytes 32 s)"
proof -
  have "copy_right 32 (Int_Bytes r) (replicate 64 0) = Ok (word_bytes 32 r @ replicate 32 0)"
    using copy_right_word [of r 32 32 "replicate 64 0"] assms(1) by simp
  moreover have "copy_right 64 (Int_Bytes s) (word_bytes 32 r @ replicate 32 0)
      = Ok (word_bytes 32 r @ word_bytes 32 s)"
    using copy_right_word [of s 32 64 "word_bytes 32 r @ replicate 32 0"] assms by simp
  ultimately show ?thesis by (simp add: p1363_bytes_def Let_def)
qed

interpretation p1363: strict_codec p1363_enc p1363_dec "\<lambda>(r, s). r < 256 ^ 32 \<and> s < 256 ^ 32"
proof
  fix x :: "nat \<times> nat" and y :: bytes
  show "p1363_dec (p1363_enc x) = Some x" if "case x of (r, s) \<Rightarrow> r < 256 ^ 32 \<and> s < 256 ^ 32"
    using that by (cases x) (simp add: p1363_enc_def p1363_dec_def p1363_bytes_Ok)
  show "(case x of (r, s) \<Rightarrow> r < 256 ^ 32 \<and> s < 256 ^ 32) \<and> p1363_enc x = y" if "p1363_dec y = Some x"
  proof -
    have l: "length (take 32 y) = 32" "length (drop 32 y) = 32"
      and x: "x = (SetBytes (take 32 y), SetBytes (drop 32 y))"
      using that by (auto simp: p1363_dec_def split: if_splits)
    have "SetBytes (take 32 y) < 256 ^ 32" "SetBytes (drop 32 y) < 256 ^ 32"
      using SetBytes_less [of "take 32 y"] SetBytes_less [of "drop 32 y"] l by simp_all
    then show ?thesis
      using word_bytes_SetBytes [OF l(1)] word_bytes_SetBytes [OF l(2)]
      by (simp add: x p1363_enc_def p1363_bytes_Ok)
  qed
qed


section \<open>SEC1 points\<close>

definition compressP256 :: "PublicKey \<Rightarrow> string + bytes" where
  "compressP256 pub =
     (if pk_Curve pub \<noteq> P256 then Err ''not P-256''
      else let out = (if even (pk_Y pub) then 2 else 3) # replicate 32 0
           in copy_right 33 (Int_Bytes (pk_X pub)) out)"

definition CreatorPubKeyCompressedB64 :: "PrivateKey \<Rightarrow> string + string" where
  "CreatorPubKeyCompressedB64 priv =
     (let pub = sk_Public priv;
          out = (if even (pk_Y pub) then 2 else 3) # replicate 32 0
      in case copy_right 33 (Int_Bytes (pk_X pub)) out of
        Err e \<Rightarrow> Err e
      | Ok out' \<Rightarrow> Ok (EncodeToString out'))"

definition compressUncompressedP256 :: "bytes \<Rightarrow> string + bytes" where
  "compressUncompressedP256 u =
     (if length u \<noteq> 65 \<or> u ! 0 \<noteq> 4 then
        (if u = [] then Err index_panic else Err ''not P-256 uncompressed'')
      else Ok ((if (u ! 64) AND 1 = 0 then 2 else 3) # take 32 (drop 1 u)))"

definition decodeP256Compressed :: "crypto \<Rightarrow> string \<Rightarrow> string + PublicKey" where
  "decodeP256Compressed C b64 =
     (case DecodeString b64 of
        None \<Rightarrow> Err ''bad base64''
      | Some raw \<Rightarrow>
          if length raw \<noteq> 33 then Err ''want 33 bytes (P-256 compressed)''
          else (case UnmarshalCompressed C raw of
              None \<Rightarrow> Err ''invalid compressed point (not on curve)''
            | Some (x, y) \<Rightarrow> Ok \<lparr>pk_Curve = P256, pk_X = x, pk_Y = y\<rparr>))"

text \<open>\<open>curveByteSize\<close> comes from the key's curve, which is a parameter of the elliptic-curve package.\<close>

definition marshalUncompressed :: "PublicKey \<Rightarrow> nat \<Rightarrow> string + bytes" where
  "marshalUncompressed pub curveByteSize =
     (let out = 4 # replicate (2 * curveByteSize) 0 in
      case copy_right (1 + curveByteSize) (Int_Bytes (pk_X pub)) out of
        Err e \<Rightarrow> Err e
      | Ok out' \<Rightarrow> copy_right (1 + 2 * curveByteSize) (Int_Bytes (pk_Y pub)) out')"

text \<open>The static peer of a wrap, as \<open>envelope.go\<close> hands it to the Diffie-Hellman package.\<close>

definition decodeP256CompressedToEcdh :: "crypto \<Rightarrow> bytes \<Rightarrow> string + bytes" where
  "decodeP256CompressedToEcdh C compressed =
     (if length compressed \<noteq> 33 then Err ''not 33 bytes''
      else case UnmarshalCompressed C compressed of
        None \<Rightarrow> Err ''invalid compressed point''
      | Some (x, y) \<Rightarrow>
          (case copy_right 33 (Int_Bytes x) (4 # replicate 64 0) of
             Err e \<Rightarrow> Err e
           | Ok u \<Rightarrow> (case copy_right 65 (Int_Bytes y) u of
               Err e \<Rightarrow> Err e
             | Ok u' \<Rightarrow> (case ecdh_NewPublicKey C u' of
                 None \<Rightarrow> Err ''NewPublicKey''
               | Some k \<Rightarrow> Ok k))))"

lemma compressP256_Ok:
  "pk_Curve pub = P256 \<Longrightarrow> pk_X pub < 256 ^ 32 \<Longrightarrow>
   compressP256 pub = Ok ((if even (pk_Y pub) then 2 else 3) # word_bytes 32 (pk_X pub))"
  using copy_right_word [of "pk_X pub" 32 33 "(if even (pk_Y pub) then 2 else 3) # replicate 32 0"]
  by (simp add: compressP256_def Let_def)

lemma marshalUncompressed_Ok:
  assumes "pk_X pub < 256 ^ w" "pk_Y pub < 256 ^ w"
  shows "marshalUncompressed pub w = Ok (4 # word_bytes w (pk_X pub) @ word_bytes w (pk_Y pub))"
proof -
  have "copy_right (1 + w) (Int_Bytes (pk_X pub)) (4 # replicate (2 * w) 0)
      = Ok (4 # word_bytes w (pk_X pub) @ replicate w 0)"
    using copy_right_word [of "pk_X pub" w "1 + w" "4 # replicate (2 * w) 0"] assms by simp
  moreover have "copy_right (1 + 2 * w) (Int_Bytes (pk_Y pub)) (4 # word_bytes w (pk_X pub) @ replicate w 0)
      = Ok (4 # word_bytes w (pk_X pub) @ word_bytes w (pk_Y pub))"
    using copy_right_word [of "pk_Y pub" w "1 + 2 * w" "4 # word_bytes w (pk_X pub) @ replicate w 0"] assms
    by (simp add: Suc_diff_le)
  ultimately show ?thesis by (simp add: marshalUncompressed_def Let_def)
qed

lemma compress_marshalled:
  assumes "pk_Curve pub = P256" "pk_X pub < 256 ^ 32" "pk_Y pub < 256 ^ 32"
    "marshalUncompressed pub 32 = Ok u"
  shows "compressUncompressedP256 u = compressP256 pub"
proof -
  let ?x = "word_bytes 32 (pk_X pub)" and ?y = "word_bytes 32 (pk_Y pub)"
  have u: "u = 4 # ?x @ ?y" using assms marshalUncompressed_Ok [of pub 32] by simp
  have lx: "length ?x = 32" and ly: "length ?y = 32" using assms by simp_all
  obtain ys y where y: "?y = ys @ [y]" using ly
    by (metis append_butlast_last_id list.size(3) zero_neq_numeral)
  have "length ys = 31" using ly y by simp
  then have last: "u ! 64 = y" using lx by (simp add: u y nth_append)
  have "pk_Y pub = SetBytes ys * 256 + unat y"
    using SetBytes_word_bytes [of 32 "pk_Y pub"] by (simp add: y SetBytes_snoc)
  then have "even (pk_Y pub) \<longleftrightarrow> even (unat y)" by simp
  also have "\<dots> \<longleftrightarrow> y AND 1 = 0"
    using bit_unsigned_iff [of y 0, where 'a = nat]
    by (simp add: and_one_eq even_iff_mod_2_eq_zero [symmetric] bit_0)
  finally have "even (pk_Y pub) \<longleftrightarrow> u ! 64 AND 1 = 0" by (simp add: last)
  then show ?thesis using assms lx ly
    by (simp add: compressUncompressedP256_def compressP256_Ok u)
qed


section \<open>Signed texts\<close>

definition issueRequestSigningInput :: "IssueRequest \<Rightarrow> bytes" where
  "issueRequestSigningInput req =
     (if iq_V req \<ge> 2 then
        bytes_of (''v2.issue|'' @ iq_DevicePk req @ ''|'' @ ab_Platform (iq_Attestation req) @ ''|''
          @ ab_Token (iq_Attestation req) @ ''|'' @ ab_Nonce (iq_Attestation req) @ ''|''
          @ ab_BoundDevicePk (iq_Attestation req) @ ''|'' @ ab_Proof (iq_Attestation req) @ ''|''
          @ iq_ConfigID req @ ''|'' @ iq_RequestNonce req)
      else
        bytes_of (''v1.issue|'' @ iq_DevicePk req @ ''|'' @ ab_Token (iq_Attestation req) @ ''|''
          @ iq_ConfigID req @ ''|'' @ iq_RequestNonce req))"

definition attestationBindingInput :: "AttestationBlob \<Rightarrow> bytes" where
  "attestationBindingInput blob = bytes_of (''v2.attest|'' @ ab_Nonce blob @ ''|'' @ ab_BoundDevicePk blob)"

definition verifyIssueRequestSignature :: "crypto \<Rightarrow> IssueRequest \<Rightarrow> string + bool" where
  "verifyIssueRequestSignature C req =
     (case decodeP256Compressed C (iq_DevicePk req) of
        Err e \<Rightarrow> Err (''bad devicePk: '' @ e)
      | Ok devicePub \<Rightarrow>
          (case DecodeString (iq_RequestSignature req) of
             None \<Rightarrow> Err ''bad signature base64''
           | Some sigRaw \<Rightarrow> Ok (verifyP1363Signature C devicePub (issueRequestSigningInput req) sigRaw)))"

definition issueReceiptSigningInput :: "string \<Rightarrow> string \<Rightarrow> IssueResponse \<Rightarrow> bytes" where
  "issueReceiptSigningInput devicePk requestNonce resp =
     bytes_of (''v1.receipt|'' @ devicePk @ ''|'' @ requestNonce @ ''|'' @ ir_ExpiresAt resp @ ''|''
       @ ir_ConfigB64 resp)"

definition signReceipt :: "crypto \<Rightarrow> bytes \<Rightarrow> PrivateKey \<Rightarrow> string \<Rightarrow> string \<Rightarrow> IssueResponse \<Rightarrow> string + string" where
  "signReceipt C rnd creatorPriv devicePk requestNonce resp =
     (let msg = issueReceiptSigningInput devicePk requestNonce resp;
          hash = sha256 C msg
      in case ecdsa_Sign C rnd creatorPriv hash of
        None \<Rightarrow> Err ''ecdsa.Sign''
      | Some (r, s) \<Rightarrow>
          (case p1363_bytes r s of Err e \<Rightarrow> Err e | Ok sig \<Rightarrow> Ok (EncodeToString sig)))"

lemma signReceipt_signP1363:
  "signReceipt C rnd priv pk n resp =
     (case signP1363 C rnd priv (issueReceiptSigningInput pk n resp) of
        Err e \<Rightarrow> Err e | Ok sig \<Rightarrow> Ok (EncodeToString sig))"
  by (simp add: signReceipt_def signP1363_def Let_def split: option.splits sum.splits)

section \<open>What the primitives promise\<close>

text \<open>
  The documented law of ECDSA on P-256: the two numbers are below the group order, hence of
  at most 32 bytes, and the signer's public key accepts them; and the one of point
  compression: it is undone on the points of the curve.
\<close>

definition ecdsa_correct :: "crypto \<Rightarrow> PrivateKey \<Rightarrow> bool" where
  "ecdsa_correct C priv =
     (\<forall>rnd h r s. ecdsa_Sign C rnd priv h = Some (r, s) \<longrightarrow>
        r < 256 ^ 32 \<and> s < 256 ^ 32 \<and> ecdsa_Verify C (sk_Public priv) h r s)"

definition point_decompresses :: "crypto \<Rightarrow> PublicKey \<Rightarrow> bool" where
  "point_decompresses C pub =
     (pk_Curve pub = P256 \<and> pk_X pub < 256 ^ 32 \<and> pk_Y pub < 256 ^ 32 \<and>
      (\<forall>raw. compressP256 pub = Ok raw \<longrightarrow> UnmarshalCompressed C raw = Some (pk_X pub, pk_Y pub)))"

text \<open>A concrete instance, for witnesses: it satisfies the laws and has no secrets.\<close>

definition sample_crypto :: crypto where
  "sample_crypto = \<lparr>sha256 = (\<lambda>m. take 32 (m @ replicate 32 0)),
     UnmarshalCompressed = (\<lambda>raw. Some (SetBytes (drop 1 raw), if hd raw = 2 then 0 else 1)),
     ecdsa_Sign = (\<lambda>rnd k h. Some (1, 2)),
     ecdsa_Verify = (\<lambda>pk h r s. r = 1 \<and> s = 2),
     ecdh_NewPublicKey = (\<lambda>u. Some u),
     ecdh_GenerateKey = (\<lambda>rnd. Some (rnd, 4 # replicate 64 0)),
     ecdh_ECDH = (\<lambda>k p. Some (replicate 32 0)),
     hkdf_sha256 = (\<lambda>secret salt info n. Some (replicate n 0)),
     gcm_Seal = (\<lambda>k n m a. m @ replicate 16 0),
     chacha_Seal = (\<lambda>k n m a. m @ replicate 16 0),
     chacha_Open = (\<lambda>k n c a. Some (take (length c - 16) c))\<rparr>"

definition sample_key :: PrivateKey where
  "sample_key = \<lparr>sk_Public = \<lparr>pk_Curve = P256, pk_X = 7, pk_Y = 1\<rparr>, sk_D = 5\<rparr>"

lemma sample_ecdsa_correct: "ecdsa_correct sample_crypto priv"
  by (simp add: ecdsa_correct_def sample_crypto_def)

lemma sample_point_decompresses: "point_decompresses sample_crypto (sk_Public sample_key)"
proof -
  have "SetBytes (word_bytes 32 7) = 7" by simp
  then show ?thesis
    by (simp add: point_decompresses_def sample_crypto_def sample_key_def compressP256_Ok)
qed

lemma signP1363_verifies:
  assumes "ecdsa_correct C priv" "ecdsa_Sign C rnd priv (sha256 C msg) = Some (r, s)"
  obtains sig where "signP1363 C rnd priv msg = Ok sig" "length sig = 64"
    "verifyP1363Signature C (sk_Public priv) msg sig"
proof
  have b: "r < 256 ^ 32" "s < 256 ^ 32" "ecdsa_Verify C (sk_Public priv) (sha256 C msg) r s"
    using assms by (auto simp: ecdsa_correct_def)
  show "signP1363 C rnd priv msg = Ok (word_bytes 32 r @ word_bytes 32 s)"
    using assms(2) b by (simp add: signP1363_def p1363_bytes_Ok)
  show "length (word_bytes 32 r @ word_bytes 32 s) = 64" using b by simp
  show "verifyP1363Signature C (sk_Public priv) msg (word_bytes 32 r @ word_bytes 32 s)"
    using b by (simp add: verifyP1363Signature_def)
qed


section \<open>Properties\<close>

text \<open>Whenever the signing primitive returns a signature, the receipt of \<open>signReceipt\<close> is
  produced (the fixed-width layout never panics, whatever the leading zeros), decodes to 64
  bytes, and the creator's public key verifies it over exactly the receipt text.\<close>

theorem receipt_verifies:
  assumes "ecdsa_correct C priv"
    and "ecdsa_Sign C rnd priv (sha256 C (issueReceiptSigningInput pk n resp)) = Some (r, s)"
  shows "\<exists>receipt sig. signReceipt C rnd priv pk n resp = Ok receipt \<and> DecodeString receipt = Some sig \<and>
    length sig = 64 \<and>
    verifyP1363Signature C (sk_Public priv) (issueReceiptSigningInput pk n resp) sig"
proof -
  obtain sig where "signP1363 C rnd priv (issueReceiptSigningInput pk n resp) = Ok sig"
    and "length sig = 64" "verifyP1363Signature C (sk_Public priv) (issueReceiptSigningInput pk n resp) sig"
    using signP1363_verifies [OF assms] by blast
  then show ?thesis by (simp add: signReceipt_signP1363 Decode_Encode)
qed

theorem receipt_verifies_witness:
  "\<exists>receipt sig. signReceipt sample_crypto [] sample_key ''pk'' ''n''
       \<lparr>ir_ConfigB64 = ''Yw'', ir_ExpiresAt = ''t'', ir_ReceiptSig = ''''\<rparr> = Ok receipt \<and>
     DecodeString receipt = Some sig \<and> length sig = 64 \<and>
     verifyP1363Signature sample_crypto (sk_Public sample_key)
       (issueReceiptSigningInput ''pk'' ''n'' \<lparr>ir_ConfigB64 = ''Yw'', ir_ExpiresAt = ''t'', ir_ReceiptSig = ''''\<rparr>) sig"
  by (rule receipt_verifies [where r = 1 and s = 2, OF sample_ecdsa_correct]) (simp add: sample_crypto_def)

text \<open>C26. The text a request is signed over binds the device key, the configuration and the
  nonce even though the attestation fields between them are free text that may contain the
  separator: two requests with one text agree on the three, on the version class, and on the
  attestation fields taken together (on the token, for version 1). The hypotheses are
  what the handler checks of a version 2 request (the key and the nonce are decoded, a known
  config id decodes); version 1 does not decode its nonce.\<close>

theorem signing_input_binds:
  assumes eq: "issueRequestSigningInput a = issueRequestSigningInput b"
    and a: "DecodeString (iq_DevicePk a) = Some a1" "DecodeString (iq_ConfigID a) = Some a2" "DecodeString (iq_RequestNonce a) = Some a3"
    and b: "DecodeString (iq_DevicePk b) = Some b1" "DecodeString (iq_ConfigID b) = Some b2" "DecodeString (iq_RequestNonce b) = Some b3"
  shows "(iq_V a \<ge> 2 \<longleftrightarrow> iq_V b \<ge> 2) \<and> iq_DevicePk a = iq_DevicePk b \<and> iq_ConfigID a = iq_ConfigID b \<and>
    iq_RequestNonce a = iq_RequestNonce b \<and>
    (if iq_V a \<ge> 2
     then Join ''|'' [ab_Platform (iq_Attestation a), ab_Token (iq_Attestation a), ab_Nonce (iq_Attestation a),
            ab_BoundDevicePk (iq_Attestation a), ab_Proof (iq_Attestation a)]
        = Join ''|'' [ab_Platform (iq_Attestation b), ab_Token (iq_Attestation b), ab_Nonce (iq_Attestation b),
            ab_BoundDevicePk (iq_Attestation b), ab_Proof (iq_Attestation b)]
     else ab_Token (iq_Attestation a) = ab_Token (iq_Attestation b))"
proof -
  note no_pipe = a [THEN DecodeString_no_pipe] b [THEN DecodeString_no_pipe]
  define mid :: "IssueRequest \<Rightarrow> string" where "mid q = (if iq_V q \<ge> 2
     then Join ''|'' [ab_Platform (iq_Attestation q), ab_Token (iq_Attestation q), ab_Nonce (iq_Attestation q),
            ab_BoundDevicePk (iq_Attestation q), ab_Proof (iq_Attestation q)]
     else ab_Token (iq_Attestation q))" for q
  define pre :: "IssueRequest \<Rightarrow> string" where "pre q = (if iq_V q \<ge> 2 then ''v2.issue'' else ''v1.issue'')" for q
  have form: "issueRequestSigningInput q
      = bytes_of (pre q @ ''|'' @ iq_DevicePk q @ ''|'' @ mid q @ ''|'' @ iq_ConfigID q @ ''|'' @ iq_RequestNonce q)" for q
    by (simp add: issueRequestSigningInput_def mid_def pre_def bytes_of_def)
  have pre: "pre a = pre b" and rest: "iq_DevicePk a @ ''|'' @ mid a @ ''|'' @ iq_ConfigID a @ ''|'' @ iq_RequestNonce a
      = iq_DevicePk b @ ''|'' @ mid b @ ''|'' @ iq_ConfigID b @ ''|'' @ iq_RequestNonce b"
    using eq by (auto simp: form pre_def simp del: bytes_of_append split: if_splits)
  have dev: "iq_DevicePk a = iq_DevicePk b"
    and rest': "mid a @ ''|'' @ iq_ConfigID a @ ''|'' @ iq_RequestNonce a = mid b @ ''|'' @ iq_ConfigID b @ ''|'' @ iq_RequestNonce b"
    using sep_split_left [of "CHR ''|''" "iq_DevicePk a" "iq_DevicePk b"] rest no_pipe by auto
  have nonce: "iq_RequestNonce a = iq_RequestNonce b"
    and rest'': "mid a @ ''|'' @ iq_ConfigID a = mid b @ ''|'' @ iq_ConfigID b"
    using sep_split_right [of "CHR ''|''" "iq_RequestNonce a" "iq_RequestNonce b"
        "mid a @ ''|'' @ iq_ConfigID a" "mid b @ ''|'' @ iq_ConfigID b"] rest' no_pipe by auto
  have "iq_ConfigID a = iq_ConfigID b" "mid a = mid b"
    using sep_split_right [of "CHR ''|''" "iq_ConfigID a" "iq_ConfigID b" "mid a" "mid b"] rest'' no_pipe by auto
  then show ?thesis using pre dev nonce by (auto simp: pre_def mid_def split: if_splits)
qed

text \<open>Two different requests with one signed text: the separator moves between attestation fields.\<close>

definition sample_request :: "string \<Rightarrow> string \<Rightarrow> IssueRequest" where
  "sample_request platform token =
     \<lparr>iq_V = 2, iq_DevicePk = EncodeToString [1],
      iq_Attestation = \<lparr>ab_Platform = platform, ab_Token = token, ab_Nonce = '''', ab_BoundDevicePk = '''', ab_Proof = ''''\<rparr>,
      iq_ConfigID = EncodeToString [2], iq_RequestNonce = EncodeToString [3], iq_RequestSignature = ''''\<rparr>"

theorem signing_input_binds_witness:
  "iq_DevicePk (sample_request ''A|B'' ''C'') = iq_DevicePk (sample_request ''A'' ''B|C'') \<and>
   Join ''|'' [''A|B'', ''C'', '''', '''', ''''] = Join ''|'' [''A'', ''B|C'', '''', '''', '''']"
  using signing_input_binds [of "sample_request ''A|B'' ''C''" "sample_request ''A'' ''B|C''" "[1]" "[2]" "[3]" "[1]" "[2]" "[3]"]
  by (simp add: sample_request_def Decode_Encode issueRequestSigningInput_def)

text \<open>The creator key the server advertises is its key: for a point of the curve, the
  three compressions (of the key, of its uncompressed encoding, and in base64url for the API)
  agree, and \<open>decodeP256Compressed\<close> of the advertised text gives the key back.\<close>

theorem creator_key_roundtrip:
  assumes "point_decompresses C (sk_Public priv)"
  shows "\<exists>raw u. compressP256 (sk_Public priv) = Ok raw \<and> length raw = 33 \<and>
    marshalUncompressed (sk_Public priv) 32 = Ok u \<and> compressUncompressedP256 u = Ok raw \<and>
    CreatorPubKeyCompressedB64 priv = Ok (EncodeToString raw) \<and>
    decodeP256Compressed C (EncodeToString raw) = Ok (sk_Public priv)"
proof -
  let ?pub = "sk_Public priv"
  have b: "pk_Curve ?pub = P256" "pk_X ?pub < 256 ^ 32" "pk_Y ?pub < 256 ^ 32"
    and d: "\<And>raw. compressP256 ?pub = Ok raw \<Longrightarrow> UnmarshalCompressed C raw = Some (pk_X ?pub, pk_Y ?pub)"
    using assms by (auto simp: point_decompresses_def)
  obtain raw where raw: "compressP256 ?pub = Ok raw" "length raw = 33"
    using compressP256_Ok [OF b(1,2)] b(2) by simp
  moreover obtain u where u: "marshalUncompressed ?pub 32 = Ok u"
    using marshalUncompressed_Ok [OF b(2,3)] by simp
  moreover have "compressUncompressedP256 u = Ok raw"
    using compress_marshalled [OF b u] raw by simp
  moreover have "CreatorPubKeyCompressedB64 priv = Ok (EncodeToString raw)"
    using raw(1) b(1) by (simp add: CreatorPubKeyCompressedB64_def compressP256_def Let_def)
  moreover have "decodeP256Compressed C (EncodeToString raw) = Ok ?pub"
    using raw d [OF raw(1)] b(1) by (simp add: decodeP256Compressed_def Decode_Encode)
  ultimately show ?thesis by blast
qed

theorem creator_key_roundtrip_witness:
  "\<exists>raw u. compressP256 (sk_Public sample_key) = Ok raw \<and> length raw = 33 \<and>
    marshalUncompressed (sk_Public sample_key) 32 = Ok u \<and> compressUncompressedP256 u = Ok raw \<and>
    CreatorPubKeyCompressedB64 sample_key = Ok (EncodeToString raw) \<and>
    decodeP256Compressed sample_crypto (EncodeToString raw) = Ok (sk_Public sample_key)"
  by (rule creator_key_roundtrip [OF sample_point_decompresses])

text \<open>A receipt answers one request: whatever the expiry and payload, two receipts with
  one signed text are for the same device key, nonce, expiry and payload (the key decodes as
  base64url, the payload and the expiry are texts the server writes itself, without the
  separator; the nonce is unrestricted), and no receipt text is an issue request or an
  attestation binding.\<close>

theorem receipt_text_injective:
  assumes eq: "issueReceiptSigningInput pk n resp = issueReceiptSigningInput pk' n' resp'"
    and pk: "DecodeString pk = Some a" "DecodeString pk' = Some a'"
    and exp: "CHR ''|'' \<notin> set (ir_ExpiresAt resp)" "CHR ''|'' \<notin> set (ir_ExpiresAt resp')"
    and cfg: "ir_ConfigB64 resp = EncodeToString c" "ir_ConfigB64 resp' = EncodeToString c'"
  shows "pk = pk' \<and> n = n' \<and> ir_ExpiresAt resp = ir_ExpiresAt resp' \<and> c = c' \<and>
    issueReceiptSigningInput pk n resp \<noteq> issueRequestSigningInput q \<and>
    issueReceiptSigningInput pk n resp \<noteq> attestationBindingInput blob"
proof -
  have np: "CHR ''|'' \<notin> set (EncodeToString c)" "CHR ''|'' \<notin> set (EncodeToString c')"
    by (rule DecodeString_no_pipe [OF Decode_Encode])+
  have rest: "pk @ ''|'' @ n @ ''|'' @ ir_ExpiresAt resp @ ''|'' @ EncodeToString c
      = pk' @ ''|'' @ n' @ ''|'' @ ir_ExpiresAt resp' @ ''|'' @ EncodeToString c'"
    using eq by (simp add: issueReceiptSigningInput_def cfg del: bytes_of_append)
  have k: "pk = pk'" and r1: "n @ ''|'' @ ir_ExpiresAt resp @ ''|'' @ EncodeToString c
      = n' @ ''|'' @ ir_ExpiresAt resp' @ ''|'' @ EncodeToString c'"
    using sep_split_left [of "CHR ''|''" pk pk'] rest pk [THEN DecodeString_no_pipe] by auto
  have cc: "EncodeToString c = EncodeToString c'" and r2: "n @ ''|'' @ ir_ExpiresAt resp = n' @ ''|'' @ ir_ExpiresAt resp'"
    using sep_split_right [OF np, of "n @ ''|'' @ ir_ExpiresAt resp" "n' @ ''|'' @ ir_ExpiresAt resp'"] r1 by auto
  have "ir_ExpiresAt resp = ir_ExpiresAt resp' \<and> n = n'"
    using sep_split_right [OF exp, of n n'] r2 by auto
  moreover have "c = c'" using cc b64url.enc_inj by blast
  ultimately show ?thesis using k
    by (simp add: issueReceiptSigningInput_def issueRequestSigningInput_def attestationBindingInput_def
        bytes_of_def)
qed

theorem receipt_text_injective_witness:
  "issueReceiptSigningInput (EncodeToString [1]) ''a|b'' \<lparr>ir_ConfigB64 = EncodeToString [9], ir_ExpiresAt = ''t'', ir_ReceiptSig = ''''\<rparr>
     \<noteq> issueRequestSigningInput (sample_request ''A'' ''B'')"
  using receipt_text_injective [of "EncodeToString [1]" "''a|b''"
      "\<lparr>ir_ConfigB64 = EncodeToString [9], ir_ExpiresAt = ''t'', ir_ReceiptSig = ''''\<rparr>" "EncodeToString [1]" "''a|b''"
      "\<lparr>ir_ConfigB64 = EncodeToString [9], ir_ExpiresAt = ''t'', ir_ReceiptSig = ''''\<rparr>" "[1]" "[1]" "[9]" "[9]"
      "sample_request ''A'' ''B''"]
  by (simp add: Decode_Encode)

end
