(* ===== verification/Go_Text.thy ===== *)
theory Go_Text
  imports Crypto
begin

text \<open>
  Numbers and bytes as text, as \<^verbatim>\<open>strconv\<close>, \<^verbatim>\<open>fmt\<close> (verbs \<^verbatim>\<open>%d\<close> and \<^verbatim>\<open>%x\<close>) and \<^verbatim>\<open>encoding/hex\<close>
  write them.
\<close>

fun nat_text :: "nat \<Rightarrow> string" where
  "nat_text n = (if n < 10 then [char_of (48 + n)] else nat_text (n div 10) @ [char_of (48 + n mod 10)])"

declare nat_text.simps [simp del]

definition Itoa :: "int \<Rightarrow> string" where
  "Itoa i = (if i < 0 then ''-'' @ nat_text (nat (- i)) else nat_text (nat i))"

definition hex_digit :: "nat \<Rightarrow> char" where
  "hex_digit n = char_of (if n < 10 then 48 + n else 87 + n)"

definition hex_EncodeToString :: "bytes \<Rightarrow> string" where
  "hex_EncodeToString bs = concat (map (\<lambda>b. [hex_digit (unat b div 16), hex_digit (unat b mod 16)]) bs)"


section \<open>Digits determine the number\<close>

definition digit_value :: "char \<Rightarrow> nat" where
  "digit_value c = of_char c - 48"

definition digits_value :: "string \<Rightarrow> nat" where
  "digits_value s = foldl (\<lambda>a c. a * 10 + digit_value c) 0 s"

lemma digit_value_char: "n < 10 \<Longrightarrow> digit_value (char_of (48 + n)) = n"
  by (simp add: digit_value_def of_char_of_nat)

lemma digits_value_snoc: "digits_value (s @ [c]) = digits_value s * 10 + digit_value c"
  by (simp add: digits_value_def)

lemma digits_value_nat_text [simp]: "digits_value (nat_text n) = n"
proof (induction n rule: nat_text.induct)
  case (1 n)
  show ?case
  proof (cases "n < 10")
    case True
    then show ?thesis by (subst nat_text.simps) (simp add: digits_value_def digit_value_char)
  next
    case False
    then have "digits_value (nat_text n) = n div 10 * 10 + n mod 10"
      using 1 by (subst nat_text.simps) (simp add: digits_value_snoc digit_value_char)
    then show ?thesis by simp
  qed
qed

lemma nat_text_inj: "nat_text m = nat_text n \<Longrightarrow> m = n"
  by (metis digits_value_nat_text)

lemma nat_text_digits: "\<forall>c \<in> set (nat_text n). \<exists>k<10. c = char_of (48 + k :: nat)"
proof (induction n rule: nat_text.induct)
  case (1 n)
  show ?case
  proof (cases "n < 10")
    case True
    then show ?thesis by (subst nat_text.simps) auto
  next
    case False
    then have "nat_text n = nat_text (n div 10) @ [char_of (48 + n mod 10 :: nat)]" using nat_text.simps [of n] by simp
    moreover have "\<exists>k<10. char_of (48 + n mod 10) = (char_of (48 + k :: nat) :: char)" by (rule exI [of _ "n mod 10"]) simp
    ultimately show ?thesis using 1 False by (simp del: char_of_eq_iff)
  qed
qed

lemma nat_text_not_Nil [simp]: "nat_text n \<noteq> ''''"
  by (subst nat_text.simps) simp

lemma nat_text_plain: "list_all plain_char (nat_text n)"
proof -
  have "list_all (\<lambda>k. plain_char (char_of (48 + k :: nat))) [0..<10]" by code_simp
  then show ?thesis using nat_text_digits [of n] by (fastforce simp: list_all_iff)
qed

section \<open>Reading a decimal number\<close>

definition is_digit :: "char \<Rightarrow> bool" where
  "is_digit c \<longleftrightarrow> 48 \<le> (of_char c :: nat) \<and> (of_char c :: nat) \<le> 57"

text \<open>\<open>strconv.Atoi\<close>: an optional sign and digits, in the range of 64 bits.\<close>

definition Atoi :: "string \<Rightarrow> int option" where
  "Atoi s =
     (let neg = HasPrefix s ''-''; digits = (if neg \<or> HasPrefix s ''+'' then drop 1 s else s);
          v = (if neg then - int (digits_value digits) else int (digits_value digits)) in
      if digits = [] \<or> \<not> list_all is_digit digits \<or> v < - (2 ^ 63) \<or> 2 ^ 63 \<le> v then None else Some v)"

lemma nat_text_is_digit: "list_all is_digit (nat_text n)"
proof -
  have "list_all (\<lambda>k. is_digit (char_of (48 + k :: nat))) [0..<10]" by code_simp
  then show ?thesis using nat_text_digits [of n] by (fastforce simp: list_all_iff)
qed

lemma Atoi_nat_text: "n < 2 ^ 63 \<Longrightarrow> Atoi (nat_text n) = Some (int n)"
proof -
  assume n: "n < 2 ^ 63"
  obtain c cs where c: "nat_text n = c # cs" using nat_text_not_Nil [of n] by (cases "nat_text n") auto
  then have "is_digit c" using nat_text_is_digit [of n] by simp
  then have "c \<noteq> CHR ''-''" "c \<noteq> CHR ''+''" by (auto simp: is_digit_def)
  then have "\<not> HasPrefix (nat_text n) ''-''" "\<not> HasPrefix (nat_text n) ''+''" by (simp_all add: c HasPrefix_def)
  moreover have "int n < 2 ^ 63" using n by simp
  ultimately show ?thesis using nat_text_is_digit [of n] by (simp add: Atoi_def Let_def)
qed

end
