(* ===== verification/State_Types.thy ===== *)
theory State_Types
  imports Wire_Types RateLimit AtomicFile Go_Text
begin

text \<open>
  The \<open>State\<close> of \<^verbatim>\<open>state.go\<close>, the results of the file operations around it, the JSON
  texts it is stored in, and small formatting helpers. The verifiers are found through a
  lookup function that the handlers take as an argument, so the record has no registry of them.
\<close>

section \<open>Formatting\<close>

text \<open>The ellipsis is one character of three bytes.\<close>

definition ellipsis :: string where
  "ellipsis = [char_of (226 :: nat), char_of (128 :: nat), char_of (166 :: nat)]"

definition shortBase64 :: "string \<Rightarrow> string" where
  "shortBase64 s = (if length s \<le> 12 then s else take 8 s @ ellipsis @ drop (length s - 4) s)"

lemma length_shortBase64: "length (shortBase64 s) \<le> 15"
  by (simp add: shortBase64_def ellipsis_def)


section \<open>File operations\<close>

datatype read_result = Read_NotExist | Read_Error | Read_Data bytes

datatype stat_result = Stat_NotExist | Stat_Error | Stat_Time time

text \<open>
  The outcomes of one operation on a state file: of its read, of its \<open>os.Stat\<close>, of the calls
  of an atomic write, and what other processes do to the file system between two calls.
\<close>

record disk =
  dk_read :: bool
  dk_stat :: bool
  dk_io :: io
  dk_between :: "fsys \<Rightarrow> fsys"

definition os_ReadFile :: "disk \<Rightarrow> fsys \<Rightarrow> string \<Rightarrow> read_result" where
  "os_ReadFile dk fs p =
     (if \<not> dk_read dk then Read_Error
      else case files fs p of None \<Rightarrow> Read_NotExist | Some n \<Rightarrow> Read_Data (content n))"

definition os_Stat :: "disk \<Rightarrow> fsys \<Rightarrow> string \<Rightarrow> stat_result" where
  "os_Stat dk fs p =
     (if \<not> dk_stat dk then Stat_Error
      else case files fs p of None \<Rightarrow> Stat_NotExist | Some n \<Rightarrow> Stat_Time (mtime n))"


section \<open>JSON texts\<close>

text \<open>
  \<^verbatim>\<open>encoding/json\<close> on the records the server stores and receives: marshalling may fail in its
  type, unmarshalling does on a malformed text. \<open>js_into_map\<close> tells whether a text
  unmarshals into a Go map (an object does, and so does \<open>null\<close>), and \<open>js_name\<close> is the
  \<open>name\<close> field of an opaque configuration, empty where the text has none.
\<close>

record json =
  js_marshal_tokens :: "RedemptionToken list \<Rightarrow> bytes option"
  js_unmarshal_tokens :: "bytes \<Rightarrow> RedemptionToken list option"
  js_unmarshal_configs :: "bytes \<Rightarrow> ConfigEntry list option"
  js_into_map :: "bytes \<Rightarrow> bool"
  js_name :: "bytes \<Rightarrow> string"
  js_unmarshal_issue :: "bytes \<Rightarrow> IssueRequest option"
  js_unmarshal_redeem :: "bytes \<Rightarrow> RedeemRequest option"


section \<open>The server's state\<close>

text \<open>A trusted network is the set of addresses (\<open>net.IP\<close>, bytes) it contains, as a test.\<close>

record State =
  st_CreatorSigningKey :: PrivateKey
  st_AuditSalt :: bytes
  st_stateDir :: string
  st_configs :: "(string \<rightharpoonup> ConfigEntry) option"
  st_configsPath :: string
  st_configsMtime :: time
  st_keyCreated :: bool
  st_issuanceLimiter :: rateLimiter
  st_PublicIssuerURL :: string
  st_redemptionTokens :: "string \<rightharpoonup> RedemptionToken"
  st_redemptionTokensPath :: string
  st_redemptionTokensMtime :: time
  st_redemptionLimiter :: rateLimiter
  st_TrustedProxies :: "(bytes \<Rightarrow> bool) list"

definition SweepRateLimiters :: "State \<Rightarrow> time \<Rightarrow> duration \<Rightarrow> State" where
  "SweepRateLimiters s now window =
     s\<lparr>st_issuanceLimiter := RateLimit_Sweep (st_issuanceLimiter s) now window,
       st_redemptionLimiter := RateLimit_Sweep (st_redemptionLimiter s) now window\<rparr>"

definition KeyWasCreated :: "State \<Rightarrow> bool" where
  "KeyWasCreated s = st_keyCreated s"

end
