(* ===== verification/Ledger.thy ===== *)
theory Ledger
  imports Main
begin

text \<open>
  The contract of a store of counted permits, and what it gives: whatever operations are
  interleaved, the permits granted under a key are never more than the key started with; or, when
  others write the store as well, not more than that for each time they have written.
\<close>

datatype ('a, 'b, 'k) ledger_event = Charge 'a 'k | Background 'b

text \<open>A run of events: the keys that were granted a permit, in order, and the final state.\<close>

fun ledger_run ::
    "('a \<Rightarrow> 's \<Rightarrow> 'k \<Rightarrow> bool \<times> 's) \<Rightarrow> ('b \<Rightarrow> 's \<Rightarrow> 's) \<Rightarrow> 's \<Rightarrow> ('a, 'b, 'k) ledger_event list \<Rightarrow> 'k list \<times> 's" where
  "ledger_run chg bg s [] = ([], s)"
| "ledger_run chg bg s (Background b # es) = ledger_run chg bg (bg b s) es"
| "ledger_run chg bg s (Charge a k # es) =
     (let r = chg a s k; rest = ledger_run chg bg (snd r) es
      in ((if fst r then [k] else []) @ fst rest, snd rest))"

text \<open>How many background steps of a run belong to others.\<close>

definition foreign_steps :: "('b \<Rightarrow> bool) \<Rightarrow> ('a, 'b, 'k) ledger_event list \<Rightarrow> nat" where
  "foreign_steps own es = length (filter (\<lambda>e. case e of Charge a k \<Rightarrow> False | Background b \<Rightarrow> \<not> own b) es)"

lemma foreign_steps_simps [simp]:
  "foreign_steps own [] = 0"
  "foreign_steps own (Charge a k # es) = foreign_steps own es"
  "foreign_steps own (Background b # es) = (if own b then foreign_steps own es else Suc (foreign_steps own es))"
  by (simp_all add: foreign_steps_def)


section \<open>Permits\<close>

locale permit_store =
  fixes remaining :: "'s \<Rightarrow> 'k \<Rightarrow> int"
    and chg :: "'a \<Rightarrow> 's \<Rightarrow> 'k \<Rightarrow> bool \<times> 's"
  assumes charge_ok: "fst (chg a s k) \<Longrightarrow> 0 < remaining s k \<and> remaining (snd (chg a s k)) k = remaining s k - 1"
    and charge_other: "fst (chg a s k) \<Longrightarrow> k' \<noteq> k \<Longrightarrow> remaining (snd (chg a s k)) k' = remaining s k'"
    and charge_no: "\<not> fst (chg a s k) \<Longrightarrow> remaining (snd (chg a s k)) k' = remaining s k'"
begin

lemma charge_account:
  "max 0 (remaining (snd (chg a s k)) k') + (if fst (chg a s k) \<and> k = k' then 1 else 0) = max 0 (remaining s k')"
  using charge_ok [of a s k] charge_other [of a s k k'] charge_no [of a s k k']
  by (cases "fst (chg a s k)"; cases "k = k'") auto

text \<open>Without background steps the account is exact.\<close>

lemma run_exact:
  "(\<forall>b. Background b \<notin> set es) \<Longrightarrow>
   int (count_list (fst (ledger_run chg bg s es)) k) + max 0 (remaining (snd (ledger_run chg bg s es)) k)
     = max 0 (remaining s k)"
proof (induction es arbitrary: s)
  case Nil
  then show ?case by simp
next
  case (Cons e es)
  then obtain a k' where e: "e = Charge a k'" by (cases e) auto
  then show ?case
    using Cons.IH [of "snd (chg a s k')"] Cons.prems charge_account [of a s k' k]
    by (auto simp: Let_def split: if_splits)
qed

end


section \<open>A store with other writers\<close>

text \<open>
  Steps that are not the store's own may leave it \<open>stale\<close>: then, once, an own step may pick up a
  count, which is at most the \<open>cap\<close> of its key. \<open>fits\<close> says which steps respect the caps.
\<close>

locale shared_ledger = permit_store remaining chg
  for remaining :: "'s \<Rightarrow> 'k \<Rightarrow> int" and chg :: "'a \<Rightarrow> 's \<Rightarrow> 'k \<Rightarrow> bool \<times> 's" +
  fixes inv :: "'s \<Rightarrow> bool"
    and stale :: "'s \<Rightarrow> bool"
    and bg :: "'b \<Rightarrow> 's \<Rightarrow> 's"
    and own :: "'b \<Rightarrow> bool"
    and fits :: "'b \<Rightarrow> bool"
    and cap :: "'k \<Rightarrow> int"
  assumes charge_inv: "inv s \<Longrightarrow> inv (snd (chg a s k))"
    and background_inv: "inv s \<Longrightarrow> fits b \<Longrightarrow> inv (bg b s)"
    and charge_stale: "inv s \<Longrightarrow> \<not> stale s \<Longrightarrow> \<not> stale (snd (chg a s k))"
    and own_stale: "inv s \<Longrightarrow> own b \<Longrightarrow> \<not> stale s \<Longrightarrow> \<not> stale (bg b s)"
    and own_count: "inv s \<Longrightarrow> own b \<Longrightarrow>
      remaining (bg b s) k \<le> max 0 (remaining s k) \<or> stale s \<and> \<not> stale (bg b s) \<and> remaining (bg b s) k \<le> cap k"
    and foreign_count: "inv s \<Longrightarrow> \<not> own b \<Longrightarrow> remaining (bg b s) k \<le> max 0 (remaining s k)"
begin

text \<open>What may still be granted without another foreign step.\<close>

definition budget :: "'s \<Rightarrow> 'k \<Rightarrow> int" where
  "budget s k = max 0 (remaining s k) + (if stale s then max 0 (cap k) else 0)"

lemma charge_budget:
  "inv s \<Longrightarrow> budget (snd (chg a s k)) k' + (if fst (chg a s k) \<and> k = k' then 1 else 0) \<le> budget s k'"
  using charge_account [of a s k k'] charge_stale [of s a k] by (auto simp: budget_def split: if_splits)

lemma own_budget: "inv s \<Longrightarrow> own b \<Longrightarrow> budget (bg b s) k \<le> budget s k"
  using own_count [of s b k] own_stale [of s b] by (auto simp: budget_def)

lemma foreign_budget: "inv s \<Longrightarrow> \<not> own b \<Longrightarrow> budget (bg b s) k \<le> budget s k + max 0 (cap k)"
  using foreign_count [of s b k] by (auto simp: budget_def)

lemma shared_bound:
  "inv s \<Longrightarrow> (\<forall>b. Background b \<in> set es \<longrightarrow> fits b) \<Longrightarrow>
   int (count_list (fst (ledger_run chg bg s es)) k) + budget (snd (ledger_run chg bg s es)) k
     \<le> budget s k + int (foreign_steps own es) * max 0 (cap k)"
proof (induction es arbitrary: s)
  case Nil
  then show ?case by simp
next
  case (Cons e es)
  show ?case
  proof (cases e)
    case (Background b)
    then have "inv (bg b s)" using Cons.prems background_inv by simp
    then show ?thesis
      using Cons.IH [of "bg b s"] Cons.prems Background own_budget [of s b k] foreign_budget [of s b k]
      by (cases "own b") (auto simp: algebra_simps)
  next
    case (Charge a k')
    then show ?thesis
      using Cons.IH [OF charge_inv [OF Cons.prems(1), of a k']] Cons.prems(2) charge_budget [OF Cons.prems(1), of a k' k]
      by (auto simp: Let_def split: if_splits)
  qed
qed

lemma shared_inv: "inv s \<Longrightarrow> (\<forall>b. Background b \<in> set es \<longrightarrow> fits b) \<Longrightarrow> inv (snd (ledger_run chg bg s es))"
proof (induction es arbitrary: s)
  case Nil
  then show ?case by simp
next
  case (Cons e es)
  then show ?case by (cases e) (simp_all add: Let_def charge_inv background_inv)
qed

end


section \<open>A store of one process\<close>

locale token_ledger = permit_store remaining chg
  for remaining :: "'s \<Rightarrow> 'k \<Rightarrow> int" and chg :: "'a \<Rightarrow> 's \<Rightarrow> 'k \<Rightarrow> bool \<times> 's" +
  fixes inv :: "'s \<Rightarrow> bool"
    and bg :: "'b \<Rightarrow> 's \<Rightarrow> 's"
  assumes charge_inv: "inv s \<Longrightarrow> inv (snd (chg a s k))"
    and background_inv: "inv s \<Longrightarrow> inv (bg b s)"
    and background_le: "inv s \<Longrightarrow> remaining (bg b s) k \<le> max 0 (remaining s k)"

text \<open>It is a shared store without other writers, which is never stale.\<close>

sublocale token_ledger \<subseteq> alone: shared_ledger remaining chg inv "\<lambda>s. False" bg "\<lambda>b. True" "\<lambda>b. True" "\<lambda>k. 0"
  by unfold_locales (simp_all add: charge_inv background_inv background_le)

context token_ledger
begin

text \<open>Grants and what is left never exceed what there was.\<close>

lemma run_bound:
  "inv s \<Longrightarrow> int (count_list (fst (ledger_run chg bg s es)) k) + max 0 (remaining (snd (ledger_run chg bg s es)) k)
     \<le> max 0 (remaining s k)"
  using alone.shared_bound [of s es k] by (simp add: alone.budget_def)

end

end
