(* ===== verification/Registry_Loader.thy ===== *)
theory Registry_Loader
  imports Prelude
begin

text \<open>
  The loop by which both registry files are read into a map: each entry in turn is checked
  against the entries before it and filed under its key; the first bad entry aborts the load.
  The contract says what the check must decide, and gives exactly which lists load, and as what.
\<close>

fun load_loop ::
    "('v \<Rightarrow> 'k) \<Rightarrow> (nat \<Rightarrow> ('k \<rightharpoonup> 'v) \<Rightarrow> 'v \<Rightarrow> 'e option) \<Rightarrow> nat \<Rightarrow> ('k \<rightharpoonup> 'v) \<Rightarrow> 'v list \<Rightarrow> 'e + ('k \<rightharpoonup> 'v)" where
  "load_loop key check i out [] = Ok out"
| "load_loop key check i out (entry # rest) =
     (case check i out entry of
        Some e \<Rightarrow> Err e
      | None \<Rightarrow> load_loop key check (Suc i) (out(key entry \<mapsto> entry)) rest)"

definition keyed :: "('v \<Rightarrow> 'k) \<Rightarrow> 'v list \<Rightarrow> ('k \<rightharpoonup> 'v)" where
  "keyed key vs = map_of (map (\<lambda>v. (key v, v)) vs)"

lemma keyed_SomeD: "keyed key vs k = Some v \<Longrightarrow> v \<in> set vs \<and> key v = k"
  unfolding keyed_def by (drule map_of_SomeD) auto

lemma keyed_None: "k \<notin> key ` set vs \<Longrightarrow> keyed key vs k = None"
  using keyed_SomeD [of key vs k] by (cases "keyed key vs k") auto

lemma keyed_Cons: "keyed key (v # vs) = (keyed key vs)(key v \<mapsto> v)"
  by (auto simp: keyed_def)

locale registry_loader =
  fixes key :: "'v \<Rightarrow> 'k"
    and check :: "nat \<Rightarrow> ('k \<rightharpoonup> 'v) \<Rightarrow> 'v \<Rightarrow> 'e option"
    and valid :: "'v \<Rightarrow> bool"
  assumes check_iff: "check i out v = None \<longleftrightarrow> valid v \<and> out (key v) = None"
begin

lemma load_loop_iff:
  "load_loop key check i out vs = Ok m \<longleftrightarrow>
     (\<forall>v \<in> set vs. valid v \<and> out (key v) = None) \<and> distinct (map key vs) \<and> m = out ++ keyed key vs"
proof (induction vs arbitrary: i out)
  case Nil
  then show ?case by (auto simp: keyed_def)
next
  case (Cons v vs)
  show ?case
  proof (cases "valid v \<and> out (key v) = None")
    case False
    then show ?thesis using check_iff [of i out v] by (auto split: option.splits)
  next
    case True
    have step: "load_loop key check i out (v # vs) = load_loop key check (Suc i) (out(key v \<mapsto> v)) vs"
      using iffD2 [OF check_iff [of i out v] True] by simp
    have map: "out(key v \<mapsto> v) ++ keyed key vs = out ++ keyed key (v # vs)" if "key v \<notin> key ` set vs"
      using keyed_None [OF that] by (auto simp: keyed_Cons map_add_def fun_eq_iff split: option.splits)
    have fresh: "(\<forall>u \<in> set vs. valid u \<and> (out(key v \<mapsto> v)) (key u) = None) \<longleftrightarrow>
        (\<forall>u \<in> set vs. valid u \<and> out (key u) = None) \<and> key v \<notin> key ` set vs"
      by (auto simp: image_iff)
    show ?thesis
      unfolding step Cons.IH fresh using True map by (simp del: fun_upd_apply) metis
  qed
qed

lemma load_iff:
  "load_loop key check 0 Map.empty vs = Ok m \<longleftrightarrow>
     (\<forall>v \<in> set vs. valid v) \<and> distinct (map key vs) \<and> m = keyed key vs"
  by (simp add: load_loop_iff)

lemma loaded_entry:
  "load_loop key check 0 Map.empty vs = Ok m \<Longrightarrow> m k = Some v \<Longrightarrow> v \<in> set vs \<and> key v = k \<and> valid v"
  unfolding load_iff using keyed_SomeD by metis

lemma loaded_finite: "load_loop key check 0 Map.empty vs = Ok m \<Longrightarrow> finite (dom m)"
  unfolding load_iff keyed_def by (auto intro: finite_dom_map_of)

end

end
