(* ===== verification/Tokens.thy ===== *)
theory Tokens
  imports State_Types Ledger Registry_Loader
begin

text \<open>
  The redemption tokens of \<^verbatim>\<open>state.go\<close>: validation, the sorted JSON file, and the
  operations under the write lock (each one step of the state and the file system), with the
  status the dashboard of \<^verbatim>\<open>management.go\<close> shows.
\<close>

section \<open>Validation and loading\<close>

definition configIDs :: "RedemptionToken \<Rightarrow> string list" where
  "configIDs t = rt_ConfigIDs t"

fun check_ids :: "string list \<Rightarrow> string list \<Rightarrow> string option" where
  "check_ids seen [] = None"
| "check_ids seen (cid # ids) =
     (if cid = '''' then Some ''empty configId''
      else if cid \<in> set seen then Some (''duplicate configId '' @ shortBase64 cid)
      else check_ids (cid # seen) ids)"

text \<open>\<open>None\<close> is the absence of an error.\<close>

definition validateRedemptionToken :: "RedemptionToken \<Rightarrow> string option" where
  "validateRedemptionToken entry =
     (if rt_Token entry = '''' then Some ''missing token''
      else if configIDs entry = [] then Some ''missing configIds''
      else check_ids [] (configIDs entry))"

definition check_token_entry ::
    "nat \<Rightarrow> (string \<rightharpoonup> RedemptionToken) \<Rightarrow> RedemptionToken \<Rightarrow> string option" where
  "check_token_entry i out entry =
     (case validateRedemptionToken entry of
        Some e \<Rightarrow> Some (''entry '' @ Itoa (int i) @ '' (token='' @ shortBase64 (rt_Token entry) @ ''): '' @ e)
      | None \<Rightarrow>
          if out (rt_Token entry) \<noteq> None
          then Some (''entry '' @ Itoa (int i) @ '': duplicate token '' @ shortBase64 (rt_Token entry))
          else None)"

definition load_tokens :: "RedemptionToken list \<Rightarrow> string + (string \<rightharpoonup> RedemptionToken)" where
  "load_tokens list = load_loop rt_Token check_token_entry 0 Map.empty list"

definition loadRedemptionTokensFile ::
    "json \<Rightarrow> disk \<Rightarrow> fsys \<Rightarrow> string \<Rightarrow> string + (string \<rightharpoonup> RedemptionToken)" where
  "loadRedemptionTokensFile J dk fs path =
     (case os_ReadFile dk fs path of
        Read_NotExist \<Rightarrow> Ok Map.empty
      | Read_Error \<Rightarrow> Err ''read''
      | Read_Data data \<Rightarrow>
          (case js_unmarshal_tokens J data of
             None \<Rightarrow> Err ''parse json''
           | Some list \<Rightarrow> load_tokens list))"


section \<open>The order of the file\<close>

datatype token_key = Token_Key (key_created: string) (key_token: string)

instantiation token_key :: linorder
begin

definition less_token_key :: "token_key \<Rightarrow> token_key \<Rightarrow> bool" where
  "less_token_key a b =
     (key_created a < key_created b \<or> key_created a = key_created b \<and> key_token a < key_token b)"

definition less_eq_token_key :: "token_key \<Rightarrow> token_key \<Rightarrow> bool" where
  "less_eq_token_key a b = (a < b \<or> a = b)"

instance
proof
  fix x y z :: token_key
  show "x \<le> y \<or> y \<le> x"
    by (cases x; cases y) (auto simp: less_token_key_def less_eq_token_key_def)
qed (auto simp: less_token_key_def less_eq_token_key_def)

end

definition token_key :: "RedemptionToken \<Rightarrow> token_key" where
  "token_key t = Token_Key (rt_CreatedAt t) (rt_Token t)"

definition redemptionTokenLess :: "RedemptionToken \<Rightarrow> RedemptionToken \<Rightarrow> bool" where
  "redemptionTokenLess a b =
     (if rt_CreatedAt a \<noteq> rt_CreatedAt b then rt_CreatedAt a < rt_CreatedAt b
      else rt_Token a < rt_Token b)"

lemma redemptionTokenLess_key: "redemptionTokenLess a b \<longleftrightarrow> token_key a < token_key b"
  by (auto simp: redemptionTokenLess_def token_key_def less_token_key_def)

text \<open>The inner loop swaps the element at \<open>j\<close> down while it is less than its predecessor.\<close>

fun sift_down :: "RedemptionToken list \<Rightarrow> nat \<Rightarrow> RedemptionToken list" where
  "sift_down l 0 = l"
| "sift_down l (Suc j) =
     (if redemptionTokenLess (l ! Suc j) (l ! j)
      then sift_down (l[Suc j := l ! j, j := l ! Suc j]) j else l)"

definition sortRedemptionTokens :: "RedemptionToken list \<Rightarrow> RedemptionToken list" where
  "sortRedemptionTokens list = fold (\<lambda>i l. sift_down l i) [1..<length list] list"


section \<open>Persisting\<close>

text \<open>The order in which the map is ranged over is an argument, as a list of its keys.\<close>

definition persistRedemptionTokens ::
    "json \<Rightarrow> io \<Rightarrow> fsys \<Rightarrow> string list \<Rightarrow> string \<Rightarrow> (string \<rightharpoonup> RedemptionToken) \<Rightarrow> string option \<times> fsys" where
  "persistRedemptionTokens J io fs ord path tokens =
     (let list = sortRedemptionTokens (range_values ord tokens) in
      case js_marshal_tokens J list of
        None \<Rightarrow> (Some ''marshal'', fs)
      | Some data \<Rightarrow>
          (case atomicWriteFile io fs path data 384 of
             (Some e, fs') \<Rightarrow> (Some (''persist tokens: '' @ e), fs')
           | (None, fs') \<Rightarrow> (None, fs')))"


section \<open>The operations on the state\<close>

text \<open>
  What the operations share: persist the tokens when there is a path, and after a successful
  write remember the modification time that \<open>os.Stat\<close> then reports.
\<close>

definition persist_and_stat ::
    "json \<Rightarrow> disk \<Rightarrow> string list \<Rightarrow> State \<Rightarrow> fsys \<Rightarrow> string option \<times> State \<times> fsys" where
  "persist_and_stat J dk ord s fs =
     (if st_redemptionTokensPath s = '''' then (None, s, fs)
      else case persistRedemptionTokens J (dk_io dk) fs ord (st_redemptionTokensPath s) (st_redemptionTokens s) of
        (Some e, fs') \<Rightarrow> (Some e, s, fs')
      | (None, fs') \<Rightarrow>
          let fs'' = dk_between dk fs' in
          case os_Stat dk fs'' (st_redemptionTokensPath s) of
            Stat_Time t \<Rightarrow> (None, s\<lparr>st_redemptionTokensMtime := t\<rparr>, fs'')
          | _ \<Rightarrow> (None, s, fs''))"

definition ReloadRedemptionTokensIfChanged ::
    "json \<Rightarrow> disk \<Rightarrow> State \<Rightarrow> fsys \<Rightarrow> string option \<times> State \<times> fsys" where
  "ReloadRedemptionTokensIfChanged J dk s fs =
     (let path = st_redemptionTokensPath s; lastMtime = st_redemptionTokensMtime s in
      if path = '''' then (None, s, fs)
      else case os_Stat dk fs path of
        Stat_NotExist \<Rightarrow>
          (None, s\<lparr>st_redemptionTokens := Map.empty, st_redemptionTokensMtime := zero_time\<rparr>, fs)
      | Stat_Error \<Rightarrow> (Some (''stat '' @ path), s, fs)
      | Stat_Time mt \<Rightarrow>
          if \<not> After mt lastMtime then (None, s, fs)
          else
            let fs' = dk_between dk fs in
            case loadRedemptionTokensFile J dk fs' path of
              Err e \<Rightarrow> (Some (''reload redemption-tokens.json: '' @ e), s, fs')
            | Ok fresh \<Rightarrow>
                (None, s\<lparr>st_redemptionTokens := fresh, st_redemptionTokensMtime := mt\<rparr>, fs'))"

definition LookupRedemptionToken :: "State \<Rightarrow> string \<Rightarrow> RedemptionToken option" where
  "LookupRedemptionToken s token = st_redemptionTokens s token"

record ConsumeRedemptionTokenResult =
  cr_Consumed :: bool
  cr_Reason :: string

text \<open>The expiry test that the redemption handler and the consumption share.\<close>

definition token_expired :: "env \<Rightarrow> RedemptionToken \<Rightarrow> time \<Rightarrow> bool" where
  "token_expired E t now =
     (rt_ExpiresAt t \<noteq> '''' \<and>
      (case env_parse_time E (rt_ExpiresAt t) of None \<Rightarrow> False | Some expires \<Rightarrow> After now expires))"

definition ConsumeRedemptionToken ::
    "env \<Rightarrow> json \<Rightarrow> disk \<Rightarrow> string list \<Rightarrow> State \<Rightarrow> fsys \<Rightarrow> string \<Rightarrow> time
     \<Rightarrow> ConsumeRedemptionTokenResult \<times> State \<times> fsys" where
  "ConsumeRedemptionToken E J dk ord s fs token now =
     (case st_redemptionTokens s token of
        None \<Rightarrow> (\<lparr>cr_Consumed = False, cr_Reason = ''token_not_found''\<rparr>, s, fs)
      | Some entry \<Rightarrow>
          if rt_RemainingRedemptions entry \<le> 0
          then (\<lparr>cr_Consumed = False, cr_Reason = ''token_exhausted''\<rparr>, s, fs)
          else if token_expired E entry now
          then (\<lparr>cr_Consumed = False, cr_Reason = ''token_expired''\<rparr>, s, fs)
          else
            let entry' = entry\<lparr>rt_RemainingRedemptions := rt_RemainingRedemptions entry - 1\<rparr>;
                s' = s\<lparr>st_redemptionTokens := (st_redemptionTokens s)(token \<mapsto> entry')\<rparr>
            in case persist_and_stat J dk ord s' fs of
              (_, s'', fs') \<Rightarrow> (\<lparr>cr_Consumed = True, cr_Reason = ''''\<rparr>, s'', fs'))"

definition AddRedemptionToken ::
    "json \<Rightarrow> disk \<Rightarrow> string list \<Rightarrow> State \<Rightarrow> fsys \<Rightarrow> RedemptionToken \<Rightarrow> string option \<times> State \<times> fsys" where
  "AddRedemptionToken J dk ord s fs entry =
     (case validateRedemptionToken entry of
        Some e \<Rightarrow> (Some e, s, fs)
      | None \<Rightarrow>
          if st_redemptionTokens s (rt_Token entry) \<noteq> None then (Some ''token already exists'', s, fs)
          else persist_and_stat J dk ord
            (s\<lparr>st_redemptionTokens := (st_redemptionTokens s)(rt_Token entry \<mapsto> entry)\<rparr>) fs)"

definition RemoveRedemptionToken ::
    "json \<Rightarrow> disk \<Rightarrow> string list \<Rightarrow> State \<Rightarrow> fsys \<Rightarrow> string \<Rightarrow> bool \<times> State \<times> fsys" where
  "RemoveRedemptionToken J dk ord s fs token =
     (if st_redemptionTokens s token = None then (False, s, fs)
      else case persist_and_stat J dk ord
          (s\<lparr>st_redemptionTokens := (st_redemptionTokens s)(token := None)\<rparr>) fs of
        (_, s', fs') \<Rightarrow> (True, s', fs'))"

datatype tokenStatusCode = statusLive | statusExpiring | statusExpired | statusExhausted

definition tokenStatus :: "env \<Rightarrow> RedemptionToken \<Rightarrow> time \<Rightarrow> string \<times> tokenStatusCode" where
  "tokenStatus E token now =
     (if rt_RemainingRedemptions token \<le> 0 then (''exhausted'', statusExhausted)
      else if rt_ExpiresAt token \<noteq> '''' then
        (case env_parse_time E (rt_ExpiresAt token) of
           None \<Rightarrow> (''live'', statusLive)
         | Some expiry \<Rightarrow>
             if After now expiry then (''expired'', statusExpired)
             else if dur_less (time_sub expiry now) (24 * Hour) then (''expiring'', statusExpiring)
             else (''live'', statusLive))
      else (''live'', statusLive))"

section \<open>Validation and the registry invariant\<close>

lemma check_ids_None_iff: "check_ids seen ids = None \<longleftrightarrow> '''' \<notin> set ids \<and> distinct ids \<and> set ids \<inter> set seen = {}"
  by (induction ids arbitrary: seen) auto

definition valid_token :: "RedemptionToken \<Rightarrow> bool" where
  "valid_token t =
     (rt_Token t \<noteq> '''' \<and> rt_ConfigIDs t \<noteq> [] \<and> '''' \<notin> set (rt_ConfigIDs t) \<and> distinct (rt_ConfigIDs t))"

lemma validate_iff: "validateRedemptionToken t = None \<longleftrightarrow> valid_token t"
  by (auto simp: validateRedemptionToken_def valid_token_def configIDs_def check_ids_None_iff)

text \<open>Every token is filed under its own name and is valid; there are finitely many.\<close>

definition tokens_wf :: "(string \<rightharpoonup> RedemptionToken) \<Rightarrow> bool" where
  "tokens_wf m = (finite (dom m) \<and> (\<forall>k t. m k = Some t \<longrightarrow> rt_Token t = k \<and> valid_token t))"

lemma tokens_wf_empty [simp]: "tokens_wf Map.empty"
  by (simp add: tokens_wf_def)

lemma tokens_wf_update:
  "tokens_wf m \<Longrightarrow> valid_token t \<Longrightarrow> tokens_wf (m(rt_Token t \<mapsto> t))"
  by (auto simp: tokens_wf_def)

lemma tokens_wf_remove: "tokens_wf m \<Longrightarrow> tokens_wf (m(k := None))"
  by (auto simp: tokens_wf_def)

lemma tokens_wfD:
  "tokens_wf m \<Longrightarrow> m k = Some t \<Longrightarrow> rt_Token t = k \<and> valid_token t"
  by (simp add: tokens_wf_def)

interpretation token_file: registry_loader rt_Token check_token_entry valid_token
  by unfold_locales (auto simp: check_token_entry_def validate_iff [symmetric] split: option.splits)

lemma load_tokens_wf: "load_tokens list = Ok m \<Longrightarrow> tokens_wf m"
  using token_file.loaded_entry token_file.loaded_finite
  by (auto simp: load_tokens_def tokens_wf_def)

lemma loadRedemptionTokensFile_wf:
  "loadRedemptionTokensFile J dk fs path = Ok m \<Longrightarrow> tokens_wf m"
  by (auto simp: loadRedemptionTokensFile_def split: read_result.splits option.splits
      intro: load_tokens_wf)


section \<open>The sort\<close>

lemma sift_down_insert:
  assumes "sorted (map token_key P)"
  shows "\<exists>P'. sift_down (P @ x # R) (length P) = P' @ R \<and> mset P' = add_mset x (mset P) \<and>
    sorted (map token_key P')"
  using assms
proof (induction P arbitrary: R rule: rev_induct)
  case Nil
  then show ?case by (intro exI [of _ "[x]"]) simp
next
  case (snoc y Q)
  have l: "(Q @ [y]) @ x # R = Q @ y # x # R" by simp
  show ?case
  proof (cases "redemptionTokenLess x y")
    case False
    have "sift_down (Q @ y # x # R) (Suc (length Q)) = (Q @ [y, x]) @ R"
      using False by (simp add: nth_append)
    moreover have "sorted (map token_key (Q @ [y, x]))"
      using snoc.prems False by (force simp: sorted_append redemptionTokenLess_key not_less)
    ultimately show ?thesis by (intro exI [of _ "Q @ [y, x]"]) simp
  next
    case True
    obtain Q' where Q': "sift_down (Q @ x # y # R) (length Q) = Q' @ y # R"
      "mset Q' = add_mset x (mset Q)" "sorted (map token_key Q')"
      using snoc by (auto simp: sorted_append)
    have "set Q' = insert x (set Q)" using Q'(2) by (metis set_mset_add_mset_insert set_mset_mset)
    then have "sorted (map token_key (Q' @ [y]))"
      using snoc.prems True Q'(3) by (auto simp: sorted_append redemptionTokenLess_key)
    moreover have "sift_down (Q @ y # x # R) (Suc (length Q)) = (Q' @ [y]) @ R"
      using True Q'(1) by (simp add: nth_append list_update_append)
    ultimately show ?thesis using Q'(2) by (intro exI [of _ "Q' @ [y]"]) simp
  qed
qed

lemma sort_prefix:
  "n \<le> length l \<Longrightarrow> 0 < n \<Longrightarrow> \<exists>P. fold (\<lambda>i l. sift_down l i) [1..<n] l = P @ drop n l \<and>
     mset P = mset (take n l) \<and> sorted (map token_key P)"
proof (induction n)
  case 0
  then show ?case by simp
next
  case (Suc n)
  show ?case
  proof (cases "n = 0")
    case True
    then show ?thesis using Suc.prems by (cases l) (auto intro!: exI [of _ "[hd l]"])
  next
    case False
    then obtain P where P: "fold (\<lambda>i l. sift_down l i) [1..<n] l = P @ drop n l"
      "mset P = mset (take n l)" "sorted (map token_key P)"
      using Suc by auto
    have len: "length P = n" using P(2) Suc.prems by (metis Suc_leD length_take min.absorb2 size_mset)
    have d: "drop n l = l ! n # drop (Suc n) l" using Suc.prems by (simp add: Cons_nth_drop_Suc)
    obtain P' where P': "sift_down (P @ l ! n # drop (Suc n) l) (length P) = P' @ drop (Suc n) l"
      "mset P' = add_mset (l ! n) (mset P)" "sorted (map token_key P')"
      using sift_down_insert [OF P(3)] by blast
    have "fold (\<lambda>i l. sift_down l i) [1..<Suc n] l = P' @ drop (Suc n) l"
      using P(1) P'(1) False by (simp add: len d)
    moreover have "mset (take (Suc n) l) = add_mset (l ! n) (mset (take n l))"
      using Suc.prems by (simp add: take_Suc_conv_app_nth)
    ultimately show ?thesis using P' P(2) by auto
  qed
qed

lemma sortRedemptionTokens_correct:
  "mset (sortRedemptionTokens l) = mset l \<and> sorted (map token_key (sortRedemptionTokens l))"
proof (cases "l = []")
  case True
  then show ?thesis by (simp add: sortRedemptionTokens_def)
next
  case False
  then show ?thesis using sort_prefix [of "length l" l] by (auto simp: sortRedemptionTokens_def)
qed

lemmas mset_sortRedemptionTokens [simp] = sortRedemptionTokens_correct [THEN conjunct1]
lemmas sorted_sortRedemptionTokens = sortRedemptionTokens_correct [THEN conjunct2]

lemma set_sortRedemptionTokens [simp]: "set (sortRedemptionTokens l) = set l"
  by (metis mset_sortRedemptionTokens set_mset_mset)

text \<open>With distinct names the result is the one sorted list of the elements.\<close>

lemma sortRedemptionTokens_eq:
  assumes "mset l = mset l'" "distinct (map rt_Token l)"
  shows "sortRedemptionTokens l = sortRedemptionTokens l'"
proof -
  have "inj_on token_key (set l)"
    using assms(2) by (auto simp: distinct_map inj_on_def token_key_def)
  moreover have "map token_key (sortRedemptionTokens l) = map token_key (sortRedemptionTokens l')"
    using assms(1) properties_for_sort [OF _ sorted_sortRedemptionTokens]
    by (metis mset_map mset_sortRedemptionTokens)
  ultimately show ?thesis
    by (metis assms(1) inj_on_map_eq_map mset_eq_setD set_sortRedemptionTokens Un_absorb)
qed

section \<open>Persisting and loading\<close>

text \<open>
  The documented law of \<^verbatim>\<open>encoding/json\<close> for the records at hand: marshalling them succeeds
  and unmarshalling gives them back.
\<close>

definition json_keeps :: "json \<Rightarrow> RedemptionToken set \<Rightarrow> bool" where
  "json_keeps J T = (\<forall>ts. set ts \<subseteq> T \<longrightarrow>
     (case js_marshal_tokens J ts of None \<Rightarrow> False | Some d \<Rightarrow> js_unmarshal_tokens J d = Some ts))"

lemma range_values_tokens:
  assumes "tokens_wf m" "enumerates ord m"
  shows "distinct (map rt_Token (range_values ord m))" and "\<forall>t \<in> set (range_values ord m). m (rt_Token t) = Some t \<and> valid_token t"
proof -
  have "map (rt_Token \<circ> (the \<circ> m)) ord = map (\<lambda>k. k) ord"
    using assms by (intro map_cong) (auto simp: enumerates_def tokens_wf_def)
  then have "map rt_Token (range_values ord m) = ord"
    by (simp add: range_values_eq_map [OF assms(2)])
  then show "distinct (map rt_Token (range_values ord m))" using assms(2) by (simp add: enumerates_def)
  show "\<forall>t \<in> set (range_values ord m). m (rt_Token t) = Some t \<and> valid_token t"
    using assms set_range_values [OF assms(2)] by (auto simp: ran_def tokens_wf_def)
qed

lemma keyed_tokens:
  assumes "tokens_wf m" "enumerates ord m" "set l = set (range_values ord m)" "distinct (map rt_Token l)"
  shows "keyed rt_Token l = m"
proof
  fix k
  show "keyed rt_Token l k = m k"
  proof (cases "m k")
    case None
    then have "k \<notin> rt_Token ` set l" using range_values_tokens(2) [OF assms(1,2)] assms(3) by auto
    then show ?thesis using None keyed_None by metis
  next
    case (Some t)
    then have "t \<in> set l" "rt_Token t = k"
      using assms(3) set_range_values [OF assms(2)] tokens_wfD [OF assms(1)] by (auto simp: ran_def)
    then have "(k, t) \<in> set (map (\<lambda>t. (rt_Token t, t)) l)" by auto
    then show ?thesis using assms(4) Some by (simp add: keyed_def map_of_eq_Some_iff comp_def)
  qed
qed

lemma load_sorted:
  assumes "tokens_wf m" "enumerates ord m"
  shows "load_tokens (sortRedemptionTokens (range_values ord m)) = Ok m"
proof -
  let ?s = "sortRedemptionTokens (range_values ord m)"
  have "mset (map rt_Token ?s) = mset (map rt_Token (range_values ord m))" by simp
  then have d: "distinct (map rt_Token ?s)"
    using range_values_tokens(1) [OF assms] by (metis mset_eq_imp_distinct_iff)
  then show ?thesis
    using keyed_tokens [OF assms _ d] range_values_tokens(2) [OF assms]
    by (simp add: load_tokens_def token_file.load_iff)
qed

lemma persist_cases:
  assumes "persistRedemptionTokens J io fs ord path m = (e, fs')"
  obtains (ok) d where "e = None" "js_marshal_tokens J (sortRedemptionTokens (range_values ord m)) = Some d"
      "atomicWriteFile io fs path d 384 = (None, fs')"
  | (failed) "e \<noteq> None" "files fs' path = files fs path"
proof (cases "js_marshal_tokens J (sortRedemptionTokens (range_values ord m))")
  case None
  then show ?thesis using assms by (intro failed) (auto simp: persistRedemptionTokens_def)
next
  case (Some d)
  obtain e0 fs0 where w: "atomicWriteFile io fs path d 384 = (e0, fs0)" by fastforce
  show ?thesis
  proof (cases e0)
    case None
    then show ?thesis using assms w Some by (intro ok [of d]) (auto simp: persistRedemptionTokens_def)
  next
    case (Some err)
    then show ?thesis using assms w \<open>js_marshal_tokens J _ = Some d\<close> atomicWriteFile_target(1) [OF w]
      by (intro failed) (auto simp: persistRedemptionTokens_def)
  qed
qed

lemma persist_file:
  assumes "persistRedemptionTokens J io fs ord path m = (None, fs')"
    and "tokens_wf m" "enumerates ord m" "json_keeps J (ran m)" "dk_read dk"
  shows "loadRedemptionTokensFile J dk fs' path = Ok m"
  using assms(1)
proof (cases rule: persist_cases)
  case (ok d)
  have "js_unmarshal_tokens J d = Some (sortRedemptionTokens (range_values ord m))"
    using assms(3,4) ok(2) set_range_values [OF assms(3)] by (auto simp: json_keeps_def split: option.splits)
  moreover have "map_option content (files fs' path) = Some d"
    using atomicWriteFile_target [OF ok(3)] written_content by auto
  ultimately show ?thesis using load_sorted [OF assms(2,3)] assms(5)
    by (auto simp: loadRedemptionTokensFile_def os_ReadFile_def)
qed simp

lemma persist_order:
  assumes "tokens_wf m" "enumerates ord m" "enumerates ord' m"
  shows "persistRedemptionTokens J io fs ord path m = persistRedemptionTokens J io fs ord' path m"
  using sortRedemptionTokens_eq [OF mset_range_values [OF assms(2,3)] range_values_tokens(1) [OF assms(1,2)]]
  by (simp add: persistRedemptionTokens_def)

section \<open>What the operations do to the registry\<close>

lemma persist_and_stat_state:
  assumes "persist_and_stat J dk ord s fs = (e, s', fs')"
  shows "\<exists>t. s' = s\<lparr>st_redemptionTokensMtime := t\<rparr>"
proof -
  have "s' = s \<or> (\<exists>t. s' = s\<lparr>st_redemptionTokensMtime := t\<rparr>)"
    using assms
    by (auto simp: persist_and_stat_def Let_def split: if_splits prod.splits option.splits stat_result.splits)
  moreover have "s = s\<lparr>st_redemptionTokensMtime := st_redemptionTokensMtime s\<rparr>" by simp
  ultimately show ?thesis by blast
qed

lemma persist_and_stat_tokens [fields_simps]:
  "st_redemptionTokens (fst (snd (persist_and_stat J dk ord s fs))) = st_redemptionTokens s"
  "st_redemptionTokensPath (fst (snd (persist_and_stat J dk ord s fs))) = st_redemptionTokensPath s"
  "st_configs (fst (snd (persist_and_stat J dk ord s fs))) = st_configs s"
proof -
  obtain e s' fs' where p: "persist_and_stat J dk ord s fs = (e, s', fs')" by (metis prod_cases3)
  from persist_and_stat_state [OF p] obtain t where "s' = s\<lparr>st_redemptionTokensMtime := t\<rparr>" by blast
  with p show "st_redemptionTokens (fst (snd (persist_and_stat J dk ord s fs))) = st_redemptionTokens s"
    "st_redemptionTokensPath (fst (snd (persist_and_stat J dk ord s fs))) = st_redemptionTokensPath s"
    "st_configs (fst (snd (persist_and_stat J dk ord s fs))) = st_configs s" by simp_all
qed

definition consumable :: "env \<Rightarrow> RedemptionToken \<Rightarrow> time \<Rightarrow> bool" where
  "consumable E t now = (0 < rt_RemainingRedemptions t \<and> \<not> token_expired E t now)"

definition spend :: "RedemptionToken \<Rightarrow> RedemptionToken" where
  "spend t = t\<lparr>rt_RemainingRedemptions := rt_RemainingRedemptions t - 1\<rparr>"

lemma spend_simps [simp]:
  "rt_Token (spend t) = rt_Token t" "rt_ConfigIDs (spend t) = rt_ConfigIDs t"
  "rt_RemainingRedemptions (spend t) = rt_RemainingRedemptions t - 1" "rt_ExpiresAt (spend t) = rt_ExpiresAt t"
  "valid_token (spend t) = valid_token t"
  by (simp_all add: spend_def valid_token_def)

lemma Consume_cases:
  assumes "ConsumeRedemptionToken E J dk ord s fs token now = (r, s', fs')"
  obtains (refused) "\<not> cr_Consumed r" "s' = s" "fs' = fs"
      "\<And>t. st_redemptionTokens s token = Some t \<Longrightarrow> \<not> consumable E t now"
  | (consumed) t e where "cr_Consumed r" "st_redemptionTokens s token = Some t" "consumable E t now"
      "persist_and_stat J dk ord
         (s\<lparr>st_redemptionTokens := (st_redemptionTokens s)(token \<mapsto> spend t)\<rparr>) fs = (e, s', fs')"
      "st_redemptionTokens s' = (st_redemptionTokens s)(token \<mapsto> spend t)"
proof (cases "\<exists>t. st_redemptionTokens s token = Some t \<and> consumable E t now")
  case True
  then obtain t where t: "st_redemptionTokens s token = Some t" "consumable E t now" by blast
  let ?s = "s\<lparr>st_redemptionTokens := (st_redemptionTokens s)(token \<mapsto> spend t)\<rparr>"
  obtain e s0 fs0 where p: "persist_and_stat J dk ord ?s fs = (e, s0, fs0)" by (metis prod_cases3)
  have "r = \<lparr>cr_Consumed = True, cr_Reason = ''''\<rparr> \<and> s' = s0 \<and> fs' = fs0"
    using assms t p by (auto simp: ConsumeRedemptionToken_def consumable_def spend_def Let_def)
  moreover from p have "st_redemptionTokens s0 = (st_redemptionTokens s)(token \<mapsto> spend t)"
    using persist_and_stat_tokens(1) [of J dk ord ?s fs] by simp
  ultimately show ?thesis using t p by (intro consumed [of t e]) auto
next
  case False
  then show ?thesis using assms
    by (intro refused) (auto simp: ConsumeRedemptionToken_def consumable_def split: option.splits if_splits)
qed

lemma Consume_wf:
  assumes "tokens_wf (st_redemptionTokens s)" "ConsumeRedemptionToken E J dk ord s fs token now = (r, s', fs')"
  shows "tokens_wf (st_redemptionTokens s')"
  using assms(2)
proof (cases rule: Consume_cases)
  case refused
  then show ?thesis using assms(1) by simp
next
  case (consumed t e)
  then show ?thesis using tokens_wf_update [OF assms(1), of "spend t"] tokens_wfD [OF assms(1), of token t] by simp
qed

lemma Add_result:
  "AddRedemptionToken J dk ord s fs entry = (e, s', fs') \<Longrightarrow>
   st_redemptionTokens s' =
     (if valid_token entry \<and> st_redemptionTokens s (rt_Token entry) = None
      then (st_redemptionTokens s)(rt_Token entry \<mapsto> entry) else st_redemptionTokens s)"
  using persist_and_stat_tokens(1) [of J dk ord "s\<lparr>st_redemptionTokens := (st_redemptionTokens s)(rt_Token entry \<mapsto> entry)\<rparr>" fs]
  by (auto simp: AddRedemptionToken_def validate_iff [symmetric] split: option.splits if_splits)

lemma Remove_result:
  "RemoveRedemptionToken J dk ord s fs token = (ok, s', fs') \<Longrightarrow>
   st_redemptionTokens s' = (st_redemptionTokens s)(token := None) \<and> (ok \<longleftrightarrow> st_redemptionTokens s token \<noteq> None)"
  using persist_and_stat_tokens(1) [of J dk ord "s\<lparr>st_redemptionTokens := (st_redemptionTokens s)(token := None)\<rparr>" fs]
  by (auto simp: RemoveRedemptionToken_def split: prod.splits if_splits)

lemma Reload_result:
  assumes "ReloadRedemptionTokensIfChanged J dk s fs = (e, s', fs')"
  obtains "st_redemptionTokens s' = st_redemptionTokens s" | "st_redemptionTokens s' = Map.empty"
  | "e = None" "loadRedemptionTokensFile J dk fs' (st_redemptionTokensPath s) = Ok (st_redemptionTokens s')"
  using assms
  by (auto simp: ReloadRedemptionTokensIfChanged_def Let_def split: if_splits stat_result.splits sum.splits)

lemma registry_invariant:
  assumes "tokens_wf (st_redemptionTokens s)"
  shows "ConsumeRedemptionToken E J dk ord s fs token now = (r, s', fs') \<Longrightarrow> tokens_wf (st_redemptionTokens s')"
    and "AddRedemptionToken J dk ord s fs entry = (e, s', fs') \<Longrightarrow> tokens_wf (st_redemptionTokens s')"
    and "RemoveRedemptionToken J dk ord s fs token = (ok, s', fs') \<Longrightarrow> tokens_wf (st_redemptionTokens s')"
    and "ReloadRedemptionTokensIfChanged J dk s fs = (e, s', fs') \<Longrightarrow> tokens_wf (st_redemptionTokens s')"
  subgoal using Consume_wf [OF assms] by blast
  subgoal using Add_result assms tokens_wf_update by auto
  subgoal using Remove_result assms tokens_wf_remove by auto
  subgoal by (erule Reload_result) (use assms loadRedemptionTokensFile_wf in auto)
  done


section \<open>The registry is a ledger\<close>

text \<open>
  One process whose files nobody else changes and whose \<open>os.Stat\<close> of its own file works;
  reads and the calls of a write may still fail.
\<close>

definition quiet_disk :: "bool \<Rightarrow> io \<Rightarrow> disk" where
  "quiet_disk rd io = \<lparr>dk_read = rd, dk_stat = True, dk_io = io, dk_between = (\<lambda>fs. fs)\<rparr>"

type_synonym redeem_action = "io \<times> string list \<times> time"

datatype token_background = Bg_Reload bool io | Bg_Remove io "string list" string | Bg_Sweep time duration

definition remaining :: "State \<times> fsys \<Rightarrow> string \<Rightarrow> int" where
  "remaining w token =
     (case st_redemptionTokens (fst w) token of None \<Rightarrow> 0 | Some t \<Rightarrow> rt_RemainingRedemptions t)"

definition charge_step :: "env \<Rightarrow> json \<Rightarrow> redeem_action \<Rightarrow> State \<times> fsys \<Rightarrow> string \<Rightarrow> bool \<times> State \<times> fsys" where
  "charge_step E J a w token =
     (case a of (io, ord, now) \<Rightarrow>
        let r = ConsumeRedemptionToken E J (quiet_disk True io) ord (fst w) (snd w) token now
        in (cr_Consumed (fst r), snd r))"

definition background_step :: "json \<Rightarrow> token_background \<Rightarrow> State \<times> fsys \<Rightarrow> State \<times> fsys" where
  "background_step J b w =
     (case b of
        Bg_Reload rd io \<Rightarrow> snd (ReloadRedemptionTokensIfChanged J (quiet_disk rd io) (fst w) (snd w))
      | Bg_Remove io ord token \<Rightarrow> snd (RemoveRedemptionToken J (quiet_disk True io) ord (fst w) (snd w) token)
      | Bg_Sweep now window \<Rightarrow> (SweepRateLimiters (fst w) now window, snd w))"

text \<open>The cached modification time is not older than the file's: there is nothing to reload.\<close>

definition in_sync :: "State \<times> fsys \<Rightarrow> bool" where
  "in_sync w =
     (case files (snd w) (st_redemptionTokensPath (fst w)) of
        None \<Rightarrow> True | Some n \<Rightarrow> mtime n \<le> st_redemptionTokensMtime (fst w))"

lemma in_sync_tokens [simp]: "in_sync (s\<lparr>st_redemptionTokens := m\<rparr>, fs) = in_sync (s, fs)"
  by (simp add: in_sync_def split: option.splits)

lemma persist_and_stat_sync:
  assumes "persist_and_stat J (quiet_disk rd io) ord s fs = (e, s', fs')" "in_sync (s, fs)"
  shows "in_sync (s', fs')"
proof (cases "st_redemptionTokensPath s = ''''")
  case True
  then show ?thesis using assms by (simp add: persist_and_stat_def)
next
  case False
  obtain e0 fs0 where p: "persistRedemptionTokens J io fs ord (st_redemptionTokensPath s) (st_redemptionTokens s) = (e0, fs0)"
    by fastforce
  show ?thesis
  proof (cases "e0 = None")
    case True
    then show ?thesis using assms p False
      by (auto simp: persist_and_stat_def quiet_disk_def os_Stat_def in_sync_def split: option.splits)
  next
    case fails: False
    with p have "files fs0 (st_redemptionTokensPath s) = files fs (st_redemptionTokensPath s)"
      by (auto elim: persist_cases)
    moreover have "s' = s \<and> fs' = fs0"
      using assms(1) p False fails by (auto simp: persist_and_stat_def quiet_disk_def)
    ultimately show ?thesis using assms(2) by (simp add: in_sync_def split: option.splits)
  qed
qed

lemma reload_in_sync:
  assumes "in_sync (s, fs)" "ReloadRedemptionTokensIfChanged J (quiet_disk rd io) s fs = (e, s', fs')"
  shows "in_sync (s', fs') \<and> (st_redemptionTokens s' = st_redemptionTokens s \<or> st_redemptionTokens s' = Map.empty)"
  using assms
  by (auto simp: ReloadRedemptionTokensIfChanged_def Let_def in_sync_def quiet_disk_def os_Stat_def After_def
      split: if_splits option.splits stat_result.splits)

interpretation tokens: token_ledger remaining "charge_step E J" in_sync "background_step J" for E J
proof
  fix a :: redeem_action and b :: token_background and w :: "State \<times> fsys" and k k' :: string
  obtain s fs where w: "w = (s, fs)" by (cases w)
  obtain io ord now where a: "a = (io, ord, now)" by (cases a)
  obtain r s' fs' where c: "ConsumeRedemptionToken E J (quiet_disk True io) ord s fs k now = (r, s', fs')"
    by (metis prod_cases3)
  have step: "charge_step E J a w k = (cr_Consumed r, s', fs')" by (simp add: charge_step_def a w c)
  show "in_sync (snd (charge_step E J a w k))" if "in_sync w"
    using c
  proof (cases rule: Consume_cases)
    case refused
    then show ?thesis using that step by (simp add: w)
  next
    case (consumed t e)
    then show ?thesis using persist_and_stat_sync [OF consumed(4)] that step by (simp add: w)
  qed
  show "0 < remaining w k \<and> remaining (snd (charge_step E J a w k)) k = remaining w k - 1"
    if "fst (charge_step E J a w k)"
    using c that step by (cases rule: Consume_cases) (auto simp: w remaining_def consumable_def)
  show "remaining (snd (charge_step E J a w k)) k' = remaining w k'" if "fst (charge_step E J a w k)" "k' \<noteq> k"
    using c that step by (cases rule: Consume_cases) (auto simp: w remaining_def)
  show "remaining (snd (charge_step E J a w k)) k' = remaining w k'" if "\<not> fst (charge_step E J a w k)"
    using c that step by (cases rule: Consume_cases) (auto simp: w remaining_def)
  show "in_sync (background_step J b w)" and "remaining (background_step J b w) k \<le> max 0 (remaining w k)"
    if sync: "in_sync w"
  proof -
    have "in_sync (background_step J b w) \<and> remaining (background_step J b w) k \<le> max 0 (remaining w k)"
    proof (cases b)
      case (Bg_Reload rd io')
      obtain e s1 fs1 where "ReloadRedemptionTokensIfChanged J (quiet_disk rd io') s fs = (e, s1, fs1)"
        by (metis prod_cases3)
      then show ?thesis using reload_in_sync [of s fs J rd io' e s1 fs1] sync
        by (auto simp: background_step_def Bg_Reload w remaining_def)
    next
      case (Bg_Remove io' ord' tok)
      obtain ok s1 fs1 where r: "RemoveRedemptionToken J (quiet_disk True io') ord' s fs tok = (ok, s1, fs1)"
        by (metis prod_cases3)
      obtain e2 s2 fs2 where p: "persist_and_stat J (quiet_disk True io') ord'
          (s\<lparr>st_redemptionTokens := (st_redemptionTokens s)(tok := None)\<rparr>) fs = (e2, s2, fs2)"
        by (metis prod_cases3)
      have "in_sync (s1, fs1)"
        using r persist_and_stat_sync [OF p] p sync
        by (auto simp: RemoveRedemptionToken_def w split: if_splits)
      then show ?thesis using Remove_result [OF r] r
        by (simp add: background_step_def Bg_Remove w remaining_def)
    next
      case (Bg_Sweep now' window)
      then show ?thesis using sync
        by (simp add: background_step_def w remaining_def in_sync_def SweepRateLimiters_def split: option.splits)
    qed
    then show "in_sync (background_step J b w)" and "remaining (background_step J b w) k \<le> max 0 (remaining w k)"
      by simp_all
  qed
qed

section \<open>Sample data\<close>

text \<open>A codec for lists over the given tokens: a byte per token, its position.\<close>

definition sample_json :: "RedemptionToken list \<Rightarrow> json" where
  "sample_json ts = \<lparr>
     js_marshal_tokens = (\<lambda>l. if set l \<subseteq> set ts
       then Some (map (\<lambda>t. word_of_nat (length (takeWhile (\<lambda>x. x \<noteq> t) ts))) l) else None),
     js_unmarshal_tokens = (\<lambda>d. Some (map (\<lambda>b. ts ! unat b) d)),
     js_unmarshal_configs = (\<lambda>d. Some []), js_into_map = (\<lambda>d. True), js_name = (\<lambda>d. ''N''),
     js_unmarshal_issue = (\<lambda>d. None), js_unmarshal_redeem = (\<lambda>d. None)\<rparr>"

lemma sample_json_keeps:
  assumes "length ts \<le> 256" "T \<subseteq> set ts"
  shows "json_keeps (sample_json ts) T"
proof -
  have "ts ! unat (word_of_nat (length (takeWhile (\<lambda>x. x \<noteq> t) ts)) :: byte) = t" if "t \<in> set ts" for t
  proof -
    have "length (takeWhile (\<lambda>x. x \<noteq> t) ts) < length ts \<and> ts ! length (takeWhile (\<lambda>x. x \<noteq> t) ts) = t"
      using that by (induction ts) auto
    then show ?thesis using assms(1) by (simp add: unat_of_nat take_bit_eq_mod)
  qed
  then show ?thesis using assms(2)
    by (auto simp: json_keeps_def sample_json_def comp_def intro!: map_idI)
qed

definition sample_token :: "string \<Rightarrow> int \<Rightarrow> RedemptionToken" where
  "sample_token name n = \<lparr>rt_Token = name, rt_ConfigIDs = [EncodeToString (replicate 16 1)],
     rt_RemainingRedemptions = n, rt_ExpiresAt = '''', rt_CreatedAt = ''2026'', rt_Label = ''''\<rparr>"

definition sample_state :: "(string \<rightharpoonup> RedemptionToken) \<Rightarrow> State" where
  "sample_state m = \<lparr>st_CreatorSigningKey = sample_key, st_AuditSalt = [], st_stateDir = ''/s'',
     st_configs = None, st_configsPath = '''', st_configsMtime = 0, st_keyCreated = False,
     st_issuanceLimiter = newRateLimiter, st_PublicIssuerURL = ''https://i'',
     st_redemptionTokens = m, st_redemptionTokensPath = ''/s/f'', st_redemptionTokensMtime = 1,
     st_redemptionLimiter = newRateLimiter, st_TrustedProxies = []\<rparr>"

definition good_io :: "time \<Rightarrow> io" where
  "good_io t = \<lparr>io_ok = (\<lambda>c. True), io_partial = 0, io_suffix = ''1'', io_uid = 0, io_gid = 0, io_now = t\<rparr>"

lemma EncodeToString_nonempty [simp]: "bs \<noteq> [] \<Longrightarrow> EncodeToString bs \<noteq> ''''"
proof -
  assume "bs \<noteq> []"
  moreover have "EncodeToString [] = ''''" by (simp add: EncodeToString_def)
  ultimately show ?thesis using b64url.enc_inj [of bs "[]"] by auto
qed

lemma valid_sample_token: "name \<noteq> '''' \<Longrightarrow> valid_token (sample_token name n)"
  using EncodeToString_nonempty [of "replicate 16 1"]
  by (auto simp: valid_token_def sample_token_def simp del: EncodeToString_nonempty)

lemma sample_tokens_wf: "name \<noteq> '''' \<Longrightarrow> tokens_wf [name \<mapsto> sample_token name n]"
  using valid_sample_token by (simp add: tokens_wf_def) (simp add: sample_token_def)

lemma persist_succeeds:
  assumes "js_marshal_tokens J (sortRedemptionTokens (range_values ord m)) = Some d"
    and "\<And>c. io_ok io c" "files fs path = Some n" "files fs (temp_name path (io_suffix io)) = None"
  obtains fs' n' where "persistRedemptionTokens J io fs ord path m = (None, fs')"
    "files fs' path = Some n'" "content n' = d" "mtime n' = io_now io"
    "files fs' (temp_name path (io_suffix io)) = None"
proof -
  obtain fs' where "atomicWriteFile io fs path d 384 = (None, fs')"
    "files fs' path = Some \<lparr>content = d, perm = perm n, uid = uid n, gid = gid n, mtime = io_now io\<rparr>"
    "files fs' (temp_name path (io_suffix io)) = None"
    using atomicWriteFile_succeeds [OF assms(2-4)] by blast
  then show ?thesis using that assms(1) by (simp add: persistRedemptionTokens_def)
qed


section \<open>Properties\<close>



text \<open>C16. A charge survives a restart: when a token was charged and the write of the file
  succeeded, loading the file gives exactly the registry in memory, with the count one lower
  and every other token as it was; the bytes written do not depend on the order in which the
  runtime enumerates the map.\<close>

theorem consume_durable:
  assumes "ConsumeRedemptionToken E J dk ord s fs token now = (r, s', fs')" and "cr_Consumed r"
    and "tokens_wf (st_redemptionTokens s)" "st_redemptionTokensPath s \<noteq> ''''"
    and "enumerates ord (st_redemptionTokens s')" "json_keeps J (ran (st_redemptionTokens s'))"
    and "fst (persistRedemptionTokens J (dk_io dk) fs ord (st_redemptionTokensPath s) (st_redemptionTokens s')) = None"
    and "dk_between dk = (\<lambda>fs. fs)" "dk_read dk'"
  shows "loadRedemptionTokensFile J dk' fs' (st_redemptionTokensPath s) = Ok (st_redemptionTokens s')
    \<and> (\<exists>t. st_redemptionTokens s token = Some t \<and> st_redemptionTokens s' = (st_redemptionTokens s)(token \<mapsto> spend t))
    \<and> (\<forall>ord'. enumerates ord' (st_redemptionTokens s') \<longrightarrow>
         persistRedemptionTokens J io fs ord' path (st_redemptionTokens s') =
         persistRedemptionTokens J io fs ord path (st_redemptionTokens s'))"
  using assms(1)
proof (cases rule: Consume_cases)
  case refused
  then show ?thesis using assms(2) by simp
next
  case (consumed t e)
  have wf: "tokens_wf (st_redemptionTokens s')" by (rule Consume_wf [OF assms(3,1)])
  obtain fs0 where p: "persistRedemptionTokens J (dk_io dk) fs ord (st_redemptionTokensPath s) (st_redemptionTokens s') = (None, fs0)"
    using assms(7) by (metis prod.collapse)
  have "fs' = fs0"
    using consumed(4,5) p assms(4,8) by (auto simp: persist_and_stat_def Let_def split: stat_result.splits)
  then have "loadRedemptionTokensFile J dk' fs' (st_redemptionTokensPath s) = Ok (st_redemptionTokens s')"
    using persist_file [OF p wf assms(5,6,9)] by simp
  then show ?thesis using consumed(2,5) persist_order [OF wf _ assms(5)] by blast
qed

lemma sample_sort [simp]: "sortRedemptionTokens [t] = [t]"
  by (simp add: sortRedemptionTokens_def)

lemma sample_range [simp]: "range_values [k] [k \<mapsto> t] = [t]"
  by (simp add: range_values_def List.map_filter_simps)

lemma sample_enumerates [simp]: "enumerates [k] [k \<mapsto> t]"
  by (simp add: enumerates_def)

lemma temp_sample [simp]: "files sample_fs (temp_name ''/s/f'' ''1'') = None"
  by (simp add: sample_fs_def)

lemma sample_file [simp]: "files sample_fs ''/s/f'' = Some \<lparr>content = [1], perm = 416, uid = 7, gid = 8, mtime = 1\<rparr>"
  by (simp add: sample_fs_def)

text \<open>Consuming the one token of the sample state, with every system call succeeding.\<close>

lemma sample_consume:
  assumes "spend (sample_token ''a'' 2) \<in> set ts"
  obtains s' fs' where
    "ConsumeRedemptionToken sample_env (sample_json ts) (quiet_disk True (good_io 3)) [''a'']
       (sample_state [''a'' \<mapsto> sample_token ''a'' 2]) sample_fs ''a'' 5 = (\<lparr>cr_Consumed = True, cr_Reason = ''''\<rparr>, s', fs')"
    "st_redemptionTokens s' = [''a'' \<mapsto> spend (sample_token ''a'' 2)]" "st_redemptionTokensMtime s' = 3"
    "st_redemptionTokensPath s' = ''/s/f''"
    "fst (persistRedemptionTokens (sample_json ts) (good_io 3) sample_fs [''a''] ''/s/f''
       [''a'' \<mapsto> spend (sample_token ''a'' 2)]) = None"
    "\<exists>n. files fs' ''/s/f'' = Some n \<and> mtime n = 3" "files fs' (temp_name ''/s/f'' ''1'') = None"
proof -
  let ?m = "[''a'' \<mapsto> spend (sample_token ''a'' 2)]"
  obtain d where d: "js_marshal_tokens (sample_json ts) (sortRedemptionTokens (range_values [''a''] ?m)) = Some d"
    using assms by (simp add: sample_json_def)
  obtain fs' n' where p: "persistRedemptionTokens (sample_json ts) (good_io 3) sample_fs [''a''] ''/s/f'' ?m = (None, fs')"
    "files fs' ''/s/f'' = Some n'" "mtime n' = 3" "files fs' (temp_name ''/s/f'' ''1'') = None"
    by (rule persist_succeeds [of "sample_json ts" "[''a'']" ?m d "good_io 3" sample_fs "''/s/f''", OF d])
      (auto simp: good_io_def)
  have "ConsumeRedemptionToken sample_env (sample_json ts) (quiet_disk True (good_io 3)) [''a'']
       (sample_state [''a'' \<mapsto> sample_token ''a'' 2]) sample_fs ''a'' 5
     = (\<lparr>cr_Consumed = True, cr_Reason = ''''\<rparr>, (sample_state ?m)\<lparr>st_redemptionTokensMtime := 3\<rparr>, fs')"
    using p by (simp add: ConsumeRedemptionToken_def token_expired_def sample_token_def sample_state_def
        persist_and_stat_def quiet_disk_def os_Stat_def spend_def)
  then show ?thesis using that p by (auto simp: sample_state_def)
qed

theorem consume_durable_witness:
  "\<exists>s' fs'. ConsumeRedemptionToken sample_env (sample_json [spend (sample_token ''a'' 2)]) (quiet_disk True (good_io 3)) [''a'']
       (sample_state [''a'' \<mapsto> sample_token ''a'' 2]) sample_fs ''a'' 5 = (\<lparr>cr_Consumed = True, cr_Reason = ''''\<rparr>, s', fs') \<and>
     loadRedemptionTokensFile (sample_json [spend (sample_token ''a'' 2)]) (quiet_disk True (good_io 3)) fs' ''/s/f''
       = Ok [''a'' \<mapsto> spend (sample_token ''a'' 2)]"
proof -
  let ?ts = "[spend (sample_token ''a'' 2)]"
  obtain s' fs' where c: "ConsumeRedemptionToken sample_env (sample_json ?ts) (quiet_disk True (good_io 3)) [''a'']
       (sample_state [''a'' \<mapsto> sample_token ''a'' 2]) sample_fs ''a'' 5 = (\<lparr>cr_Consumed = True, cr_Reason = ''''\<rparr>, s', fs')"
    "st_redemptionTokens s' = [''a'' \<mapsto> spend (sample_token ''a'' 2)]"
    "fst (persistRedemptionTokens (sample_json ?ts) (good_io 3) sample_fs [''a''] ''/s/f''
       [''a'' \<mapsto> spend (sample_token ''a'' 2)]) = None"
    by (rule sample_consume [of ?ts]) auto
  have j: "json_keeps (sample_json ?ts) (ran [''a'' \<mapsto> spend (sample_token ''a'' 2)])"
    by (rule sample_json_keeps) auto
  have st: "st_redemptionTokens (sample_state m) = m" "st_redemptionTokensPath (sample_state m) = ''/s/f''" for m
    by (simp_all add: sample_state_def)
  have dk: "dk_io (quiet_disk True io) = io" "dk_between (quiet_disk True io) = (\<lambda>fs. fs)" "dk_read (quiet_disk True io)" for io
    by (simp_all add: quiet_disk_def)
  have "loadRedemptionTokensFile (sample_json ?ts) (quiet_disk True (good_io 3)) fs' ''/s/f''
      = Ok [''a'' \<mapsto> spend (sample_token ''a'' 2)]"
    by (rule conjunct1 [OF consume_durable [OF c(1) _ _ _ _ _ _ dk(2) dk(3), unfolded c(2) st dk(1)]])
      (use c(3) j sample_tokens_wf [of "''a''" 2] in simp_all)
  then show ?thesis using c(1) by blast
qed

text \<open>The dashboard's status of a token is the server's verdict on it: a charge succeeds
  exactly when the status shown at that instant is live or expiring, and a refusal of a
  registered token gives the status as its reason; nothing changes on a refusal.\<close>

theorem status_agrees_with_consume:
  assumes "st_redemptionTokens s token = Some t"
    and "ConsumeRedemptionToken E J dk ord s fs token now = (r, s', fs')"
  shows "(cr_Consumed r \<longleftrightarrow> snd (tokenStatus E t now) \<in> {statusLive, statusExpiring})
    \<and> (\<not> cr_Consumed r \<longrightarrow> cr_Reason r = ''token_'' @ fst (tokenStatus E t now) \<and> s' = s \<and> fs' = fs)"
proof -
  have "snd (tokenStatus E t now) \<in> {statusLive, statusExpiring} \<longleftrightarrow> consumable E t now"
    by (auto simp: tokenStatus_def consumable_def token_expired_def split: option.splits)
  moreover have "cr_Consumed r \<longleftrightarrow> consumable E t now"
    using assms(2) by (cases rule: Consume_cases) (use assms(1) in auto)
  moreover have "cr_Reason r = ''token_'' @ fst (tokenStatus E t now) \<and> s' = s \<and> fs' = fs" if "\<not> consumable E t now"
  proof (cases "rt_RemainingRedemptions t \<le> 0")
    case True
    then show ?thesis using assms by (auto simp: ConsumeRedemptionToken_def tokenStatus_def)
  next
    case False
    with that obtain x where "rt_ExpiresAt t \<noteq> []" "env_parse_time E (rt_ExpiresAt t) = Some x" "After now x"
      by (auto simp: consumable_def token_expired_def split: option.splits)
    then show ?thesis using assms False by (auto simp: ConsumeRedemptionToken_def tokenStatus_def token_expired_def)
  qed
  ultimately show ?thesis by blast
qed

theorem status_agrees_with_consume_witness:
  "\<exists>s' fs'. ConsumeRedemptionToken sample_env (sample_json []) (quiet_disk True (good_io 3)) []
       (sample_state [''a'' \<mapsto> sample_token ''a'' 0]) sample_fs ''a'' 5 = (\<lparr>cr_Consumed = False, cr_Reason = ''token_exhausted''\<rparr>, s', fs')
     \<and> fst (tokenStatus sample_env (sample_token ''a'' 0) 5) = ''exhausted''"
proof -
  let ?c = "ConsumeRedemptionToken sample_env (sample_json []) (quiet_disk True (good_io 3)) []
       (sample_state [''a'' \<mapsto> sample_token ''a'' 0]) sample_fs ''a'' 5"
  have c: "?c = (\<lparr>cr_Consumed = False, cr_Reason = ''token_exhausted''\<rparr>, sample_state [''a'' \<mapsto> sample_token ''a'' 0], sample_fs)"
    by (simp add: ConsumeRedemptionToken_def sample_state_def sample_token_def)
  show ?thesis
    using status_agrees_with_consume [OF _ c, of "sample_token ''a'' 0"] c by (simp add: sample_state_def)
qed

text \<open>The registry stays well formed: whatever the disk does, every operation keeps every
  token valid and filed under its own name, with finitely many of them; in particular a load or
  reload of any file either yields such a registry or is refused, and \<open>AddRedemptionToken\<close>
  never overwrites a token.\<close>

theorem registry_well_formed:
  assumes "tokens_wf (st_redemptionTokens s)"
  shows "tokens_wf (st_redemptionTokens (fst (snd (ConsumeRedemptionToken E J dk ord s fs token now))))
    \<and> tokens_wf (st_redemptionTokens (fst (snd (AddRedemptionToken J dk ord s fs entry))))
    \<and> tokens_wf (st_redemptionTokens (fst (snd (RemoveRedemptionToken J dk ord s fs token))))
    \<and> tokens_wf (st_redemptionTokens (fst (snd (ReloadRedemptionTokensIfChanged J dk s fs))))
    \<and> (st_redemptionTokens s k = Some t \<longrightarrow>
        st_redemptionTokens (fst (snd (AddRedemptionToken J dk ord s fs entry))) k = Some t)"
proof -
  obtain r0 s0 fs0 where c: "ConsumeRedemptionToken E J dk ord s fs token now = (r0, s0, fs0)" by (metis prod_cases3)
  obtain e s1 fs1 where a: "AddRedemptionToken J dk ord s fs entry = (e, s1, fs1)" by (metis prod_cases3)
  obtain ok s2 fs2 where r: "RemoveRedemptionToken J dk ord s fs token = (ok, s2, fs2)" by (metis prod_cases3)
  obtain e3 s3 fs3 where l: "ReloadRedemptionTokensIfChanged J dk s fs = (e3, s3, fs3)" by (metis prod_cases3)
  have "tokens_wf (st_redemptionTokens s0)" "tokens_wf (st_redemptionTokens s1)" "tokens_wf (st_redemptionTokens s2)"
    "tokens_wf (st_redemptionTokens s3)"
    using registry_invariant(1) [OF assms c] registry_invariant(2) [OF assms a] registry_invariant(3) [OF assms r]
      registry_invariant(4) [OF assms l] by simp_all
  moreover have "st_redemptionTokens s k = Some t \<longrightarrow> st_redemptionTokens s1 k = Some t"
    using Add_result [OF a] by (simp split: if_splits)
  ultimately show ?thesis by (simp add: c a r l)
qed

theorem registry_well_formed_witness:
  "tokens_wf (st_redemptionTokens (fst (snd (AddRedemptionToken (sample_json []) (quiet_disk True (good_io 3)) []
      (sample_state [''a'' \<mapsto> sample_token ''a'' 2]) sample_fs (sample_token ''b'' 1)))))"
proof -
  have "tokens_wf (st_redemptionTokens (sample_state [''a'' \<mapsto> sample_token ''a'' 2]))"
    using sample_tokens_wf [of "''a''" 2] by (simp add: sample_state_def)
  from registry_well_formed [OF this] show ?thesis by blast
qed

text \<open>A second process undoes charges. The dashboard keeps the registry it loaded when it
  started; if the server has charged a token since, adding any token in the dashboard writes the
  old count back, and the server's next reload restores it: the charge is forgotten, so the
  share link can be used more often than its count allows.\<close>

theorem stale_dashboard_restores_count:
  assumes wf: "tokens_wf m" and srv: "st_redemptionTokens srv = m" and dash: "st_redemptionTokens dash = m"
    and path: "st_redemptionTokensPath srv = path" "st_redemptionTokensPath dash = path" "path \<noteq> ''''"
    and charge: "ConsumeRedemptionToken E J (quiet_disk True io1) ord1 srv fs k now = (r, srv', fs1)" "cr_Consumed r"
    and add: "AddRedemptionToken J (quiet_disk True io2) ord2 dash fs1 e = (None, dash', fs2)"
    and newer: "files fs2 path = Some n" "After (mtime n) (st_redemptionTokensMtime srv')"
    and ord: "enumerates ord2 (m(rt_Token e \<mapsto> e))" and json: "json_keeps J (insert e (ran m))"
  shows "\<exists>srv''. ReloadRedemptionTokensIfChanged J (quiet_disk True io3) srv' fs2 = (None, srv'', fs2) \<and>
    st_redemptionTokens srv'' k = m k \<and> remaining (srv'', fs2) k = remaining (srv', fs1) k + 1"
  using charge(1)
proof (cases rule: Consume_cases)
  case refused
  then show ?thesis using charge(2) by simp
next
  case (consumed t e0)
  let ?m = "m(rt_Token e \<mapsto> e)" and ?dash = "dash\<lparr>st_redemptionTokens := m(rt_Token e \<mapsto> e)\<rparr>"
  have e: "valid_token e" "m (rt_Token e) = None" "persist_and_stat J (quiet_disk True io2) ord2 ?dash fs1 = (None, dash', fs2)"
    using add dash by (auto simp: AddRedemptionToken_def validate_iff split: option.splits if_splits)
  have k: "rt_Token e \<noteq> k" "m k = Some t" using e(2) consumed(2) srv by auto
  have p: "persistRedemptionTokens J io2 fs1 ord2 path ?m = (None, fs2)"
    using e(3) path(2,3)
    by (auto simp: persist_and_stat_def quiet_disk_def Let_def split: prod.splits option.splits stat_result.splits)
  have wf': "tokens_wf ?m" using tokens_wf_update [OF wf e(1)] by simp
  have "ran ?m \<subseteq> insert e (ran m)" by (auto simp: ran_def)
  with json have "json_keeps J (ran ?m)" by (auto simp: json_keeps_def)
  from persist_file [OF p wf' ord this, of "quiet_disk True io3"]
  have "loadRedemptionTokensFile J (quiet_disk True io3) fs2 path = Ok ?m" by (simp add: quiet_disk_def)
  moreover have "st_redemptionTokensPath srv' = path"
    using persist_and_stat_state [OF consumed(4)] path(1) by auto
  ultimately have "ReloadRedemptionTokensIfChanged J (quiet_disk True io3) srv' fs2
      = (None, srv'\<lparr>st_redemptionTokens := ?m, st_redemptionTokensMtime := mtime n\<rparr>, fs2)"
    using newer path(3) by (simp add: ReloadRedemptionTokensIfChanged_def os_Stat_def quiet_disk_def)
  then show ?thesis using k consumed(5) by (simp add: remaining_def)
qed

theorem stale_dashboard_restores_count_witness:
  "\<exists>srv' fs1 dash' fs2 srv''.
     ConsumeRedemptionToken sample_env (sample_json [sample_token ''a'' 2, spend (sample_token ''a'' 2), sample_token ''b'' 1])
       (quiet_disk True (good_io 3)) [''a''] (sample_state [''a'' \<mapsto> sample_token ''a'' 2]) sample_fs ''a'' 5
       = (\<lparr>cr_Consumed = True, cr_Reason = ''''\<rparr>, srv', fs1) \<and>
     AddRedemptionToken (sample_json [sample_token ''a'' 2, spend (sample_token ''a'' 2), sample_token ''b'' 1])
       (quiet_disk True (good_io 9)) [''a'', ''b''] (sample_state [''a'' \<mapsto> sample_token ''a'' 2]) fs1 (sample_token ''b'' 1)
       = (None, dash', fs2) \<and>
     ReloadRedemptionTokensIfChanged (sample_json [sample_token ''a'' 2, spend (sample_token ''a'' 2), sample_token ''b'' 1])
       (quiet_disk True (good_io 9)) srv' fs2 = (None, srv'', fs2) \<and>
     remaining (srv', fs1) ''a'' = 1 \<and> remaining (srv'', fs2) ''a'' = 2"
proof -
  let ?ts = "[sample_token ''a'' 2, spend (sample_token ''a'' 2), sample_token ''b'' 1]"
  let ?m = "[''a'' \<mapsto> sample_token ''a'' 2]" and ?e = "sample_token ''b'' 1"
  have st: "st_redemptionTokens (sample_state m) = m" "st_redemptionTokensPath (sample_state m) = ''/s/f''" for m
    by (simp_all add: sample_state_def)
  have name: "rt_Token ?e = ''b''" by (simp add: sample_token_def)
  obtain srv' fs1 n1 where c: "ConsumeRedemptionToken sample_env (sample_json ?ts) (quiet_disk True (good_io 3)) [''a'']
       (sample_state ?m) sample_fs ''a'' 5 = (\<lparr>cr_Consumed = True, cr_Reason = ''''\<rparr>, srv', fs1)"
    "st_redemptionTokens srv' = [''a'' \<mapsto> spend (sample_token ''a'' 2)]" "st_redemptionTokensMtime srv' = 3"
    "files fs1 ''/s/f'' = Some n1" "files fs1 (temp_name ''/s/f'' ''1'') = None"
    by (rule sample_consume [of ?ts]) auto
  have range: "range_values [''a'', ''b''] (?m(''b'' \<mapsto> ?e)) = [sample_token ''a'' 2, ?e]"
    by (simp add: range_values_def List.map_filter_simps)
  obtain d where d: "js_marshal_tokens (sample_json ?ts)
      (sortRedemptionTokens (range_values [''a'', ''b''] (?m(''b'' \<mapsto> ?e)))) = Some d"
    unfolding range by (auto simp: sample_json_def)
  obtain fs2 n2 where p: "persistRedemptionTokens (sample_json ?ts) (good_io 9) fs1 [''a'', ''b''] ''/s/f'' (?m(''b'' \<mapsto> ?e)) = (None, fs2)"
    "files fs2 ''/s/f'' = Some n2" "mtime n2 = 9"
    by (rule persist_succeeds [of "sample_json ?ts" "[''a'', ''b'']" "?m(''b'' \<mapsto> ?e)" d "good_io 9" fs1 "''/s/f''" n1, OF d])
      (use c(4,5) in \<open>auto simp: good_io_def\<close>)
  have a: "AddRedemptionToken (sample_json ?ts) (quiet_disk True (good_io 9)) [''a'', ''b''] (sample_state ?m) fs1 ?e
      = (None, (sample_state (?m(''b'' \<mapsto> ?e)))\<lparr>st_redemptionTokensMtime := 9\<rparr>, fs2)"
    using p iffD2 [OF validate_iff valid_sample_token [of "''b''" 1]]
    by (simp add: AddRedemptionToken_def persist_and_stat_def quiet_disk_def os_Stat_def name sample_state_def)
  have j: "json_keeps (sample_json ?ts) (insert ?e (ran ?m))"
    by (rule sample_json_keeps) auto
  have o: "enumerates [''a'', ''b''] (?m(rt_Token ?e \<mapsto> ?e))" by (auto simp: enumerates_def name)
  have "After (mtime n2) (st_redemptionTokensMtime srv')" by (simp add: p(3) c(3) After_def)
  from stale_dashboard_restores_count [OF _ st(1) st(1) st(2) st(2) _ c(1) _ a p(2) this o j, of "good_io 9"]
  obtain srv'' where "ReloadRedemptionTokensIfChanged (sample_json ?ts) (quiet_disk True (good_io 9)) srv' fs2 = (None, srv'', fs2)"
    "st_redemptionTokens srv'' ''a'' = Some (sample_token ''a'' 2)"
    using sample_tokens_wf [of "''a''" 2] by auto
  moreover from this have "remaining (srv'', fs2) ''a'' = 2" by (simp add: remaining_def sample_token_def)
  moreover have "remaining (srv', fs1) ''a'' = 1" using c(2) by (simp add: remaining_def sample_token_def)
  ultimately show ?thesis using c(1) a by blast
qed

end
