(* ===== verification/Policy.thy ===== *)
theory Policy
  imports Wire_Types
begin

text \<open>
  The attestation policy of \<^verbatim>\<open>policy.go\<close>, with the verdicts of \<^verbatim>\<open>verifier.go\<close> and the
  policy helpers of \<^verbatim>\<open>state.go\<close>: which rule applies to a requester's platform, whether the
  request counts as attested under it, and what each enforcement mode makes of that.
\<close>

section \<open>Verdicts and verifiers\<close>

record Verdict =
  vd_Verified :: bool
  vd_SecurityLevel :: string
  vd_HardwareBacked :: bool
  vd_TrustedRoot :: bool
  vd_VerifiedBootState :: string
  vd_DeviceLocked :: bool
  vd_AppPackageNames :: "string list"
  vd_AppSigningCertSHA256Hex :: "string list"
  vd_Reason :: string

definition zero_verdict :: Verdict where
  "zero_verdict = \<lparr>vd_Verified = False, vd_SecurityLevel = '''', vd_HardwareBacked = False,
     vd_TrustedRoot = False, vd_VerifiedBootState = '''', vd_DeviceLocked = False,
     vd_AppPackageNames = [], vd_AppSigningCertSHA256Hex = [], vd_Reason = ''''\<rparr>"

text \<open>
  A verifier value: the App Attest verifier, whose check also takes an application identity
  (the type assertion of the evaluator singles it out), or any other, with its \<open>Verify\<close>.
\<close>

datatype AttestationVerifier =
  AppleAppAttest "AttestationBlob \<Rightarrow> string \<Rightarrow> string + Verdict"
| OtherVerifier "AttestationBlob \<Rightarrow> string + Verdict"

text \<open>The registry of \<^verbatim>\<open>verifier.go\<close>: an empty name is no verifier, an unknown one an error.\<close>

type_synonym verifierRegistry = "(string \<times> AttestationVerifier) list"

definition knownNames :: "verifierRegistry \<Rightarrow> string list" where
  "knownNames r = map fst r"

definition Verifier_Lookup ::
    "env \<Rightarrow> verifierRegistry \<Rightarrow> string \<Rightarrow> string + AttestationVerifier option" where
  "Verifier_Lookup E r name =
     (if name = '''' then Ok None
      else case map_of r name of
        None \<Rightarrow> Err (''unknown verifier '' @ env_quote E name @ '' (known: ['' @ Join '' '' (knownNames r) @ ''])'')
      | Some v \<Rightarrow> Ok (Some v))"


section \<open>Modes, arms and lifetimes\<close>

definition AttestationModeOff :: string where "AttestationModeOff = ''off''"
definition AttestationModeObserve :: string where "AttestationModeObserve = ''observe''"
definition AttestationModeSoft :: string where "AttestationModeSoft = ''soft''"
definition AttestationModeStrict :: string where "AttestationModeStrict = ''strict''"

lemmas mode_defs = AttestationModeOff_def AttestationModeObserve_def AttestationModeSoft_def
  AttestationModeStrict_def

definition validAttestationMode :: "string \<Rightarrow> bool" where
  "validAttestationMode m =
     (m = AttestationModeOff \<or> m = AttestationModeObserve \<or> m = AttestationModeSoft
      \<or> m = AttestationModeStrict)"

definition armFor :: "env \<Rightarrow> AttestationPolicy option \<Rightarrow> string \<Rightarrow> AttestationArm option" where
  "armFor E p platform =
     (case p of None \<Rightarrow> None
      | Some pol \<Rightarrow>
          if pol_Platforms pol = [] then Some (pol_Arm pol)
          else (case map_of (pol_Platforms pol) (ToUpper (env_upper E) (TrimSpace platform)) of
              Some (Some arm) \<Rightarrow> Some arm
            | _ \<Rightarrow> None))"

definition defaultConfigTtl :: duration where "defaultConfigTtl = 1 * Hour"
definition configTtlMin :: duration where "configTtlMin = 60 * Second"
definition configTtlMax :: duration where "configTtlMax = 7 * 24 * Hour"

definition resolveConfigTtl :: "ConfigEntry option \<Rightarrow> duration" where
  "resolveConfigTtl entry =
     (case entry of None \<Rightarrow> defaultConfigTtl
      | Some e \<Rightarrow> if ce_ConfigTtlSec e \<le> 0 then defaultConfigTtl else seconds (ce_ConfigTtlSec e))"

definition defaultSoftFailureTtlSec :: int where "defaultSoftFailureTtlSec = 300"

definition softFailureTtl :: "AttestationPolicy \<Rightarrow> duration" where
  "softFailureTtl policy =
     (let sec = pol_SoftFailureTtlSec policy
      in seconds (if sec \<le> 0 then defaultSoftFailureTtlSec else sec))"

definition defaultMaxIssuancesPerHour :: int where "defaultMaxIssuancesPerHour = 10"
definition defaultIssuanceLimitPerHour :: int where "defaultIssuanceLimitPerHour = 30"

definition resolveIssuanceLimit :: "AttestationPolicy option \<Rightarrow> int" where
  "resolveIssuanceLimit policy =
     (case policy of None \<Rightarrow> 0
      | Some p \<Rightarrow>
          if pol_Mode p = AttestationModeOff then 0
          else if 0 < pol_MaxIssuancesPerHour p then pol_MaxIssuancesPerHour p
          else defaultMaxIssuancesPerHour)"

definition containsString :: "string list \<Rightarrow> string \<Rightarrow> bool" where
  "containsString values expected = list_ex (\<lambda>v. v = expected) values"

definition containsFold :: "env \<Rightarrow> string list \<Rightarrow> string \<Rightarrow> bool" where
  "containsFold E values expected = list_ex (\<lambda>v. EqualFold (env_fold E) v expected) values"

definition claimsAttestation :: "AttestationBlob \<Rightarrow> bool" where
  "claimsAttestation a =
     (if ab_Platform a = '''' \<or> ab_Platform a = ''NONE'' then False
      else if ab_Token a = '''' then False
      else True)"


section \<open>Evaluating a policy\<close>

record attestationDecision =
  ad_reject :: bool
  ad_rejectReason :: string
  ad_ttl :: duration
  ad_logAttestation :: bool
  ad_verdict :: "Verdict option"

definition allow_decision :: "duration \<Rightarrow> Verdict option \<Rightarrow> attestationDecision" where
  "allow_decision ttl v = \<lparr>ad_reject = False, ad_rejectReason = '''', ad_ttl = ttl,
     ad_logAttestation = False, ad_verdict = v\<rparr>"

definition android_key_attestation :: string where
  "android_key_attestation = ''android-key-attestation''"

definition apple_app_attest :: string where
  "apple_app_attest = ''apple-app-attest''"

definition defaultAndroidPackageName :: string where
  "defaultAndroidPackageName = ''com.napsternetlabs.napsternetv''"

definition defaultAndroidSigningCertSHA256 :: string where
  "defaultAndroidSigningCertSHA256 = ''e03dcc51aad45456b97b6331c08a2f6a67eb9516e931a3e6cefcd0eeee5801d4''"

text \<open>The application identity an Android arm expects, and whether a verdict carries it.\<close>

definition expectedPackage :: "AttestationArm \<Rightarrow> string" where
  "expectedPackage arm =
     (if arm_AndroidPackageName arm = '''' then defaultAndroidPackageName else arm_AndroidPackageName arm)"

definition expectedDigest :: "AttestationArm \<Rightarrow> string" where
  "expectedDigest arm =
     (if arm_AndroidSigningCertSHA256 arm = '''' then defaultAndroidSigningCertSHA256
      else arm_AndroidSigningCertSHA256 arm)"

definition identity_mismatch :: "env \<Rightarrow> AttestationArm \<Rightarrow> Verdict \<Rightarrow> bool" where
  "identity_mismatch E arm v =
     (\<not> containsString (vd_AppPackageNames v) (expectedPackage arm)
      \<or> \<not> containsFold E (vd_AppSigningCertSHA256Hex v) (expectedDigest arm))"

definition boot_unverified :: "Verdict \<Rightarrow> bool" where
  "boot_unverified v = (\<not> (vd_VerifiedBootState v = ''verified'' \<and> vd_DeviceLocked v))"

text \<open>Running the verifier: an error of the verifier becomes an unverified verdict.\<close>

definition run_verifier :: "AttestationVerifier option \<Rightarrow> AttestationArm option \<Rightarrow> AttestationBlob \<Rightarrow> Verdict option" where
  "run_verifier verifier arm a =
     (case verifier of None \<Rightarrow> None
      | Some ver \<Rightarrow>
          if ab_Token a = '''' then None
          else
            let r = (case ver of
                  AppleAppAttest f \<Rightarrow> f a (case arm of None \<Rightarrow> '''' | Some x \<Rightarrow> arm_AppID x)
                | OtherVerifier f \<Rightarrow> f a)
            in Some (case r of
                Err e \<Rightarrow> zero_verdict\<lparr>vd_Reason := ''verifier error: '' @ e\<rparr>
              | Ok v \<Rightarrow> v))"

definition verdict_attested :: "env \<Rightarrow> AttestationArm \<Rightarrow> Verdict \<Rightarrow> bool" where
  "verdict_attested E arm v =
     (let a0 = vd_Verified v;
          a1 = (if arm_RequireHardwareBacked arm \<and> \<not> vd_HardwareBacked v then False else a0);
          a2 = (if arm_RequireTrustedRoot arm \<and> \<not> vd_TrustedRoot v then False else a1);
          a3 = (if arm_RequireVerifiedBoot arm \<and> boot_unverified v then False else a2)
      in if arm_Verifier arm = android_key_attestation
         then (if identity_mismatch E arm v then False else a3)
         else a3)"

text \<open>A verdict exists only when the platform has an arm, so the third equation is never met.\<close>

fun is_attested :: "env \<Rightarrow> AttestationArm option \<Rightarrow> Verdict option \<Rightarrow> AttestationBlob \<Rightarrow> bool" where
  "is_attested E (Some arm) (Some v) a = verdict_attested E arm v"
| "is_attested E (Some arm) None a = claimsAttestation a"
| "is_attested E None (Some v) a = vd_Verified v"
| "is_attested E None None a = False"

definition bool_text :: "bool \<Rightarrow> string" where
  "bool_text b = (if b then ''true'' else ''false'')"

definition verdict_reason :: "env \<Rightarrow> AttestationArm \<Rightarrow> Verdict \<Rightarrow> string" where
  "verdict_reason E arm v =
     (let r0 = ''verifier rejected: '' @ vd_Reason v;
          r1 = (if arm_RequireHardwareBacked arm \<and> \<not> vd_HardwareBacked v
                then ''requireHardwareBacked: got '' @ vd_SecurityLevel v else r0);
          r2 = (if arm_RequireTrustedRoot arm \<and> \<not> vd_TrustedRoot v
                then ''requireTrustedRoot: chain not anchored at a trusted root'' else r1);
          r3 = (if arm_RequireVerifiedBoot arm \<and> boot_unverified v
                then ''requireVerifiedBoot: got state='' @ env_quote E (vd_VerifiedBootState v)
                     @ '' deviceLocked='' @ bool_text (vd_DeviceLocked v)
                else r2)
      in if arm_Verifier arm = android_key_attestation \<and> identity_mismatch E arm v
         then ''attestation application identity does not match the allowed Android app''
         else r3)"

fun reject_reason :: "env \<Rightarrow> AttestationArm option \<Rightarrow> Verdict option \<Rightarrow> AttestationBlob \<Rightarrow> string" where
  "reject_reason E None v a =
     ''no attestation rule for platform '' @ env_quote E (ab_Platform a) @ '' on this config''"
| "reject_reason E (Some arm) None a = ''no attestation claimed''"
| "reject_reason E (Some arm) (Some v) a = verdict_reason E arm v"

definition evaluateAttestationPolicy ::
    "env \<Rightarrow> AttestationPolicy option \<Rightarrow> AttestationBlob
     \<Rightarrow> (string \<Rightarrow> string + AttestationVerifier option) \<Rightarrow> duration \<Rightarrow> string + attestationDecision" where
  "evaluateAttestationPolicy E policy attestation lookup baseTtl =
     (case policy of None \<Rightarrow> Ok (allow_decision baseTtl None)
      | Some p \<Rightarrow>
          if pol_Mode p = AttestationModeOff then Ok (allow_decision baseTtl None)
          else
            let arm = armFor E policy (ab_Platform attestation) in
            case (case arm of
                Some a \<Rightarrow> if arm_Verifier a \<noteq> '''' then lookup (arm_Verifier a) else Ok None
              | None \<Rightarrow> Ok None)
            of Err e \<Rightarrow> Err e
            | Ok verifier \<Rightarrow>
                let verdict = run_verifier verifier arm attestation;
                    attested = is_attested E arm verdict attestation
                in
                if pol_Mode p = AttestationModeObserve then
                  Ok ((allow_decision baseTtl verdict)\<lparr>ad_logAttestation := True\<rparr>)
                else if pol_Mode p = AttestationModeSoft then
                  (if attested then Ok (allow_decision baseTtl verdict)
                   else
                     let ttl = softFailureTtl p;
                         ttl' = (if dur_less baseTtl ttl then baseTtl else ttl)
                     in Ok (allow_decision ttl' verdict))
                else if pol_Mode p = AttestationModeStrict then
                  (if attested then Ok (allow_decision baseTtl verdict)
                   else Ok \<lparr>ad_reject = True, ad_rejectReason = reject_reason E arm verdict attestation,
                     ad_ttl = baseTtl, ad_logAttestation = False, ad_verdict = verdict\<rparr>)
                else Ok (allow_decision baseTtl None))"

definition strictDeviceAttestationPolicy :: "string \<Rightarrow> AttestationPolicy" where
  "strictDeviceAttestationPolicy iosAppID =
     \<lparr>pol_Mode = AttestationModeStrict, pol_SoftFailureTtlSec = 0, pol_MaxIssuancesPerHour = 0,
      pol_Platforms =
        [(''ANDROID'', Some (zero_arm\<lparr>arm_Verifier := android_key_attestation,
            arm_RequireHardwareBacked := True, arm_RequireTrustedRoot := True, arm_RequireVerifiedBoot := True,
            arm_AndroidPackageName := defaultAndroidPackageName,
            arm_AndroidSigningCertSHA256 := defaultAndroidSigningCertSHA256\<rparr>))]
        @ (if iosAppID \<noteq> '''' then
            [(''IOS'', Some (zero_arm\<lparr>arm_Verifier := apple_app_attest,
                arm_RequireHardwareBacked := True, arm_RequireTrustedRoot := True, arm_AppID := iosAppID\<rparr>))]
           else []),
      pol_Arm = zero_arm\<rparr>"


section \<open>What counts as attested\<close>

text \<open>The chain of clearing assignments is a conjunction of the enabled requirements.\<close>

lemma verdict_attested_iff:
  "verdict_attested E arm v \<longleftrightarrow>
     vd_Verified v
     \<and> (arm_RequireHardwareBacked arm \<longrightarrow> vd_HardwareBacked v)
     \<and> (arm_RequireTrustedRoot arm \<longrightarrow> vd_TrustedRoot v)
     \<and> (arm_RequireVerifiedBoot arm \<longrightarrow> vd_VerifiedBootState v = ''verified'' \<and> vd_DeviceLocked v)
     \<and> (arm_Verifier arm = android_key_attestation \<longrightarrow>
          expectedPackage arm \<in> set (vd_AppPackageNames v)
          \<and> (\<exists>g \<in> set (vd_AppSigningCertSHA256Hex v). EqualFold (env_fold E) g (expectedDigest arm)))"
  by (auto simp: verdict_attested_def Let_def boot_unverified_def identity_mismatch_def containsString_def
      containsFold_def list_ex_iff)

lemma run_verifier_token: "run_verifier ver arm a = Some v \<Longrightarrow> ver \<noteq> None \<and> ab_Token a \<noteq> ''''"
  by (auto simp: run_verifier_def split: option.splits if_splits)

lemma run_verifier_Some: "run_verifier (Some ver) arm a = None \<longleftrightarrow> ab_Token a = ''''"
  by (simp add: run_verifier_def)

lemma claims_needs_token: "ab_Token a = '''' \<Longrightarrow> \<not> claimsAttestation a"
  by (simp add: claimsAttestation_def)

text \<open>The verifier an evaluation consults, when the platform has an arm that names one.\<close>

definition consulted ::
    "env \<Rightarrow> AttestationPolicy \<Rightarrow> AttestationBlob \<Rightarrow> (string \<Rightarrow> string + AttestationVerifier option)
     \<Rightarrow> string + AttestationVerifier option" where
  "consulted E p a lookup =
     (case armFor E (Some p) (ab_Platform a) of
        Some arm \<Rightarrow> if arm_Verifier arm \<noteq> '''' then lookup (arm_Verifier arm) else Ok None
      | None \<Rightarrow> Ok None)"

text \<open>Whether an evaluation with a given verifier deems the request attested.\<close>

definition deemed_attested :: "env \<Rightarrow> AttestationPolicy \<Rightarrow> AttestationBlob \<Rightarrow> AttestationVerifier option \<Rightarrow> bool" where
  "deemed_attested E p a ver =
     (let arm = armFor E (Some p) (ab_Platform a) in is_attested E arm (run_verifier ver arm a) a)"

text \<open>
  The abstract decision: what each mode grants, as a function of one bit. Modes other than
  the four are not rejected here; the loader of the registry refuses them.
\<close>

definition soft_ttl :: "AttestationPolicy \<Rightarrow> duration \<Rightarrow> duration" where
  "soft_ttl p base = (if dur_less base (softFailureTtl p) then base else softFailureTtl p)"

definition policy_outcome :: "AttestationPolicy \<Rightarrow> bool \<Rightarrow> duration \<Rightarrow> bool \<times> duration" where
  "policy_outcome p attested base =
     (if pol_Mode p = AttestationModeStrict \<and> \<not> attested then (True, base)
      else if pol_Mode p = AttestationModeSoft \<and> \<not> attested then (False, soft_ttl p base)
      else (False, base))"

lemma mode_distinct [simp]:
  "AttestationModeOff \<noteq> AttestationModeObserve" "AttestationModeOff \<noteq> AttestationModeSoft"
  "AttestationModeOff \<noteq> AttestationModeStrict" "AttestationModeObserve \<noteq> AttestationModeSoft"
  "AttestationModeObserve \<noteq> AttestationModeStrict" "AttestationModeSoft \<noteq> AttestationModeStrict"
  by (simp_all add: mode_defs)

lemmas mode_distinct_sym [simp] = mode_distinct [symmetric]

lemma evaluate_outcome:
  assumes "pol_Mode p \<noteq> AttestationModeOff" "evaluateAttestationPolicy E (Some p) a lookup base = Ok d"
    and "consulted E p a lookup = Ok ver"
  shows "(ad_reject d, ad_ttl d) = policy_outcome p (deemed_attested E p a ver) base"
  using assms
  by (auto simp: evaluateAttestationPolicy_def consulted_def deemed_attested_def policy_outcome_def
      soft_ttl_def allow_decision_def Let_def split: if_splits option.splits)

lemma evaluate_verdict:
  assumes "pol_Mode p \<in> {AttestationModeObserve, AttestationModeSoft, AttestationModeStrict}"
    and "evaluateAttestationPolicy E (Some p) a lookup base = Ok d" "consulted E p a lookup = Ok ver"
  shows "ad_verdict d = run_verifier ver (armFor E (Some p) (ab_Platform a)) a"
  using assms
  by (auto simp: evaluateAttestationPolicy_def consulted_def allow_decision_def Let_def
      split: if_splits option.splits)

lemma evaluate_Err_iff:
  "evaluateAttestationPolicy E (Some p) a lookup base = Err e
     \<longleftrightarrow> pol_Mode p \<noteq> AttestationModeOff \<and> consulted E p a lookup = Err e"
  by (auto simp: evaluateAttestationPolicy_def consulted_def Let_def split: if_splits option.splits sum.splits)

text \<open>A request is deemed attested by a verifier only with a verdict that meets the rule.\<close>

lemma deemed_attested_verifier:
  assumes "deemed_attested E p a (Some ver)" "armFor E (Some p) (ab_Platform a) = Some arm"
  shows "\<exists>v. run_verifier (Some ver) (Some arm) a = Some v \<and> verdict_attested E arm v"
  using assms claims_needs_token [of a]
  by (cases "run_verifier (Some ver) (Some arm) a") (auto simp: deemed_attested_def run_verifier_Some)

lemma deemed_attested_no_arm:
  "armFor E (Some p) (ab_Platform a) = None \<Longrightarrow> \<not> deemed_attested E p a None"
  by (simp add: deemed_attested_def run_verifier_def)

lemma run_verifier_verified:
  assumes "run_verifier (Some ver) (Some arm) a = Some v" "vd_Verified v"
  shows "(case ver of AppleAppAttest f \<Rightarrow> f a (arm_AppID arm) | OtherVerifier f \<Rightarrow> f a) = Ok v"
  using assms
  by (auto simp: run_verifier_def zero_verdict_def split: if_splits sum.splits AttestationVerifier.splits)

text \<open>The two rules of the "block rooted devices" policy.\<close>

lemma strict_accepted:
  assumes "evaluateAttestationPolicy E (Some p) a lookup base = Ok d"
    and "pol_Mode p = AttestationModeStrict" "\<not> ad_reject d"
    and "armFor E (Some p) (ab_Platform a) = Some arm" "arm_Verifier arm \<noteq> ''''"
    and "lookup (arm_Verifier arm) = Ok (Some ver)"
  shows "\<exists>v. ad_verdict d = Some v
    \<and> (case ver of AppleAppAttest f \<Rightarrow> f a (arm_AppID arm) | OtherVerifier f \<Rightarrow> f a) = Ok v
    \<and> ab_Token a \<noteq> '''' \<and> vd_Verified v
    \<and> (arm_RequireHardwareBacked arm \<longrightarrow> vd_HardwareBacked v)
    \<and> (arm_RequireTrustedRoot arm \<longrightarrow> vd_TrustedRoot v)
    \<and> (arm_RequireVerifiedBoot arm \<longrightarrow> vd_VerifiedBootState v = ''verified'' \<and> vd_DeviceLocked v)
    \<and> (arm_Verifier arm = android_key_attestation \<longrightarrow>
         expectedPackage arm \<in> set (vd_AppPackageNames v)
         \<and> (\<exists>g \<in> set (vd_AppSigningCertSHA256Hex v). EqualFold (env_fold E) g (expectedDigest arm)))"
proof -
  have c: "consulted E p a lookup = Ok (Some ver)" using assms(4-6) by (simp add: consulted_def)
  have "deemed_attested E p a (Some ver)"
    using evaluate_outcome [OF _ assms(1) c] assms(2,3) by (auto simp: policy_outcome_def split: if_splits)
  then obtain v where v: "run_verifier (Some ver) (Some arm) a = Some v" "verdict_attested E arm v"
    using deemed_attested_verifier assms(4) by blast
  moreover have "ad_verdict d = Some v"
    using evaluate_verdict [OF _ assms(1) c] assms(2,4) v(1) by simp
  ultimately show ?thesis
    using run_verifier_token [OF v(1)] run_verifier_verified [OF v(1)] by (auto simp: verdict_attested_iff)
qed

lemma strictDevice_arms:
  assumes "armFor E (Some (strictDeviceAttestationPolicy appId)) platform = Some arm"
  shows "arm_RequireHardwareBacked arm \<and> arm_RequireTrustedRoot arm \<and> arm_Verifier arm \<noteq> ''''
    \<and> (ToUpper (env_upper E) (TrimSpace platform) = ''ANDROID'' \<and> arm_Verifier arm = android_key_attestation
         \<and> arm_RequireVerifiedBoot arm \<and> expectedPackage arm = defaultAndroidPackageName
         \<and> expectedDigest arm = defaultAndroidSigningCertSHA256
       \<or> ToUpper (env_upper E) (TrimSpace platform) = ''IOS'' \<and> appId \<noteq> ''''
         \<and> arm_Verifier arm = apple_app_attest \<and> arm_AppID arm = appId)"
  using assms
  by (auto simp: armFor_def strictDeviceAttestationPolicy_def expectedPackage_def expectedDigest_def
      android_key_attestation_def apple_app_attest_def split: if_splits)


section \<open>Properties\<close>

definition sample_arm :: AttestationArm where
  "sample_arm = zero_arm\<lparr>arm_Verifier := ''v'', arm_RequireVerifiedBoot := True\<rparr>"

definition sample_policy :: "string \<Rightarrow> AttestationPolicy" where
  "sample_policy mode = \<lparr>pol_Mode = mode, pol_SoftFailureTtlSec = 120, pol_MaxIssuancesPerHour = 0,
     pol_Platforms = [(''ANDROID'', Some sample_arm)], pol_Arm = zero_arm\<rparr>"

definition sample_blob :: AttestationBlob where
  "sample_blob = \<lparr>ab_Platform = ''ANDROID'', ab_Token = ''t'', ab_Nonce = '''', ab_BoundDevicePk = '''', ab_Proof = ''''\<rparr>"

definition sample_verdict :: Verdict where
  "sample_verdict = zero_verdict\<lparr>vd_Verified := True, vd_HardwareBacked := True, vd_TrustedRoot := True,
     vd_VerifiedBootState := ''verified'', vd_DeviceLocked := True,
     vd_AppPackageNames := [defaultAndroidPackageName],
     vd_AppSigningCertSHA256Hex := [defaultAndroidSigningCertSHA256]\<rparr>"

definition sample_lookup :: "string \<Rightarrow> string + AttestationVerifier option" where
  "sample_lookup name =
     Ok (Some (if name = apple_app_attest then AppleAppAttest (\<lambda>b i. Ok sample_verdict)
               else OtherVerifier (\<lambda>b. Ok sample_verdict)))"

lemma ToUpper_ANDROID: "ToUpper u (TrimSpace ''ANDROID'') = ''ANDROID''"
proof -
  have "TrimSpace ''ANDROID'' = ''ANDROID''" by (rule TrimSpace_plain) (simp add: plain_char_def)
  then show ?thesis by (simp add: ToUpper_def is_ascii_def upper_char_def)
qed

lemma sample_armFor: "armFor sample_env (Some (sample_policy m)) ''ANDROID'' = Some sample_arm"
  by (simp add: armFor_def sample_policy_def ToUpper_ANDROID)

lemmas sample_policy_simps = sample_policy_def sample_blob_def sample_lookup_def sample_verdict_def
  sample_arm_def zero_verdict_def zero_arm_def

text \<open>
  C19. Strict means verified: when a strict policy has a rule with a verifier for the
  requester's platform, a request that is not rejected carried a token, the verifier vouched
  for it, and its verdict meets every requirement of the rule; for Android Key Attestation
  that includes the expected package and signing certificate.
\<close>

theorem strict_accepts_only_verified:
  assumes "evaluateAttestationPolicy E (Some p) a lookup base = Ok d"
    and "pol_Mode p = AttestationModeStrict" "\<not> ad_reject d"
    and "armFor E (Some p) (ab_Platform a) = Some arm" "arm_Verifier arm \<noteq> ''''"
    and "lookup (arm_Verifier arm) = Ok (Some ver)"
  shows "\<exists>v. ad_verdict d = Some v
    \<and> (case ver of AppleAppAttest f \<Rightarrow> f a (arm_AppID arm) | OtherVerifier f \<Rightarrow> f a) = Ok v
    \<and> ab_Token a \<noteq> '''' \<and> vd_Verified v
    \<and> (arm_RequireHardwareBacked arm \<longrightarrow> vd_HardwareBacked v)
    \<and> (arm_RequireTrustedRoot arm \<longrightarrow> vd_TrustedRoot v)
    \<and> (arm_RequireVerifiedBoot arm \<longrightarrow> vd_VerifiedBootState v = ''verified'' \<and> vd_DeviceLocked v)
    \<and> (arm_Verifier arm = android_key_attestation \<longrightarrow>
         expectedPackage arm \<in> set (vd_AppPackageNames v)
         \<and> (\<exists>g \<in> set (vd_AppSigningCertSHA256Hex v). EqualFold (env_fold E) g (expectedDigest arm)))"
  by (rule strict_accepted [OF assms])

theorem strict_accepts_only_verified_witness:
  "\<exists>v. ad_verdict (allow_decision Hour (Some sample_verdict)) = Some v \<and> vd_Verified v
    \<and> vd_VerifiedBootState v = ''verified''"
proof -
  have "evaluateAttestationPolicy sample_env (Some (sample_policy AttestationModeStrict)) sample_blob
      sample_lookup Hour = Ok (allow_decision Hour (Some sample_verdict))"
    using sample_armFor [of AttestationModeStrict]
    by (simp add: evaluateAttestationPolicy_def run_verifier_def verdict_attested_def boot_unverified_def
        android_key_attestation_def apple_app_attest_def sample_policy_simps)
  from strict_accepts_only_verified [OF this, of sample_arm "OtherVerifier (\<lambda>b. Ok sample_verdict)"]
  show ?thesis using sample_armFor [of AttestationModeStrict]
    by (auto simp: allow_decision_def apple_app_attest_def sample_policy_simps)
qed



text \<open>
  No decision lengthens a lifetime: what is granted is between zero and the base
  lifetime, and it is shorter only for an unattested request under a soft policy, where it is
  the smaller of the two. The soft lifetime must be one the source's 64-bit nanoseconds can
  hold.
\<close>

theorem granted_ttl_bounded:
  assumes "evaluateAttestationPolicy E policy a lookup base = Ok d" "0 \<le> sint base"
    and "\<And>p. policy = Some p \<Longrightarrow> pol_SoftFailureTtlSec p \<le> 9223372036"
  shows "0 \<le> sint (ad_ttl d) \<and> sint (ad_ttl d) \<le> sint base
    \<and> (ad_ttl d \<noteq> base \<longrightarrow> (\<exists>p. policy = Some p \<and> pol_Mode p = AttestationModeSoft
          \<and> ad_ttl d = softFailureTtl p))"
proof (cases "\<exists>p. policy = Some p \<and> pol_Mode p \<noteq> AttestationModeOff")
  case False
  then have "ad_ttl d = base" using assms(1)
    by (cases policy) (auto simp: evaluateAttestationPolicy_def allow_decision_def)
  then show ?thesis using assms(2) by simp
next
  case True
  then obtain p where p: "policy = Some p" "pol_Mode p \<noteq> AttestationModeOff" by blast
  obtain ver where ver: "consulted E p a lookup = Ok ver"
    using evaluate_Err_iff [of E p a lookup base] assms(1) p by (cases "consulted E p a lookup") auto
  have o: "(ad_reject d, ad_ttl d) = policy_outcome p (deemed_attested E p a ver) base"
    using evaluate_outcome [OF p(2) _ ver] assms(1) p(1) by blast
  have "0 \<le> sint (softFailureTtl p)"
    using sint_seconds [of 300] sint_seconds [of "pol_SoftFailureTtlSec p"] assms(3) [OF p(1)]
    by (auto simp: softFailureTtl_def defaultSoftFailureTtlSec_def Let_def)
  then show ?thesis using o p(1) assms(2)
    by (auto simp: policy_outcome_def soft_ttl_def dur_less_def split: if_splits)
qed

theorem granted_ttl_bounded_witness:
  "0 \<le> sint (ad_ttl (allow_decision Hour None)) \<and> sint (ad_ttl (allow_decision Hour None)) \<le> sint Hour"
  using granted_ttl_bounded [of sample_env None sample_blob sample_lookup Hour "allow_decision Hour None"]
  by (simp add: evaluateAttestationPolicy_def)

text \<open>
  Without that bound the clamp fails: a soft lifetime of 9223372037 seconds wraps to a
  negative duration, which passes the comparison with the base lifetime, so an unattested
  request is granted a configuration that expired centuries ago.
\<close>

theorem soft_ttl_overflow:
  "evaluateAttestationPolicy sample_env
     (Some (sample_policy AttestationModeSoft\<lparr>pol_SoftFailureTtlSec := 9223372037\<rparr>))
     (sample_blob\<lparr>ab_Token := ''''\<rparr>) sample_lookup Hour
   = Ok (allow_decision (- 9223372036709551616) None)
   \<and> sint (ad_ttl (allow_decision (- 9223372036709551616) None)) < 0"
proof -
  have "armFor sample_env (Some (sample_policy AttestationModeSoft\<lparr>pol_SoftFailureTtlSec := 9223372037\<rparr>)) ''ANDROID''
    = Some sample_arm"
    using sample_armFor [of AttestationModeSoft] by (simp add: armFor_def sample_policy_def)
  then show ?thesis
    by (simp add: evaluateAttestationPolicy_def run_verifier_def claimsAttestation_def softFailureTtl_def
        seconds_def duration_consts dur_less_def allow_decision_def sample_policy_simps)
qed

text \<open>
  The creator's choice "block rooted devices": under the policy it makes, with the
  registry's two verifiers, a request is accepted only from Android with a verified boot
  state, a locked bootloader, a hardware-backed key, a chain anchored at a trusted root and
  the released application's package and certificate, or from iOS, when an application
  identity was registered, with an App Attest verdict for that identity.
\<close>

theorem block_rooted_policy:
  assumes "evaluateAttestationPolicy E (Some (strictDeviceAttestationPolicy appId)) a lookup base = Ok d"
    and "\<not> ad_reject d"
    and "lookup android_key_attestation = Ok (Some (OtherVerifier aka))"
    and "lookup apple_app_attest = Ok (Some (AppleAppAttest app))"
  shows "(\<exists>v. aka a = Ok v \<and> vd_Verified v \<and> vd_HardwareBacked v \<and> vd_TrustedRoot v
        \<and> vd_VerifiedBootState v = ''verified'' \<and> vd_DeviceLocked v
        \<and> defaultAndroidPackageName \<in> set (vd_AppPackageNames v)
        \<and> ToUpper (env_upper E) (TrimSpace (ab_Platform a)) = ''ANDROID'')
    \<or> (\<exists>v. app a appId = Ok v \<and> vd_Verified v \<and> vd_HardwareBacked v \<and> vd_TrustedRoot v
        \<and> appId \<noteq> '''' \<and> ToUpper (env_upper E) (TrimSpace (ab_Platform a)) = ''IOS'')"
proof -
  let ?p = "strictDeviceAttestationPolicy appId"
  have strict: "pol_Mode ?p = AttestationModeStrict" by (simp add: strictDeviceAttestationPolicy_def)
  show ?thesis
  proof (cases "armFor E (Some ?p) (ab_Platform a)")
    case None
    then have "consulted E ?p a lookup = Ok None" by (simp add: consulted_def)
    from evaluate_outcome [OF _ assms(1) this] show ?thesis
      using strict assms(2) deemed_attested_no_arm [OF None] by (simp add: policy_outcome_def)
  next
    case (Some arm)
    note arms = strictDevice_arms [OF Some]
    then obtain ver where ver: "lookup (arm_Verifier arm) = Ok (Some ver)" using assms(3,4) by auto
    from strict_accepted [OF assms(1) strict assms(2) Some _ ver] arms ver assms(3,4)
    show ?thesis by (auto simp: android_key_attestation_def apple_app_attest_def)
  qed
qed

theorem block_rooted_policy_witness:
  "\<exists>v. (Ok sample_verdict :: string + Verdict) = Ok v \<and> vd_Verified v \<and> vd_DeviceLocked v
    \<and> defaultAndroidPackageName \<in> set (vd_AppPackageNames v)"
proof -
  have "armFor sample_env (Some (strictDeviceAttestationPolicy '''')) ''ANDROID''
    = Some (zero_arm\<lparr>arm_Verifier := android_key_attestation,
            arm_RequireHardwareBacked := True, arm_RequireTrustedRoot := True, arm_RequireVerifiedBoot := True,
            arm_AndroidPackageName := defaultAndroidPackageName,
            arm_AndroidSigningCertSHA256 := defaultAndroidSigningCertSHA256\<rparr>)"
    by (simp add: armFor_def strictDeviceAttestationPolicy_def ToUpper_ANDROID)
  then have "evaluateAttestationPolicy sample_env (Some (strictDeviceAttestationPolicy '''')) sample_blob
      sample_lookup Hour = Ok (allow_decision Hour (Some sample_verdict))"
    by (simp add: evaluateAttestationPolicy_def run_verifier_def verdict_attested_iff expectedPackage_def
        expectedDigest_def defaultAndroidPackageName_def defaultAndroidSigningCertSHA256_def
        strictDeviceAttestationPolicy_def EqualFold_def is_ascii_def
        android_key_attestation_def apple_app_attest_def sample_policy_simps)
  from block_rooted_policy [OF this, of "\<lambda>b. Ok sample_verdict" "\<lambda>b i. Ok sample_verdict"]
  show ?thesis
    by (auto simp: allow_decision_def sample_lookup_def android_key_attestation_def apple_app_attest_def)
qed

end
