(* ===== verification/Challenge.thy ===== *)
theory Challenge
  imports Sliding_Window Base64Url
begin

text \<open>
  \<^verbatim>\<open>attestation_challenge.go\<close>: the rotating attestation challenge and the cache of request
  nonces already used. Each operation runs under the mutex of its table. A read of the random
  source is an argument: whether it succeeded, and what it delivered.
\<close>

section \<open>The challenge manager\<close>

record attestationChallengeManager =
  current :: bytes
  expiresAt :: time

definition newAttestationChallengeManager :: attestationChallengeManager where
  "newAttestationChallengeManager = \<lparr>current = [], expiresAt = zero_time\<rparr>"

definition attestationChallengeLifetime :: duration where
  "attestationChallengeLifetime = 24 * Hour"

type_synonym random_read = "bool \<times> bytes"

text \<open>\<open>None\<close> is the error of the random source; the buffer has replaced the challenge by then.\<close>

definition Current ::
    "attestationChallengeManager \<Rightarrow> time \<Rightarrow> random_read
     \<Rightarrow> (bytes \<times> time) option \<times> attestationChallengeManager" where
  "Current m now rnd =
     (if current m = [] \<or> \<not> Before now (expiresAt m) then
        let m1 = m\<lparr>current := read_into 32 (snd rnd)\<rparr> in
        if \<not> fst rnd then (None, m1)
        else let m2 = m1\<lparr>expiresAt := time_add now attestationChallengeLifetime\<rparr>
             in (Some (current m2, expiresAt m2), m2)
      else (Some (current m, expiresAt m), m))"

definition Challenge_Valid :: "attestationChallengeManager \<Rightarrow> string \<Rightarrow> time \<Rightarrow> bool" where
  "Challenge_Valid m encoded now =
     (case DecodeString encoded of None \<Rightarrow> False
      | Some candidate \<Rightarrow>
          length candidate = length (current m) \<and> Before now (expiresAt m) \<and> candidate = current m)"

lemma sint_challenge_lifetime [simp]: "sint attestationChallengeLifetime = 86400000000000"
  by (simp add: attestationChallengeLifetime_def duration_consts)

text \<open>A run of the manager: the readings of the clock and of the random source.\<close>

fun challenge_run :: "attestationChallengeManager \<Rightarrow> (time \<times> random_read) list \<Rightarrow> attestationChallengeManager" where
  "challenge_run m [] = m"
| "challenge_run m ((now, rnd) # es) = challenge_run (snd (Current m now rnd)) es"

text \<open>
  What the manager holds was either drawn successfully less than a day before it expires, or
  has expired.
\<close>

definition challenge_inv :: "(time \<times> random_read) set \<Rightarrow> time \<Rightarrow> attestationChallengeManager \<Rightarrow> bool" where
  "challenge_inv drawn now m \<longleftrightarrow>
     expiresAt m \<le> now
     \<or> (\<exists>s ch. (s, True, ch) \<in> drawn \<and> current m = read_into 32 ch
           \<and> expiresAt m = time_add s attestationChallengeLifetime)"

lemma challenge_inv_mono: "challenge_inv D t m \<Longrightarrow> D \<subseteq> D' \<Longrightarrow> t \<le> t' \<Longrightarrow> challenge_inv D' t' m"
  by (auto simp: challenge_inv_def)

lemma Current_inv:
  assumes "challenge_inv D t m" "t \<le> now"
  shows "challenge_inv (insert (now, rnd) D) now (snd (Current m now rnd))"
proof (cases rnd)
  case (Pair ok buf)
  then show ?thesis using assms
    by (cases ok) (auto simp: challenge_inv_def Current_def Let_def Before_def)
qed

lemma challenge_run_inv:
  assumes "challenge_inv D t m" "sorted (t # map fst es)"
  shows "challenge_inv (D \<union> set es) (last (t # map fst es)) (challenge_run m es)"
  using assms
proof (induction es arbitrary: D t m)
  case Nil
  then show ?case by simp
next
  case (Cons e es)
  obtain now rnd where e: "e = (now, rnd)" by (cases e)
  have "challenge_inv (insert e D) now (snd (Current m now rnd))"
    using Current_inv [OF Cons.prems(1)] Cons.prems(2) e by simp
  from Cons.IH [OF this] show ?case using Cons.prems(2) e by simp
qed

lemma Current_issued:
  "Current m now rnd = (Some (ch, ex), m') \<Longrightarrow> ch = current m' \<and> ex = expiresAt m'"
  by (auto simp: Current_def Let_def split: if_splits)


section \<open>The replay cache\<close>

record replayCache =
  used :: "string \<rightharpoonup> time"

definition newReplayCache :: replayCache where
  "newReplayCache = \<lparr>used = Map.empty\<rparr>"

definition Use :: "replayCache \<Rightarrow> string \<Rightarrow> time \<Rightarrow> duration \<Rightarrow> bool \<times> replayCache" where
  "Use c key now ttl =
     (if (case used c key of None \<Rightarrow> False | Some expires \<Rightarrow> Before now expires) then (False, c)
      else
        let live = (\<lambda>existing. case used c existing of None \<Rightarrow> None
              | Some expires \<Rightarrow> if \<not> Before now expires then None else Some expires)
        in (True, c\<lparr>used := live(key \<mapsto> time_add now ttl)\<rparr>))"

text \<open>The one lifetime the server uses (\<^verbatim>\<open>handleIssue\<close>).\<close>

definition replayLifetime :: duration where
  "replayLifetime = 25 * Hour"

definition live_use :: "duration \<Rightarrow> replayCache \<Rightarrow> time \<Rightarrow> string \<Rightarrow> time list" where
  "live_use ttl c t key =
     (case used c key of None \<Rightarrow> [] | Some e \<Rightarrow> if t < e then [e - sint ttl] else [])"

definition use_step :: "duration \<Rightarrow> replayCache \<Rightarrow> time \<Rightarrow> string \<Rightarrow> bool \<times> replayCache" where
  "use_step ttl c now key = Use c key now ttl"

lemma Use_ok: "fst (Use c key now ttl) \<longleftrightarrow> live_use ttl c now key = []"
  by (auto simp: Use_def live_use_def Before_def split: option.splits)

lemma replay_sliding_window:
  "sliding_window (use_step ttl) (\<lambda>c t. c) (live_use ttl) (\<lambda>k. 1) (sint ttl) newReplayCache"
proof
  fix s t t' k k'
  show "fst (use_step ttl s t k) \<longleftrightarrow> length (live_use ttl s t k) < 1"
    using Use_ok by (simp add: use_step_def)
  show "live_use ttl (snd (use_step ttl s t k)) t' k' = live_use ttl s t' k' @
      (if k' = k \<and> fst (use_step ttl s t k) \<and> t' - sint ttl < t then [t] else [])" if "t \<le> t'"
    using that by (auto simp: use_step_def Use_def live_use_def Let_def Before_def time_add_def split: option.splits)
  show "live_use ttl s t' k = live_use ttl s t' k" if "t \<le> t'" by (rule refl)
  show "live_use ttl newReplayCache t k = []"
    by (simp add: live_use_def newReplayCache_def)
qed

interpretation replay: sliding_window
    "use_step replayLifetime" "\<lambda>c t. c" "live_use replayLifetime" "\<lambda>k. 1" "sint replayLifetime"
    newReplayCache
  by (rule replay_sliding_window)


section \<open>Properties\<close>

text \<open>
  A challenge handed out is honoured until the instant it was announced to expire: in
  its base64url form it is valid at every earlier instant, also after further requests for
  the current challenge before that instant, which hand out the same one.
\<close>

theorem challenge_honoured:
  assumes "Current m now rnd = (Some (ch, ex), m')" and "ch \<noteq> []" and "now' < ex"
  shows "Current m' now' rnd' = (Some (ch, ex), m') \<and> Challenge_Valid m' (EncodeToString ch) now'"
  using Current_issued [OF assms(1)] assms(2,3)
  by (auto simp: Current_def Challenge_Valid_def Before_def Decode_Encode)

theorem challenge_honoured_witness:
  "Current \<lparr>current = read_into 32 [7], expiresAt = 86400000000003\<rparr> 9 (True, [8])
     = (Some (read_into 32 [7], 86400000000003), \<lparr>current = read_into 32 [7], expiresAt = 86400000000003\<rparr>)
   \<and> Challenge_Valid \<lparr>current = read_into 32 [7], expiresAt = 86400000000003\<rparr>
       (EncodeToString (read_into 32 [7])) 9"
proof -
  have "Current newAttestationChallengeManager 3 (True, [7])
    = (Some (read_into 32 [7], 86400000000003), \<lparr>current = read_into 32 [7], expiresAt = 86400000000003\<rparr>)"
    by (simp add: Current_def newAttestationChallengeManager_def time_add_def)
  from challenge_honoured [OF this] show ?thesis by (simp add: read_into_def)
qed

text \<open>
  Nothing else is valid: along a run with a clock that does not go back, a text is
  accepted only if it decodes to bytes the manager drew, successfully, less than 24 hours ago.
  In particular a manager that has issued no challenge, or whose random source has failed,
  accepts nothing.
\<close>

theorem challenge_sound:
  assumes "sorted (zero_time # map fst es @ [t])"
    and "Challenge_Valid (challenge_run newAttestationChallengeManager es) txt t"
  shows "\<exists>s ch. (s, True, ch) \<in> set es \<and> DecodeString txt = Some (read_into 32 ch)
    \<and> t < time_add s attestationChallengeLifetime"
proof -
  let ?m = "challenge_run newAttestationChallengeManager es"
  have "challenge_inv {} zero_time newAttestationChallengeManager"
    by (simp add: challenge_inv_def newAttestationChallengeManager_def)
  moreover have "sorted (zero_time # map fst es)" and "last (zero_time # map fst es) \<le> t"
    using assms(1) last_in_set [of "zero_time # map fst es"] by (auto simp: sorted_append)
  ultimately have "challenge_inv (set es) t ?m"
    using challenge_run_inv [of "{}" zero_time] challenge_inv_mono by (metis Un_empty_left subset_refl)
  with assms(2) show ?thesis
    by (auto simp: challenge_inv_def Challenge_Valid_def Before_def split: option.splits) blast
qed

theorem challenge_sound_witness:
  "\<exists>s ch. (s, True, ch) \<in> set [(3, True, [7])]
    \<and> DecodeString (EncodeToString (read_into 32 [7])) = Some (read_into 32 ch)
    \<and> 9 < time_add s attestationChallengeLifetime"
  by (rule challenge_sound)
    (simp_all add: zero_time_def Challenge_Valid_def Decode_Encode Current_def Before_def time_add_def
      newAttestationChallengeManager_def read_into_def)

text \<open>
  A request nonce is good once: along a run with a clock that does not go back, no 25
  hours hold two accepted uses of the same key, although the cache forgets expired keys.
\<close>

theorem replay_once_per_lifetime:
  assumes "sorted (map event_time es)"
  shows "window_count (sint replayLifetime)
    (window_run (use_step replayLifetime) (\<lambda>c t. c) newReplayCache es) key t \<le> 1"
  using assms by (rule replay.run_window_bound)

theorem replay_once_per_lifetime_witness:
  "window_count (sint replayLifetime)
    (window_run (use_step replayLifetime) (\<lambda>c t. c) newReplayCache
      [Admit 1 ''a'', Admit 2 ''b'', Admit 3 ''a'']) ''a'' 9 \<le> 1"
  by (rule replay_once_per_lifetime) simp

end
