(* ===== verification/Registry.thy ===== *)
theory Registry
  imports Tokens Policy Challenge
begin

text \<open>
  The configuration registry and the start of the server in \<^verbatim>\<open>state.go\<close>: loading and
  hot-reloading \<^verbatim>\<open>configs.json\<close>, the persisted signing key and audit salt, and
  \<^verbatim>\<open>NewStateWithDir\<close>, which puts them together. The registry of verifiers is an argument.
\<close>

section \<open>The verifiers the server knows\<close>

definition newVerifierRegistry ::
    "(AttestationBlob \<Rightarrow> string + Verdict) \<Rightarrow> (AttestationBlob \<Rightarrow> string \<Rightarrow> string + Verdict) \<Rightarrow> verifierRegistry" where
  "newVerifierRegistry akaVerifier appAttest =
     [(''android-key-attestation'', OtherVerifier akaVerifier), (''apple-app-attest'', AppleAppAttest appAttest)]"

definition newVerifierRegistryWithRoots :: "(AttestationBlob \<Rightarrow> string + Verdict) \<Rightarrow> verifierRegistry" where
  "newVerifierRegistryWithRoots akaVerifier = [(''android-key-attestation'', OtherVerifier akaVerifier)]"

definition newVerifierRegistryWithAppAttestRoots ::
    "(AttestationBlob \<Rightarrow> string \<Rightarrow> string + Verdict) \<Rightarrow> verifierRegistry" where
  "newVerifierRegistryWithAppAttestRoots appAttest = [(''apple-app-attest'', AppleAppAttest appAttest)]"


section \<open>Loading configs.json\<close>

definition entry_prefix :: "nat \<Rightarrow> ConfigEntry \<Rightarrow> string" where
  "entry_prefix i entry = ''entry '' @ Itoa (int i) @ '' (configId='' @ ce_ConfigID entry @ '')''"

definition check_policy :: "env \<Rightarrow> verifierRegistry \<Rightarrow> string \<Rightarrow> AttestationPolicy \<Rightarrow> string option" where
  "check_policy E reg pre p =
     (if \<not> validAttestationMode (pol_Mode p)
      then Some (pre @ '' attestationPolicy.mode = '' @ env_quote E (pol_Mode p) @ '': must be off|observe|soft|strict'')
      else if pol_SoftFailureTtlSec p < 0
      then Some (pre @ '' attestationPolicy.softFailureTtlSec = '' @ Itoa (pol_SoftFailureTtlSec p) @ '': must be >= 0'')
      else if arm_Verifier (pol_Arm p) \<noteq> '''' then
        (case Verifier_Lookup E reg (arm_Verifier (pol_Arm p)) of
           Err e \<Rightarrow> Some (pre @ '' attestationPolicy.verifier: '' @ e)
         | Ok _ \<Rightarrow>
             if arm_Verifier (pol_Arm p) = ''apple-app-attest'' \<and> arm_AppID (pol_Arm p) = ''''
             then Some (pre @ '' attestationPolicy.verifier=apple-app-attest requires policy.appId (TEAMID.bundle.id)'')
             else None)
      else None)"

definition check_ttl :: "string \<Rightarrow> int \<Rightarrow> string option" where
  "check_ttl pre ttl =
     (if ttl \<noteq> 0 then
        let minSec = whole_seconds configTtlMin; maxSec = whole_seconds configTtlMax in
        if ttl < minSec \<or> maxSec < ttl
        then Some (pre @ '' configTtlSec = '' @ Itoa ttl @ '': must be 0 (default) or within ['' @ Itoa minSec
          @ '', '' @ Itoa maxSec @ ''] seconds'')
        else None
      else None)"

definition check_config_entry ::
    "env \<Rightarrow> json \<Rightarrow> verifierRegistry \<Rightarrow> nat \<Rightarrow> (string \<rightharpoonup> ConfigEntry) \<Rightarrow> ConfigEntry \<Rightarrow> string option" where
  "check_config_entry E J reg i out entry =
     (let pre = entry_prefix i entry in
      if ce_ConfigID entry = '''' then Some (''entry '' @ Itoa (int i) @ '': missing configId'')
      else case DecodeString (ce_ConfigID entry) of
        None \<Rightarrow> Some (pre @ '': not valid base64url-no-pad'')
      | Some cid \<Rightarrow>
          if length cid \<noteq> 16
          then Some (pre @ '': decodes to '' @ Itoa (int (length cid)) @ '' bytes; want 16 (config IDs are generated by the dashboard)'')
          else if out (ce_ConfigID entry) \<noteq> None
          then Some (''entry '' @ Itoa (int i) @ '': duplicate configId '' @ ce_ConfigID entry)
          else if ce_Config entry = [] then Some (pre @ '': missing required field config'')
          else if \<not> js_into_map J (ce_Config entry) then Some (pre @ '' config: not a JSON object'')
          else case (case ce_AttestationPolicy entry of None \<Rightarrow> None | Some p \<Rightarrow> check_policy E reg pre p) of
            Some e \<Rightarrow> Some e
          | None \<Rightarrow> check_ttl pre (ce_ConfigTtlSec entry))"

text \<open>A missing file is no registry at all.\<close>

definition loadConfigsFile ::
    "env \<Rightarrow> json \<Rightarrow> verifierRegistry \<Rightarrow> disk \<Rightarrow> fsys \<Rightarrow> string \<Rightarrow> string + (string \<rightharpoonup> ConfigEntry) option" where
  "loadConfigsFile E J reg dk fs path =
     (case os_ReadFile dk fs path of
        Read_NotExist \<Rightarrow> Ok None
      | Read_Error \<Rightarrow> Err ''read''
      | Read_Data data \<Rightarrow>
          (case js_unmarshal_configs J data of
             None \<Rightarrow> Err ''parse json''
           | Some list \<Rightarrow>
               (case load_loop ce_ConfigID (check_config_entry E J reg) 0 Map.empty list of
                  Err e \<Rightarrow> Err e
                | Ok out \<Rightarrow> Ok (Some out))))"

definition ConfigByID :: "State \<Rightarrow> string \<Rightarrow> ConfigEntry option" where
  "ConfigByID s configID = (case st_configs s of None \<Rightarrow> None | Some m \<Rightarrow> m configID)"

definition HasConfigRegistry :: "State \<Rightarrow> bool" where
  "HasConfigRegistry s = (st_configs s \<noteq> None)"

definition ReloadConfigsIfChanged ::
    "env \<Rightarrow> json \<Rightarrow> verifierRegistry \<Rightarrow> disk \<Rightarrow> State \<Rightarrow> fsys \<Rightarrow> string option \<times> State \<times> fsys" where
  "ReloadConfigsIfChanged E J reg dk s fs =
     (let path = st_configsPath s; lastMtime = st_configsMtime s in
      if path = '''' then (None, s, fs)
      else case os_Stat dk fs path of
        Stat_NotExist \<Rightarrow> (None, s, fs)
      | Stat_Error \<Rightarrow> (Some (''stat '' @ path), s, fs)
      | Stat_Time mt \<Rightarrow>
          if \<not> After mt lastMtime then (None, s, fs)
          else
            let fs' = dk_between dk fs; s' = s\<lparr>st_configsMtime := mt\<rparr> in
            case loadConfigsFile E J reg dk fs' path of
              Err e \<Rightarrow> (Some (''reload configs.json (keeping last-good registry): '' @ e), s', fs')
            | Ok fresh \<Rightarrow> (None, s'\<lparr>st_configs := fresh\<rparr>, fs'))"


section \<open>What a loaded entry satisfies\<close>

definition valid_policy :: "env \<Rightarrow> verifierRegistry \<Rightarrow> AttestationPolicy \<Rightarrow> bool" where
  "valid_policy E reg p =
     (pol_Mode p \<in> {AttestationModeOff, AttestationModeObserve, AttestationModeSoft, AttestationModeStrict} \<and>
      0 \<le> pol_SoftFailureTtlSec p \<and>
      (arm_Verifier (pol_Arm p) = '''' \<or> arm_Verifier (pol_Arm p) \<in> set (knownNames reg)) \<and>
      (arm_Verifier (pol_Arm p) = ''apple-app-attest'' \<longrightarrow> arm_AppID (pol_Arm p) \<noteq> ''''))"

definition valid_entry :: "env \<Rightarrow> json \<Rightarrow> verifierRegistry \<Rightarrow> ConfigEntry \<Rightarrow> bool" where
  "valid_entry E J reg entry =
     ((\<exists>cid. DecodeString (ce_ConfigID entry) = Some cid \<and> length cid = 16) \<and>
      ce_Config entry \<noteq> [] \<and> js_into_map J (ce_Config entry) \<and>
      (\<forall>p. ce_AttestationPolicy entry = Some p \<longrightarrow> valid_policy E reg p) \<and>
      (ce_ConfigTtlSec entry = 0 \<or> 60 \<le> ce_ConfigTtlSec entry \<and> ce_ConfigTtlSec entry \<le> 604800))"

lemma ttl_bounds: "whole_seconds configTtlMin = 60" "whole_seconds configTtlMax = 604800"
  by (simp_all add: whole_seconds_def configTtlMin_def configTtlMax_def duration_consts quot_def)

lemma Lookup_Err_iff:
  "name \<noteq> '''' \<Longrightarrow> (\<exists>e. Verifier_Lookup E reg name = Err e) \<longleftrightarrow> name \<notin> set (knownNames reg)"
  using map_of_eq_None_iff [of reg name]
  by (auto simp: Verifier_Lookup_def knownNames_def split: option.splits)

lemma check_policy_iff: "check_policy E reg pre p = None \<longleftrightarrow> valid_policy E reg p"
proof (cases "arm_Verifier (pol_Arm p) = ''''")
  case True
  then show ?thesis
    by (auto simp: check_policy_def valid_policy_def validAttestationMode_def)
next
  case False
  show ?thesis
    using False Lookup_Err_iff [OF False, of E reg]
    by (cases "Verifier_Lookup E reg (arm_Verifier (pol_Arm p))")
      (auto simp: check_policy_def valid_policy_def validAttestationMode_def)
qed

lemma check_ttl_iff: "check_ttl pre ttl = None \<longleftrightarrow> ttl = 0 \<or> 60 \<le> ttl \<and> ttl \<le> 604800"
  by (auto simp: check_ttl_def ttl_bounds Let_def)

lemma DecodeString_Nil: "DecodeString '''' = Some []"
  using Decode_Encode [of "[]"] by (simp add: EncodeToString_def)

lemma check_config_entry_iff:
  "check_config_entry E J reg i out v = None \<longleftrightarrow> valid_entry E J reg v \<and> out (ce_ConfigID v) = None"
proof (cases "DecodeString (ce_ConfigID v)")
  case None
  then show ?thesis using DecodeString_Nil
    by (auto simp: check_config_entry_def valid_entry_def Let_def)
next
  case (Some cid)
  have c: "ce_ConfigID v = '''' \<Longrightarrow> cid = []" using Some DecodeString_Nil by simp
  show ?thesis
  proof (cases "ce_AttestationPolicy v")
    case None
    then show ?thesis using Some c
      by (auto simp: check_config_entry_def valid_entry_def Let_def check_ttl_iff)
  next
    case (Some p)
    then show ?thesis using \<open>DecodeString _ = _\<close> c check_policy_iff [of E reg "entry_prefix i v" p]
      by (cases "check_policy E reg (entry_prefix i v) p")
        (auto simp: check_config_entry_def valid_entry_def Let_def check_ttl_iff)
  qed
qed

interpretation config_file: registry_loader ce_ConfigID "check_config_entry E J reg" "valid_entry E J reg" for E J reg
  by unfold_locales (rule check_config_entry_iff)

definition configs_ok :: "env \<Rightarrow> json \<Rightarrow> verifierRegistry \<Rightarrow> (string \<rightharpoonup> ConfigEntry) option \<Rightarrow> bool" where
  "configs_ok E J reg cs =
     (\<forall>m k e. cs = Some m \<longrightarrow> m k = Some e \<longrightarrow> ce_ConfigID e = k \<and> valid_entry E J reg e)"

lemma loadConfigsFile_ok:
  assumes "loadConfigsFile E J reg dk fs path = Ok cs"
  shows "configs_ok E J reg cs"
  using assms config_file.loaded_entry [of E J reg]
  by (auto simp: loadConfigsFile_def configs_ok_def split: read_result.splits option.splits sum.splits)

lemma Reload_configs_cases:
  assumes "ReloadConfigsIfChanged E J reg dk s fs = (e, s', fs')"
  obtains (kept) "s' = s" "fs' = fs" "e = None \<or> \<not> dk_stat dk"
  | (loaded) mt where "os_Stat dk fs (st_configsPath s) = Stat_Time mt" "After mt (st_configsMtime s)" "e = None"
      "loadConfigsFile E J reg dk fs' (st_configsPath s) = Ok (st_configs s')"
      "s' = s\<lparr>st_configsMtime := mt, st_configs := st_configs s'\<rparr>" "fs' = dk_between dk fs"
  | (refused) mt where "os_Stat dk fs (st_configsPath s) = Stat_Time mt" "After mt (st_configsMtime s)" "e \<noteq> None"
      "s' = s\<lparr>st_configsMtime := mt\<rparr>" "fs' = dk_between dk fs"
proof (cases "st_configsPath s = '''' \<or> \<not> (\<exists>mt. os_Stat dk fs (st_configsPath s) = Stat_Time mt \<and> After mt (st_configsMtime s))")
  case True
  then show ?thesis using assms
    by (intro kept) (auto simp: ReloadConfigsIfChanged_def Let_def os_Stat_def split: if_splits stat_result.splits option.splits)
next
  case False
  then obtain mt where mt: "os_Stat dk fs (st_configsPath s) = Stat_Time mt" "After mt (st_configsMtime s)" by blast
  show ?thesis
  proof (cases "loadConfigsFile E J reg dk (dk_between dk fs) (st_configsPath s)")
    case (Inl x)
    then show ?thesis using assms mt False by (intro refused [OF mt]) (auto simp: ReloadConfigsIfChanged_def Let_def)
  next
    case (Inr x)
    then show ?thesis using assms mt False by (intro loaded [OF mt]) (auto simp: ReloadConfigsIfChanged_def Let_def)
  qed
qed


section \<open>The persisted identity\<close>

datatype parsed_key = ECDSA_key PrivateKey | Other_key

text \<open>Key generation, PKCS#8 and PEM, from \<^verbatim>\<open>crypto/x509\<close> and \<^verbatim>\<open>encoding/pem\<close>.\<close>

record keystore =
  ks_GenerateKey :: "bytes \<Rightarrow> PrivateKey option"
  ks_MarshalPKCS8 :: "PrivateKey \<Rightarrow> bytes option"
  ks_ParsePKCS8 :: "bytes \<Rightarrow> parsed_key option"
  ks_EncodePem :: "string \<Rightarrow> bytes \<Rightarrow> bytes"
  ks_DecodePem :: "bytes \<Rightarrow> (string \<times> bytes) option"

definition loadOrCreateAuditSalt :: "disk \<Rightarrow> fsys \<Rightarrow> string \<Rightarrow> random_read \<Rightarrow> (string + bytes) \<times> fsys" where
  "loadOrCreateAuditSalt dk fs path rnd =
     (case os_ReadFile dk fs path of
        Read_Error \<Rightarrow> (Err (''read '' @ path), fs)
      | Read_NotExist \<Rightarrow>
          if \<not> fst rnd then (Err ''generate audit salt'', fs)
          else
            let salt = read_into 32 (snd rnd) in
            (case atomicWriteFile (dk_io dk) fs path salt 384 of
               (Some e, fs') \<Rightarrow> (Err (''write '' @ path @ '': '' @ e), fs')
             | (None, fs') \<Rightarrow> (Ok salt, fs'))
      | Read_Data data \<Rightarrow>
          if length data \<noteq> 32 then (Err (path @ '': want 32 bytes, got '' @ Itoa (int (length data)) @ '' (corrupt?)''), fs)
          else (Ok data, fs))"

definition loadOrCreateCreatorKey ::
    "keystore \<Rightarrow> disk \<Rightarrow> fsys \<Rightarrow> string \<Rightarrow> bytes \<Rightarrow> (string + PrivateKey \<times> bool) \<times> fsys" where
  "loadOrCreateCreatorKey K dk fs path rnd =
     (case os_ReadFile dk fs path of
        Read_Error \<Rightarrow> (Err (''read '' @ path), fs)
      | Read_NotExist \<Rightarrow>
          (case ks_GenerateKey K rnd of
             None \<Rightarrow> (Err ''generate key'', fs)
           | Some priv \<Rightarrow>
               (case ks_MarshalPKCS8 K priv of
                  None \<Rightarrow> (Err ''marshal key'', fs)
                | Some der \<Rightarrow>
                    let blob = ks_EncodePem K ''PRIVATE KEY'' der in
                    (case atomicWriteFile (dk_io dk) fs path blob 384 of
                       (Some e, fs') \<Rightarrow> (Err (''write '' @ path @ '': '' @ e), fs')
                     | (None, fs') \<Rightarrow> (Ok (priv, True), fs'))))
      | Read_Data data \<Rightarrow>
          (case ks_DecodePem K data of
             None \<Rightarrow> (Err (path @ '': not a PEM PRIVATE KEY block''), fs)
           | Some (type, der) \<Rightarrow>
               if type \<noteq> ''PRIVATE KEY'' then (Err (path @ '': not a PEM PRIVATE KEY block''), fs)
               else case ks_ParsePKCS8 K der of
                 None \<Rightarrow> (Err ''parse PKCS8'', fs)
               | Some Other_key \<Rightarrow> (Err (path @ '': not an ECDSA key''), fs)
               | Some (ECDSA_key priv) \<Rightarrow>
                   if pk_Curve (sk_Public priv) \<noteq> P256 then (Err (path @ '': not P-256''), fs)
                   else (Ok (priv, False), fs)))"

definition KeyGenerationPanic :: string where "KeyGenerationPanic = ''panic: ecdsa.GenerateKey''"
definition SaltPanic :: string where "SaltPanic = ''panic: rand.Read for audit salt''"

definition NewState :: "keystore \<Rightarrow> bytes \<Rightarrow> random_read \<Rightarrow> string + State" where
  "NewState K keyRnd saltRnd =
     (case ks_GenerateKey K keyRnd of
        None \<Rightarrow> Err KeyGenerationPanic
      | Some priv \<Rightarrow>
          if \<not> fst saltRnd then Err SaltPanic
          else Ok \<lparr>st_CreatorSigningKey = priv, st_AuditSalt = read_into 32 (snd saltRnd), st_stateDir = '''',
              st_configs = None, st_configsPath = '''', st_configsMtime = zero_time, st_keyCreated = False,
              st_issuanceLimiter = newRateLimiter, st_PublicIssuerURL = '''',
              st_redemptionTokens = Map.empty, st_redemptionTokensPath = '''', st_redemptionTokensMtime = zero_time,
              st_redemptionLimiter = newRateLimiter, st_TrustedProxies = []\<rparr>)"

text \<open>The modification time remembered at start: that of the file, as far as \<open>os.Stat\<close> tells.\<close>

definition initial_mtime :: "disk \<Rightarrow> fsys \<Rightarrow> string \<Rightarrow> time" where
  "initial_mtime dk fs path = (case os_Stat dk fs path of Stat_Time t \<Rightarrow> t | _ \<Rightarrow> zero_time)"

text \<open>
  Starting on a directory. The four files have outcomes of their own; other processes may act
  between the load of a registry and the \<open>os.Stat\<close> after it.
\<close>

record startup =
  su_mkdir :: bool
  su_key :: disk
  su_salt :: disk
  su_configs :: disk
  su_tokens :: disk
  su_keyRnd :: bytes
  su_saltRnd :: random_read

definition in_dir :: "string \<Rightarrow> string \<Rightarrow> string" where
  "in_dir dir name = dir @ ''/'' @ name"

definition NewStateWithDir ::
    "env \<Rightarrow> json \<Rightarrow> verifierRegistry \<Rightarrow> keystore \<Rightarrow> startup \<Rightarrow> fsys \<Rightarrow> string \<Rightarrow> (string + State) \<times> fsys" where
  "NewStateWithDir E J reg K su fs dir =
     (if dir = '''' then (NewState K (su_keyRnd su) (su_saltRnd su), fs)
      else if \<not> su_mkdir su then (Err ''create state dir'', fs)
      else case loadOrCreateCreatorKey K (su_key su) fs (in_dir dir ''creator-key.pem'') (su_keyRnd su) of
        (Err e, fs1) \<Rightarrow> (Err (''creator key: '' @ e), fs1)
      | (Ok (priv, keyCreated), fs1) \<Rightarrow>
          (case loadOrCreateAuditSalt (su_salt su) fs1 (in_dir dir ''audit-salt.bin'') (su_saltRnd su) of
             (Err e, fs2) \<Rightarrow> (Err (''audit salt: '' @ e), fs2)
           | (Ok auditSalt, fs2) \<Rightarrow>
               let configsPath = in_dir dir ''configs.json'' in
               (case loadConfigsFile E J reg (su_configs su) fs2 configsPath of
                  Err e \<Rightarrow> (Err (''configs.json: '' @ e), fs2)
                | Ok configs \<Rightarrow>
                    let fs3 = dk_between (su_configs su) fs2;
                        configsMtime = initial_mtime (su_configs su) fs3 configsPath;
                        tokensPath = in_dir dir ''redemption-tokens.json''
                    in (case loadRedemptionTokensFile J (su_tokens su) fs3 tokensPath of
                       Err e \<Rightarrow> (Err (''redemption-tokens.json: '' @ e), fs3)
                     | Ok tokens \<Rightarrow>
                         let fs4 = dk_between (su_tokens su) fs3;
                             tokensMtime = initial_mtime (su_tokens su) fs4 tokensPath
                         in (Ok \<lparr>st_CreatorSigningKey = priv, st_AuditSalt = auditSalt, st_stateDir = dir,
                               st_configs = configs, st_configsPath = configsPath, st_configsMtime = configsMtime,
                               st_keyCreated = keyCreated, st_issuanceLimiter = newRateLimiter,
                               st_PublicIssuerURL = '''', st_redemptionTokens = tokens,
                               st_redemptionTokensPath = tokensPath, st_redemptionTokensMtime = tokensMtime,
                               st_redemptionLimiter = newRateLimiter, st_TrustedProxies = []\<rparr>, fs4)))))"


section \<open>The invariant of the state\<close>

definition state_ok :: "env \<Rightarrow> json \<Rightarrow> verifierRegistry \<Rightarrow> State \<Rightarrow> bool" where
  "state_ok E J reg s =
     (tokens_wf (st_redemptionTokens s) \<and> configs_ok E J reg (st_configs s) \<and> length (st_AuditSalt s) = 32 \<and>
      pk_Curve (sk_Public (st_CreatorSigningKey s)) = P256)"

text \<open>What key generation promises: keys on P-256.\<close>

definition generates_P256 :: "keystore \<Rightarrow> bool" where
  "generates_P256 K = (\<forall>rnd priv. ks_GenerateKey K rnd = Some priv \<longrightarrow> pk_Curve (sk_Public priv) = P256)"

lemma loadOrCreateCreatorKey_P256:
  "generates_P256 K \<Longrightarrow> loadOrCreateCreatorKey K dk fs path rnd = (Ok (priv, c), fs') \<Longrightarrow> pk_Curve (sk_Public priv) = P256"
  by (auto simp: loadOrCreateCreatorKey_def generates_P256_def Let_def
      split: read_result.splits option.splits prod.splits if_splits parsed_key.splits)

lemma loadOrCreateAuditSalt_length:
  "loadOrCreateAuditSalt dk fs path rnd = (Ok salt, fs') \<Longrightarrow> length salt = 32"
  by (auto simp: loadOrCreateAuditSalt_def Let_def split: read_result.splits option.splits prod.splits if_splits)

lemma NewStateWithDir_cases:
  assumes "NewStateWithDir E J reg K su fs dir = (Ok s, fs')" "dir \<noteq> ''''"
  obtains fs1 fs2 where
    "loadOrCreateCreatorKey K (su_key su) fs (in_dir dir ''creator-key.pem'') (su_keyRnd su)
       = (Ok (st_CreatorSigningKey s, st_keyCreated s), fs1)"
    "loadOrCreateAuditSalt (su_salt su) fs1 (in_dir dir ''audit-salt.bin'') (su_saltRnd su) = (Ok (st_AuditSalt s), fs2)"
    "loadConfigsFile E J reg (su_configs su) fs2 (in_dir dir ''configs.json'') = Ok (st_configs s)"
    "loadRedemptionTokensFile J (su_tokens su) (dk_between (su_configs su) fs2) (in_dir dir ''redemption-tokens.json'')
       = Ok (st_redemptionTokens s)"
  using assms
  by (auto simp: NewStateWithDir_def Let_def split: if_splits prod.splits sum.splits)

lemma ops_keep_state_ok:
  assumes "state_ok E J reg s"
  shows "state_ok E J reg (fst (snd (ReloadConfigsIfChanged E J reg dk s fs)))"
proof -
  obtain e s' fs' where r: "ReloadConfigsIfChanged E J reg dk s fs = (e, s', fs')" by (metis prod_cases3)
  have "state_ok E J reg s'"
    using r
  proof (cases rule: Reload_configs_cases)
    case kept
    then show ?thesis using assms by simp
  next
    case (loaded mt)
    have "st_redemptionTokens s' = st_redemptionTokens s" "st_AuditSalt s' = st_AuditSalt s"
      "st_CreatorSigningKey s' = st_CreatorSigningKey s" by (subst loaded(5), simp)+
    then show ?thesis using assms loadConfigsFile_ok [OF loaded(4)] by (simp add: state_ok_def)
  next
    case (refused mt)
    then show ?thesis using assms by (simp add: state_ok_def)
  qed
  then show ?thesis by (simp add: r)
qed

section \<open>Every state the server can be in\<close>

text \<open>
  A process starts on a directory and then, in any order and with any outcomes of the disk,
  reloads its registries, charges, adds and removes tokens and sweeps its limiters, while other
  processes change the file system as they like.
\<close>

inductive server_reachable :: "env \<Rightarrow> json \<Rightarrow> verifierRegistry \<Rightarrow> keystore \<Rightarrow> State \<Rightarrow> fsys \<Rightarrow> bool"
  for E J reg K where
  start: "NewStateWithDir E J reg K su fs0 dir = (Ok s, fs) \<Longrightarrow> server_reachable E J reg K s fs"
| reload_configs: "server_reachable E J reg K s fs \<Longrightarrow> ReloadConfigsIfChanged E J reg dk s fs = (e, s', fs') \<Longrightarrow>
    server_reachable E J reg K s' fs'"
| reload_tokens: "server_reachable E J reg K s fs \<Longrightarrow> ReloadRedemptionTokensIfChanged J dk s fs = (e, s', fs') \<Longrightarrow>
    server_reachable E J reg K s' fs'"
| consume: "server_reachable E J reg K s fs \<Longrightarrow> ConsumeRedemptionToken E J dk ord s fs token now = (r, s', fs') \<Longrightarrow>
    server_reachable E J reg K s' fs'"
| add: "server_reachable E J reg K s fs \<Longrightarrow> AddRedemptionToken J dk ord s fs entry = (err, s', fs') \<Longrightarrow>
    server_reachable E J reg K s' fs'"
| remove: "server_reachable E J reg K s fs \<Longrightarrow> RemoveRedemptionToken J dk ord s fs token = (ok, s', fs') \<Longrightarrow>
    server_reachable E J reg K s' fs'"
| sweep: "server_reachable E J reg K s fs \<Longrightarrow> server_reachable E J reg K (SweepRateLimiters s now window) fs"
| others: "server_reachable E J reg K s fs \<Longrightarrow> server_reachable E J reg K s fs'"

lemma persist_keeps_identity:
  assumes "persist_and_stat J dk ord s0 fs = (e, s', fs')"
  shows "st_configs s' = st_configs s0 \<and> st_AuditSalt s' = st_AuditSalt s0 \<and>
    st_CreatorSigningKey s' = st_CreatorSigningKey s0"
proof -
  obtain t where "s' = s0\<lparr>st_redemptionTokensMtime := t\<rparr>"
    using persist_and_stat_state [OF assms] by blast
  then show ?thesis by simp
qed

lemma token_ops_keep_identity:
  "ConsumeRedemptionToken E J dk ord s fs token now = (r, s', fs') \<Longrightarrow>
     st_configs s' = st_configs s \<and> st_AuditSalt s' = st_AuditSalt s \<and> st_CreatorSigningKey s' = st_CreatorSigningKey s"
  "AddRedemptionToken J dk ord s fs entry = (e, s', fs') \<Longrightarrow>
     st_configs s' = st_configs s \<and> st_AuditSalt s' = st_AuditSalt s \<and> st_CreatorSigningKey s' = st_CreatorSigningKey s"
  "RemoveRedemptionToken J dk ord s fs token = (ok, s', fs') \<Longrightarrow>
     st_configs s' = st_configs s \<and> st_AuditSalt s' = st_AuditSalt s \<and> st_CreatorSigningKey s' = st_CreatorSigningKey s"
  "ReloadRedemptionTokensIfChanged J dk s fs = (e, s', fs') \<Longrightarrow>
     st_configs s' = st_configs s \<and> st_AuditSalt s' = st_AuditSalt s \<and> st_CreatorSigningKey s' = st_CreatorSigningKey s"
     apply (erule Consume_cases; force dest: persist_keeps_identity)
    apply (auto simp: AddRedemptionToken_def split: option.splits if_splits dest!: persist_keeps_identity)[1]
   apply (auto simp: RemoveRedemptionToken_def split: if_splits prod.splits dest!: persist_keeps_identity)[1]
  apply (auto simp: ReloadRedemptionTokensIfChanged_def Let_def split: if_splits stat_result.splits sum.splits)[1]
  done

lemma reachable_state_ok:
  assumes "server_reachable E J reg K s fs" "generates_P256 K"
  shows "state_ok E J reg s"
  using assms(1)
proof (induction rule: server_reachable.induct)
  case (start su fs0 dir s fs)
  show ?case
  proof (cases "dir = ''''")
    case True
    then show ?thesis using start assms(2)
      by (auto simp: NewStateWithDir_def NewState_def state_ok_def configs_ok_def generates_P256_def
          split: option.splits if_splits)
  next
    case False
    from start False show ?thesis
    proof (rule NewStateWithDir_cases)
      fix fs1 fs2
      assume "loadOrCreateCreatorKey K (su_key su) fs0 (in_dir dir ''creator-key.pem'') (su_keyRnd su)
            = (Ok (st_CreatorSigningKey s, st_keyCreated s), fs1)"
        and "loadOrCreateAuditSalt (su_salt su) fs1 (in_dir dir ''audit-salt.bin'') (su_saltRnd su) = (Ok (st_AuditSalt s), fs2)"
        and "loadConfigsFile E J reg (su_configs su) fs2 (in_dir dir ''configs.json'') = Ok (st_configs s)"
        and "loadRedemptionTokensFile J (su_tokens su) (dk_between (su_configs su) fs2) (in_dir dir ''redemption-tokens.json'')
            = Ok (st_redemptionTokens s)"
      then show "state_ok E J reg s"
        using loadOrCreateCreatorKey_P256 [OF assms(2)] loadOrCreateAuditSalt_length
        by (simp add: state_ok_def loadRedemptionTokensFile_wf loadConfigsFile_ok)
    qed
  qed
next
  case (reload_configs s fs dk e s' fs')
  then show ?case using ops_keep_state_ok [of E J reg s dk fs] by simp
next
  case (reload_tokens s fs dk e s' fs')
  then show ?case
    using registry_invariant(4) [of s] token_ops_keep_identity(4) [OF reload_tokens(2)] by (simp add: state_ok_def)
next
  case (consume s fs dk ord token now r s' fs')
  then show ?case
    using Consume_wf [of s] token_ops_keep_identity(1) [OF consume(2)] by (simp add: state_ok_def)
next
  case (add s fs dk ord entry err s' fs')
  then show ?case
    using registry_invariant(2) [of s] token_ops_keep_identity(2) [OF add(2)] by (simp add: state_ok_def)
next
  case (remove s fs dk ord token ok s' fs')
  then show ?case
    using registry_invariant(3) [of s] token_ops_keep_identity(3) [OF remove(2)] by (simp add: state_ok_def)
next
  case (sweep s fs now window)
  then show ?case by (simp add: state_ok_def SweepRateLimiters_def)
next
  case (others s fs fs')
  then show ?case by simp
qed

section \<open>Sample data\<close>

definition sample_keystore :: keystore where
  "sample_keystore = \<lparr>ks_GenerateKey = (\<lambda>r. Some sample_key), ks_MarshalPKCS8 = (\<lambda>k. Some [1]),
     ks_ParsePKCS8 = (\<lambda>d. Some (ECDSA_key sample_key)), ks_EncodePem = (\<lambda>t d. d),
     ks_DecodePem = (\<lambda>d. Some (''PRIVATE KEY'', d))\<rparr>"

definition sample_entry :: "AttestationPolicy option \<Rightarrow> ConfigEntry" where
  "sample_entry p = \<lparr>ce_ConfigID = EncodeToString (replicate 16 1), ce_Config = [123, 125], ce_DisplayName = '''',
     ce_AttestationPolicy = p, ce_IssuedPolicy = None, ce_ConfigTtlSec = 60\<rparr>"

definition sample_startup :: startup where
  "sample_startup = \<lparr>su_mkdir = True, su_key = quiet_disk True (good_io 1), su_salt = quiet_disk True (good_io 1),
     su_configs = quiet_disk True (good_io 1), su_tokens = quiet_disk True (good_io 1),
     su_keyRnd = [], su_saltRnd = (True, [])\<rparr>"

definition sample_inode :: "bytes \<Rightarrow> inode" where
  "sample_inode d = \<lparr>content = d, perm = 384, uid = 0, gid = 0, mtime = 1\<rparr>"

definition sample_dir :: fsys where
  "sample_dir = \<lparr>files = [''/d/creator-key.pem'' \<mapsto> sample_inode [1], ''/d/audit-salt.bin'' \<mapsto> sample_inode (replicate 32 7),
     ''/d/configs.json'' \<mapsto> sample_inode [2]], dirs = [''/d'' \<mapsto> (0, 0)]\<rparr>"

definition config_json :: "ConfigEntry list \<Rightarrow> json" where
  "config_json es = (sample_json [])\<lparr>js_unmarshal_configs := (\<lambda>d. Some es)\<rparr>"

lemma sample_generates [simp]: "generates_P256 sample_keystore"
  by (simp add: generates_P256_def sample_keystore_def sample_key_def)

lemma sample_entry_valid: "valid_entry E (config_json es) reg (sample_entry None)"
  by (simp add: valid_entry_def sample_entry_def config_json_def sample_json_def Decode_Encode)

lemma sample_load: "load_loop ce_ConfigID (check_config_entry E (config_json es) reg) 0 Map.empty [sample_entry None]
    = Ok [ce_ConfigID (sample_entry None) \<mapsto> sample_entry None]"
  unfolding config_file.load_iff using sample_entry_valid by (simp add: keyed_def)

lemma sample_start:
  obtains s where "NewStateWithDir E (config_json [sample_entry None]) reg sample_keystore sample_startup sample_dir ''/d'' = (Ok s, sample_dir)"
    "st_configs s = Some [ce_ConfigID (sample_entry None) \<mapsto> sample_entry None]" "st_CreatorSigningKey s = sample_key"
proof -
  let ?J = "config_json [sample_entry None]" and ?dk = "quiet_disk True (good_io 1)"
  have rd: "os_ReadFile ?dk sample_dir ''/d/creator-key.pem'' = Read_Data [1]"
    "os_ReadFile ?dk sample_dir ''/d/audit-salt.bin'' = Read_Data (replicate 32 7)"
    "os_ReadFile ?dk sample_dir ''/d/configs.json'' = Read_Data [2]"
    "os_ReadFile ?dk sample_dir ''/d/redemption-tokens.json'' = Read_NotExist"
    by (simp_all add: os_ReadFile_def quiet_disk_def sample_dir_def sample_inode_def)
  have u: "js_unmarshal_configs ?J d = Some [sample_entry None]" for d by (simp add: config_json_def)
  have k: "loadOrCreateCreatorKey sample_keystore ?dk sample_dir ''/d/creator-key.pem'' r = (Ok (sample_key, False), sample_dir)" for r
    by (simp add: loadOrCreateCreatorKey_def rd) (simp add: sample_keystore_def sample_key_def)
  have a: "loadOrCreateAuditSalt ?dk sample_dir ''/d/audit-salt.bin'' r = (Ok (replicate 32 7), sample_dir)" for r
    by (simp add: loadOrCreateAuditSalt_def rd)
  have c: "loadConfigsFile E ?J reg ?dk sample_dir ''/d/configs.json''
      = Ok (Some [ce_ConfigID (sample_entry None) \<mapsto> sample_entry None])"
    by (simp add: loadConfigsFile_def rd u sample_load del: fun_upd_apply load_loop.simps)
  have t: "loadRedemptionTokensFile ?J ?dk sample_dir ''/d/redemption-tokens.json'' = Ok Map.empty"
    by (simp add: loadRedemptionTokensFile_def rd)
  have b: "dk_between ?dk f = f" for f by (simp add: quiet_disk_def)
  have "\<exists>s. NewStateWithDir E ?J reg sample_keystore sample_startup sample_dir ''/d'' = (Ok s, sample_dir) \<and>
      st_configs s = Some [ce_ConfigID (sample_entry None) \<mapsto> sample_entry None] \<and> st_CreatorSigningKey s = sample_key"
    by (simp add: NewStateWithDir_def sample_startup_def in_dir_def k a c t b Let_def)
  then show ?thesis using that by blast
qed


section \<open>Properties\<close>

text \<open>C15. In every state a server process can reach (from any start, through any operations with
  any disk outcomes, with any files put in place by others), tokens are well formed, the salt has
  32 bytes, the key is on P-256, and every configuration that can be looked up carries its own id,
  which decodes to 16 bytes, and a lifetime between a minute and a week.\<close>

theorem reachable_configs_valid:
  assumes "server_reachable E J reg K s fs" "generates_P256 K"
  shows "state_ok E J reg s \<and>
    (\<forall>k e. ConfigByID s k = Some e \<longrightarrow> ce_ConfigID e = k \<and> (\<exists>cid. DecodeString k = Some cid \<and> length cid = 16) \<and>
       sint configTtlMin \<le> sint (resolveConfigTtl (Some e)) \<and> sint (resolveConfigTtl (Some e)) \<le> sint configTtlMax)"
proof (intro conjI allI impI)
  show ok: "state_ok E J reg s" by (rule reachable_state_ok [OF assms])
  fix k e assume "ConfigByID s k = Some e"
  then have v: "ce_ConfigID e = k" "valid_entry E J reg e"
    using ok by (auto simp: ConfigByID_def state_ok_def configs_ok_def split: option.splits)
  then show "ce_ConfigID e = k" "\<exists>cid. DecodeString k = Some cid \<and> length cid = 16"
    by (auto simp: valid_entry_def)
  have mm: "sint configTtlMin = 60000000000" "sint configTtlMax = 604800000000000" "sint defaultConfigTtl = 3600000000000"
    by (simp_all add: configTtlMin_def configTtlMax_def defaultConfigTtl_def duration_consts)
  from v(2) have "ce_ConfigTtlSec e = 0 \<or> 60 \<le> ce_ConfigTtlSec e \<and> ce_ConfigTtlSec e \<le> 604800"
    by (simp add: valid_entry_def)
  then show "sint configTtlMin \<le> sint (resolveConfigTtl (Some e))"
    and "sint (resolveConfigTtl (Some e)) \<le> sint configTtlMax"
    unfolding mm using sint_seconds [of "ce_ConfigTtlSec e"] mm(3) by (auto simp: resolveConfigTtl_def)
qed

theorem reachable_configs_valid_witness:
  "\<exists>s. server_reachable sample_env (config_json [sample_entry None]) [] sample_keystore s sample_dir \<and>
     ConfigByID s (EncodeToString (replicate 16 1)) = Some (sample_entry None) \<and>
     sint (resolveConfigTtl (Some (sample_entry None))) \<le> sint configTtlMax"
proof -
  obtain s where s: "NewStateWithDir sample_env (config_json [sample_entry None]) [] sample_keystore sample_startup sample_dir ''/d'' = (Ok s, sample_dir)"
    "st_configs s = Some [ce_ConfigID (sample_entry None) \<mapsto> sample_entry None]"
    by (rule sample_start)
  have r: "server_reachable sample_env (config_json [sample_entry None]) [] sample_keystore s sample_dir"
    by (rule server_reachable.start [OF s(1)])
  have "ConfigByID s (EncodeToString (replicate 16 1)) = Some (sample_entry None)"
    using s(2) by (simp add: ConfigByID_def sample_entry_def)
  then show ?thesis using reachable_configs_valid [OF r sample_generates] r by blast
qed

text \<open>C32. A bad edit of \<^verbatim>\<open>configs.json\<close> never takes the registry down: after a reload the
  registry is what it was, or a file that loaded without any error; when an error is reported it is
  what it was, and unless the file changes again (or the disk fails) the next reload does not touch it
  or report the error again.\<close>

theorem reload_keeps_last_good:
  assumes "ReloadConfigsIfChanged E J reg dk s fs = (e, s', fs')"
  shows "(st_configs s' = st_configs s \<or>
      e = None \<and> loadConfigsFile E J reg dk fs' (st_configsPath s) = Ok (st_configs s')) \<and>
    (e \<noteq> None \<longrightarrow> st_configs s' = st_configs s) \<and>
    (e \<noteq> None \<and> dk_stat dk \<and> files fs' (st_configsPath s) = files fs (st_configsPath s) \<longrightarrow>
      ReloadConfigsIfChanged E J reg dk' s' fs' =
        ((if dk_stat dk' then None else Some (''stat '' @ st_configsPath s)), s', fs'))"
  using assms
proof (cases rule: Reload_configs_cases)
  case kept
  then show ?thesis using kept by auto
next
  case (loaded mt)
  then show ?thesis by simp
next
  case (refused mt)
  have p: "st_configsPath s \<noteq> ''''" using assms refused(3) by (auto simp: ReloadConfigsIfChanged_def)
  show ?thesis using refused p
    by (auto simp: ReloadConfigsIfChanged_def Let_def os_Stat_def After_def split: if_splits option.splits)
qed

theorem reload_keeps_last_good_witness:
  "ReloadConfigsIfChanged sample_env ((sample_json [])\<lparr>js_unmarshal_configs := (\<lambda>d. None)\<rparr>) [] (quiet_disk True (good_io 1))
      ((sample_state Map.empty)\<lparr>st_configsPath := ''/s/f'', st_configs := Some Map.empty\<rparr>) sample_fs
     = (Some ''reload configs.json (keeping last-good registry): parse json'',
        (sample_state Map.empty)\<lparr>st_configsPath := ''/s/f'', st_configs := Some Map.empty, st_configsMtime := 1\<rparr>, sample_fs) \<and>
   ReloadConfigsIfChanged sample_env ((sample_json [])\<lparr>js_unmarshal_configs := (\<lambda>d. None)\<rparr>) [] (quiet_disk True (good_io 1))
      ((sample_state Map.empty)\<lparr>st_configsPath := ''/s/f'', st_configs := Some Map.empty, st_configsMtime := 1\<rparr>) sample_fs
     = (None, (sample_state Map.empty)\<lparr>st_configsPath := ''/s/f'', st_configs := Some Map.empty, st_configsMtime := 1\<rparr>, sample_fs)"
proof -
  let ?s = "(sample_state Map.empty)\<lparr>st_configsPath := ''/s/f'', st_configs := Some Map.empty\<rparr>"
  let ?J = "(sample_json [])\<lparr>js_unmarshal_configs := (\<lambda>d. None)\<rparr>" and ?dk = "quiet_disk True (good_io 1)"
  have r: "ReloadConfigsIfChanged sample_env ?J [] ?dk ?s sample_fs
     = (Some ''reload configs.json (keeping last-good registry): parse json'', ?s\<lparr>st_configsMtime := 1\<rparr>, sample_fs)"
    by (simp add: ReloadConfigsIfChanged_def sample_state_def os_Stat_def quiet_disk_def After_def
        loadConfigsFile_def os_ReadFile_def Let_def)
  from reload_keeps_last_good [OF r, of ?dk] r show ?thesis by (simp add: sample_state_def quiet_disk_def)
qed






text \<open>The loader checks the verifier of the legacy flat arm only: an entry whose policy has a
  per-platform arm with a verifier nobody registered loads like any other, and the misconfiguration
  shows when a device of that platform asks for the configuration, as a server error (unless the mode
  is off).\<close>

theorem platform_verifier_unchecked:
  assumes "pol_Arm p = zero_arm" "pol_Mode p \<in> {AttestationModeObserve, AttestationModeSoft, AttestationModeStrict}"
    and "0 \<le> pol_SoftFailureTtlSec p" "pol_Platforms p = [(''ANDROID'', Some arm)]"
    and "arm_Verifier arm \<noteq> ''''" "arm_Verifier arm \<notin> set (knownNames reg)"
    and "valid_entry E J reg (entry\<lparr>ce_AttestationPolicy := None\<rparr>)"
    and "js_unmarshal_configs J data = Some [entry\<lparr>ce_AttestationPolicy := Some p\<rparr>]" "os_ReadFile dk fs path = Read_Data data"
    and "ab_Platform blob = ''ANDROID''"
  shows "(\<exists>m. loadConfigsFile E J reg dk fs path = Ok (Some m) \<and>
      m (ce_ConfigID entry) = Some (entry\<lparr>ce_AttestationPolicy := Some p\<rparr>)) \<and>
    (\<exists>e. evaluateAttestationPolicy E (Some p) blob (Verifier_Lookup E reg) ttl = Err e)"
proof
  have "valid_entry E J reg (entry\<lparr>ce_AttestationPolicy := Some p\<rparr>)"
    using assms(1-3,7) by (auto simp: valid_entry_def valid_policy_def zero_arm_def)
  then have "load_loop ce_ConfigID (check_config_entry E J reg) 0 Map.empty [entry\<lparr>ce_AttestationPolicy := Some p\<rparr>]
      = Ok [ce_ConfigID entry \<mapsto> entry\<lparr>ce_AttestationPolicy := Some p\<rparr>]"
    unfolding config_file.load_iff by (simp add: keyed_def)
  then show "\<exists>m. loadConfigsFile E J reg dk fs path = Ok (Some m) \<and>
      m (ce_ConfigID entry) = Some (entry\<lparr>ce_AttestationPolicy := Some p\<rparr>)"
    using assms(8,9) by (simp add: loadConfigsFile_def del: load_loop.simps)
  have "armFor E (Some p) (ab_Platform blob) = Some arm"
    using assms(4,10) by (simp add: armFor_def ToUpper_def is_ascii_def upper_char_def TrimSpace_plain plain_char_def)
  then show "\<exists>e. evaluateAttestationPolicy E (Some p) blob (Verifier_Lookup E reg) ttl = Err e"
    using assms(2,5,6) Lookup_Err_iff [OF assms(5), of E reg]
    by (auto simp: evaluateAttestationPolicy_def AttestationModeOff_def AttestationModeObserve_def
        AttestationModeSoft_def AttestationModeStrict_def)
qed

definition bad_arm_policy :: AttestationPolicy where
  "bad_arm_policy = \<lparr>pol_Mode = AttestationModeStrict, pol_SoftFailureTtlSec = 0, pol_MaxIssuancesPerHour = 0,
     pol_Platforms = [(''ANDROID'', Some (zero_arm\<lparr>arm_Verifier := ''android-key-atestation''\<rparr>))], pol_Arm = zero_arm\<rparr>"

theorem platform_verifier_unchecked_witness:
  "\<exists>m e. loadConfigsFile sample_env (config_json [sample_entry (Some bad_arm_policy)])
       (newVerifierRegistry (\<lambda>a. Err '''') (\<lambda>a i. Err '''')) (quiet_disk True (good_io 1)) sample_fs ''/s/f'' = Ok (Some m) \<and>
     evaluateAttestationPolicy sample_env (Some bad_arm_policy) (sample_blob\<lparr>ab_Platform := ''ANDROID''\<rparr>)
       (Verifier_Lookup sample_env (newVerifierRegistry (\<lambda>a. Err '''') (\<lambda>a i. Err ''''))) Hour = Err e"
proof -
  have e: "sample_entry (Some bad_arm_policy) = (sample_entry None)\<lparr>ce_AttestationPolicy := Some bad_arm_policy\<rparr>"
    "(sample_entry None)\<lparr>ce_AttestationPolicy := None\<rparr> = sample_entry None"
    by (simp_all add: sample_entry_def)
  have "js_unmarshal_configs (config_json [sample_entry (Some bad_arm_policy)]) [1]
      = Some [(sample_entry None)\<lparr>ce_AttestationPolicy := Some bad_arm_policy\<rparr>]"
    by (simp add: config_json_def e)
  moreover have "os_ReadFile (quiet_disk True (good_io 1)) sample_fs ''/s/f'' = Read_Data [1]"
    by (simp add: os_ReadFile_def quiet_disk_def)
  ultimately show ?thesis
    using platform_verifier_unchecked [of bad_arm_policy "zero_arm\<lparr>arm_Verifier := ''android-key-atestation''\<rparr>"
        "newVerifierRegistry (\<lambda>a. Err '''') (\<lambda>a i. Err '''')" sample_env
        "config_json [sample_entry (Some bad_arm_policy)]" "sample_entry None" "[1]" "quiet_disk True (good_io 1)"
        sample_fs "''/s/f''" "sample_blob\<lparr>ab_Platform := ''ANDROID''\<rparr>" Hour]
      sample_entry_valid
    by (auto simp: bad_arm_policy_def newVerifierRegistry_def knownNames_def e)
qed

end
