(* ===== verification/Utf8.thy ===== *)
theory Utf8
  imports Prelude
begin

text \<open>
  Strings as sequences of runes: what \<^verbatim>\<open>range\<close> over a string, \<open>[]rune(s)\<close> and \<open>string(runes)\<close>
  do (an invalid byte is the rune U+FFFD, of width one), and on top of them the display-name
  clean-up of \<^verbatim>\<open>management.go\<close>.
\<close>

section \<open>Decoding\<close>

definition code :: "char \<Rightarrow> nat" where "code c = of_char c"

definition cont_byte :: "char \<Rightarrow> bool" where "cont_byte c = (128 \<le> code c \<and> code c \<le> 191)"

definition RuneError :: nat where "RuneError = 65533"

text \<open>The first rune of a non-empty string, and the bytes after it.\<close>

definition rune2 :: "nat \<Rightarrow> string \<Rightarrow> (nat \<times> string) option" where
  "rune2 a t =
     (case t of b # t' \<Rightarrow> if cont_byte b then Some ((a - 192) * 64 + (code b - 128), t') else None | _ \<Rightarrow> None)"

definition rune3 :: "nat \<Rightarrow> string \<Rightarrow> (nat \<times> string) option" where
  "rune3 a t =
     (case t of b # c # t' \<Rightarrow>
        if (if a = 224 then 160 \<le> code b \<and> code b \<le> 191
            else if a = 237 then 128 \<le> code b \<and> code b \<le> 159 else cont_byte b) \<and> cont_byte c
        then Some ((a - 224) * 4096 + (code b - 128) * 64 + (code c - 128), t') else None
      | _ \<Rightarrow> None)"

definition rune4 :: "nat \<Rightarrow> string \<Rightarrow> (nat \<times> string) option" where
  "rune4 a t =
     (case t of b # c # d # t' \<Rightarrow>
        if (if a = 240 then 144 \<le> code b \<and> code b \<le> 191
            else if a = 244 then 128 \<le> code b \<and> code b \<le> 143 else cont_byte b) \<and> cont_byte c \<and> cont_byte d
        then Some ((a - 240) * 262144 + (code b - 128) * 4096 + (code c - 128) * 64 + (code d - 128), t') else None
      | _ \<Rightarrow> None)"

definition first_rune :: "char \<Rightarrow> string \<Rightarrow> nat \<times> string" where
  "first_rune x t =
     (let a = code x in
      if a < 128 then (a, t)
      else case (if 194 \<le> a \<and> a \<le> 223 then rune2 a t
                 else if 224 \<le> a \<and> a \<le> 239 then rune3 a t
                 else if 240 \<le> a \<and> a \<le> 244 then rune4 a t else None)
        of None \<Rightarrow> (RuneError, t) | Some r \<Rightarrow> r)"

lemma first_rune_shorter: "length (snd (first_rune x t)) \<le> length t"
  by (auto simp: first_rune_def Let_def rune2_def rune3_def rune4_def split: option.splits list.splits if_splits)

function runes :: "string \<Rightarrow> nat list" where
  "runes [] = []"
| "runes (x # t) = fst (first_rune x t) # runes (snd (first_rune x t))"
  by pat_completeness auto
termination
  by (relation "measure length") (auto simp: less_Suc_eq_le first_rune_shorter)


section \<open>Encoding\<close>

definition scalar :: "nat \<Rightarrow> bool" where
  "scalar r = (r < 55296 \<or> 57343 < r \<and> r < 1114112)"

definition encode_rune :: "nat \<Rightarrow> string" where
  "encode_rune r0 =
     (let r = (if scalar r0 then r0 else RuneError) in
      map char_of
        (if r < 128 then [r]
         else if r < 2048 then [192 + r div 64, 128 + r mod 64]
         else if r < 65536 then [224 + r div 4096, 128 + r div 64 mod 64, 128 + r mod 64]
         else [240 + r div 262144, 128 + r div 4096 mod 64, 128 + r div 64 mod 64, 128 + r mod 64]))"

definition string_of_runes :: "nat list \<Rightarrow> string" where
  "string_of_runes rs = concat (map encode_rune rs)"

lemma code_char_of [simp]: "n < 256 \<Longrightarrow> code (char_of (n :: nat)) = n"
  by (simp add: code_def)

lemma cont_char_of: "n < 64 \<Longrightarrow> cont_byte (char_of (128 + n :: nat))"
  by (simp add: cont_byte_def)

text \<open>The first rune of an encoding followed by anything is the rune encoded.\<close>

lemma first_encoded1: "r < 128 \<Longrightarrow> first_rune (char_of r) t = (r, t)"
  by (simp add: first_rune_def)

lemma first_encoded2:
  assumes "128 \<le> r" "r < 2048"
  shows "first_rune (char_of (192 + r div 64)) (char_of (128 + r mod 64) # t) = (r, t)"
proof -
  have d: "2 \<le> r div 64" "r div 64 < 32" using assms by auto
  then show ?thesis
    by (simp add: first_rune_def rune2_def Let_def cont_char_of)
qed

lemma first_encoded3:
  assumes "2048 \<le> r" "r < 65536" "scalar r"
  shows "first_rune (char_of (224 + r div 4096)) (char_of (128 + r div 64 mod 64) # char_of (128 + r mod 64) # t) = (r, t)"
proof -
  define a b c where "a = r div 4096" and "b = r div 64 mod 64" and "c = r mod 64"
  have "r = r div 64 * 64 + c" "r div 64 = r div 64 div 64 * 64 + b" "r div 64 div 64 = a"
    unfolding a_def b_def c_def using div_mult_mod_eq [of r 64] div_mult_mod_eq [of "r div 64" 64]
    by (simp_all add: div_mult2_eq [symmetric])
  then have r: "r = a * 4096 + b * 64 + c" by linarith
  have lt: "a < 16" "b < 64" "c < 64" using assms(2) by (auto simp: a_def b_def c_def)
  have "a = 0 \<Longrightarrow> 32 \<le> b" using assms(1) r lt by linarith
  moreover have "a = 13 \<longrightarrow> b \<le> 31" using assms(3) r lt by (auto simp: scalar_def)
  ultimately show ?thesis using lt r
    unfolding a_def [symmetric] b_def [symmetric] c_def [symmetric]
    by (simp add: first_rune_def rune3_def Let_def cont_char_of)
qed

lemma first_encoded4:
  assumes "65536 \<le> r" "r < 1114112"
  shows "first_rune (char_of (240 + r div 262144))
      (char_of (128 + r div 4096 mod 64) # char_of (128 + r div 64 mod 64) # char_of (128 + r mod 64) # t) = (r, t)"
proof -
  define a b c d where "a = r div 262144" and "b = r div 4096 mod 64" and "c = r div 64 mod 64" and "d = r mod 64"
  have "r = r div 64 * 64 + d" "r div 64 = r div 64 div 64 * 64 + c" "r div 64 div 64 = r div 4096"
    "r div 4096 = r div 4096 div 64 * 64 + b" "r div 4096 div 64 = a"
    unfolding a_def b_def c_def d_def
    using div_mult_mod_eq [of r 64] div_mult_mod_eq [of "r div 64" 64] div_mult_mod_eq [of "r div 4096" 64]
    by (simp_all add: div_mult2_eq [symmetric])
  then have r: "r = a * 262144 + b * 4096 + c * 64 + d" by linarith
  have lt: "b < 64" "c < 64" "d < 64" by (auto simp: b_def c_def d_def)
  have "a < 5" using assms(2) by (auto simp: a_def)
  moreover have "a = 0 \<Longrightarrow> 16 \<le> b" using assms(1) r lt by linarith
  moreover have "a = 4 \<longrightarrow> b \<le> 15" using assms(2) r lt by auto
  ultimately show ?thesis using lt r
    unfolding a_def [symmetric] b_def [symmetric] c_def [symmetric] d_def [symmetric]
    by (simp add: first_rune_def rune4_def Let_def cont_char_of)
qed

lemma runes_encode_rune: "scalar r \<Longrightarrow> runes (encode_rune r @ t) = r # runes t"
  by (auto simp: encode_rune_def Let_def first_encoded1 first_encoded2 first_encoded3 first_encoded4)
    (auto simp: scalar_def first_encoded4)

lemma runes_string_of_runes: "list_all scalar rs \<Longrightarrow> runes (string_of_runes rs) = rs"
  by (induction rs) (simp_all add: string_of_runes_def runes_encode_rune)

interpretation utf8: codec string_of_runes "\<lambda>s. Some (runes s)" "list_all scalar"
  by unfold_locales (simp add: runes_string_of_runes)

lemma scalar_rune2: "194 \<le> a \<Longrightarrow> a \<le> 223 \<Longrightarrow> rune2 a t = Some (r, t') \<Longrightarrow> scalar r"
  by (auto simp: rune2_def scalar_def cont_byte_def split: list.splits if_splits)

lemma scalar_rune3:
  assumes "224 \<le> a" "a \<le> 239" "rune3 a t = Some (r, t')"
  shows "scalar r"
proof -
  obtain b c where t: "t = b # c # t'" and r: "r = (a - 224) * 4096 + (code b - 128) * 64 + (code c - 128)"
    and bc: "128 \<le> code b" "code b \<le> 191" "128 \<le> code c" "code c \<le> 191" "a = 237 \<longrightarrow> code b \<le> 159"
    using assms by (auto simp: rune3_def cont_byte_def split: list.splits if_splits)
  define x y z where "x = a - 224" and "y = code b - 128" and "z = code c - 128"
  have "x < 16" "y < 64" "z < 64" "x = 13 \<longrightarrow> y < 32" using assms(1,2) bc by (auto simp: x_def y_def z_def)
  moreover have "r = x * 4096 + y * 64 + z" using r by (simp add: x_def y_def z_def)
  ultimately show ?thesis by (cases "x = 13"; cases "x < 13") (auto simp: scalar_def)
qed

lemma scalar_rune4:
  assumes "240 \<le> a" "a \<le> 244" "rune4 a t = Some (r, t')"
  shows "scalar r"
proof -
  obtain b c d u where t: "t = b # c # d # u"
    using assms(3) by (auto simp: rune4_def split: list.splits)
  have r: "r = (a - 240) * 262144 + (code b - 128) * 4096 + (code c - 128) * 64 + (code d - 128)"
    and bcd: "128 \<le> code b" "code b \<le> 191" "code c \<le> 191" "code d \<le> 191" "a = 244 \<longrightarrow> code b \<le> 143" "a = 240 \<longrightarrow> 144 \<le> code b"
    using assms unfolding t by (simp_all add: rune4_def cont_byte_def split: if_splits)
  define w x y z where "w = a - 240" and "x = code b - 128" and "y = code c - 128" and "z = code d - 128"
  have "w < 5" "x < 64" "y < 64" "z < 64" "w = 4 \<longrightarrow> x < 16" "w = 0 \<longrightarrow> 16 \<le> x"
    using assms(1,2) bcd by (auto simp: w_def x_def y_def z_def)
  moreover have "r = w * 262144 + x * 4096 + y * 64 + z" using r by (simp add: w_def x_def y_def z_def)
  ultimately show ?thesis by (cases "w = 4"; cases "w = 0") (auto simp: scalar_def)
qed

lemma scalar_first_rune: "scalar (fst (first_rune x t))"
proof -
  define a where "a = code x"
  have "scalar RuneError" by (simp add: scalar_def RuneError_def)
  moreover have "scalar a" if "a < 128" using that by (simp add: scalar_def)
  moreover have "scalar r" if "194 \<le> a" "a \<le> 223" "rune2 a t = Some (r, t')" for r t'
    using scalar_rune2 [OF that] .
  moreover have "scalar r" if "224 \<le> a" "a \<le> 239" "rune3 a t = Some (r, t')" for r t'
    using scalar_rune3 [OF that] .
  moreover have "scalar r" if "240 \<le> a" "a \<le> 244" "rune4 a t = Some (r, t')" for r t'
    using scalar_rune4 [OF that] .
  ultimately show ?thesis
    unfolding first_rune_def a_def [symmetric] by (auto simp: Let_def split: option.splits)
qed

lemma scalar_runes: "list_all scalar (runes s)"
  by (induction s rule: runes.induct) (simp_all add: scalar_first_rune)


text \<open>What a string becomes: its invalid bytes are replaced.\<close>

definition valid_text :: "string \<Rightarrow> string" where
  "valid_text s = string_of_runes (runes s)"

lemma valid_text_idem [simp]: "valid_text (valid_text s) = valid_text s"
  by (simp add: valid_text_def runes_string_of_runes scalar_runes)

lemma runes_ascii: "list_all (\<lambda>c. code c < 128) s \<Longrightarrow> runes s = map code s"
  by (induction s) (simp_all add: first_rune_def)

lemma valid_text_ascii: "list_all (\<lambda>c. code c < 128) s \<Longrightarrow> valid_text s = s"
proof (induction s)
  case Nil
  then show ?case by (simp add: valid_text_def string_of_runes_def)
next
  case (Cons c s)
  then have "encode_rune (code c) = [c]" by (simp add: encode_rune_def scalar_def Let_def) (simp add: code_def)
  moreover have "runes (c # s) = map code (c # s)" "runes s = map code s" using Cons.prems by (intro runes_ascii; simp)+
  ultimately show ?case using Cons by (simp add: valid_text_def string_of_runes_def del: runes.simps)
qed


section \<open>Display names\<close>

text \<open>\<open>unicode.IsControl\<close>: the two ranges of control characters.\<close>

definition IsControl :: "nat \<Rightarrow> bool" where
  "IsControl r = (r < 32 \<or> 127 \<le> r \<and> r < 160)"

definition maxDisplayNameRunes :: nat where "maxDisplayNameRunes = 80"

definition normalizeDisplayName :: "string \<Rightarrow> string" where
  "normalizeDisplayName value =
     (let value' = string_of_runes (filter (\<lambda>r. \<not> IsControl r) (runes (TrimSpace value)));
          rs = runes (TrimSpace value');
          rs' = (if maxDisplayNameRunes < length rs then take maxDisplayNameRunes rs else rs)
      in string_of_runes rs')"

end
