(* ===== verification/Envelope.thy ===== *)
theory Envelope
  imports State_Types Utf8 Challenge
begin

text \<open>
  \<^verbatim>\<open>envelope.go\<close>: the binary frame of an envelope, the wrap of its key to a recipient, the
  encryption of its body, and minting, which puts them together. JSON texts of the header and of
  the body are made and read by functions taken as an argument, as are the random reads.
\<close>

section \<open>Records\<close>

record envelopeCreatorRef =
  cf_Fp :: string
  cf_Pk :: string

record envelopeRecipient =
  rc_Fp :: string
  rc_Wrap :: string

record envelopeHeader =
  eh_V :: int
  eh_ConfigID :: string
  eh_IssuedAt :: string
  eh_Creator :: envelopeCreatorRef
  eh_Policy :: envelopePolicy
  eh_Recipients :: "envelopeRecipient list"

record issuerBody =
  ib_Kind :: string
  ib_CreatorPubkey :: string
  ib_IssuerURL :: string
  ib_DisplayName :: string

record envelopeDecoded =
  ed_Header :: envelopeHeader
  ed_HeaderBytes :: bytes
  ed_BodyNonce :: bytes
  ed_BodyCiphertext :: bytes
  ed_Signature :: bytes

text \<open>
  The texts of headers and bodies: \<open>canonicalJSONOfStruct\<close>, \<open>json.Unmarshal\<close> of a header,
  \<open>json.Marshal\<close> of a body, and the layout of the issue time.
\<close>

record texts =
  tx_canonical :: "envelopeHeader \<Rightarrow> string + bytes"
  tx_unmarshal_header :: "bytes \<Rightarrow> envelopeHeader option"
  tx_marshal_body :: "issuerBody \<Rightarrow> bytes option"
  tx_format_issued :: "time \<Rightarrow> string"


section \<open>Bytes\<close>

text \<open>\<open>copy(buf[off:], src)\<close> for an offset within the buffer.\<close>

definition copy_into :: "bytes \<Rightarrow> nat \<Rightarrow> bytes \<Rightarrow> bytes" where
  "copy_into buf off src =
     take off buf @ take (length buf - off) src @ drop (off + length src) buf"

text \<open>\<open>binary.BigEndian.PutUint32\<close> of a length, and \<open>Uint32\<close>, which panics on fewer than four bytes.\<close>

definition be32 :: "nat \<Rightarrow> bytes" where
  "be32 n = word_bytes 4 (n mod 2 ^ 32)"

definition Uint32 :: "bytes \<Rightarrow> string + nat" where
  "Uint32 b = (if length b < 4 then Err index_panic else Ok (SetBytes (take 4 b)))"

lemma length_be32 [simp]: "length (be32 n) = 4"
  by (simp add: be32_def)

lemma Uint32_be32 [simp]: "n < 2 ^ 32 \<Longrightarrow> Uint32 (be32 n @ t) = Ok n"
  by (simp add: Uint32_def) (simp add: be32_def)

lemma be32_SetBytes: "length b = 4 \<Longrightarrow> be32 (SetBytes b) = b"
  using SetBytes_less [of b] by (simp add: be32_def word_bytes_SetBytes)

lemma copy_into_append [simp]:
  "copy_into (pre @ replicate n 0) (length pre) src =
     pre @ take n src @ replicate (n - length src) 0"
  by (simp add: copy_into_def)


section \<open>The frame\<close>

definition envelopeMagicLen :: nat where "envelopeMagicLen = 4"
definition envelopeVersion :: byte where "envelopeVersion = 1"
definition envelopeVersionLen :: nat where "envelopeVersionLen = 1"
definition envelopeHeaderLenLen :: nat where "envelopeHeaderLenLen = 4"
definition envelopeBodyNonceLen :: nat where "envelopeBodyNonceLen = 12"
definition envelopeBodyLenLen :: nat where "envelopeBodyLenLen = 4"
definition envelopeSignatureLen :: nat where "envelopeSignatureLen = 64"
definition envelopeDEKLen :: nat where "envelopeDEKLen = 32"
definition envelopeConfigIDLen :: nat where "envelopeConfigIDLen = 16"
definition envelopeWrapLen :: nat where "envelopeWrapLen = 93"
definition envelopeP256CompLen :: nat where "envelopeP256CompLen = 33"
definition envelopeMagic :: bytes where "envelopeMagic = [78, 80, 86, 83]"

lemmas envelope_lens = envelopeMagicLen_def envelopeVersionLen_def envelopeHeaderLenLen_def
  envelopeBodyNonceLen_def envelopeBodyLenLen_def envelopeSignatureLen_def envelopeDEKLen_def
  envelopeConfigIDLen_def envelopeWrapLen_def envelopeP256CompLen_def

definition buildSignedRange :: "bytes \<Rightarrow> bytes \<Rightarrow> bytes \<Rightarrow> bytes" where
  "buildSignedRange headerBytes bodyNonce bodyCipher =
     (let total = envelopeMagicLen + envelopeVersionLen + envelopeHeaderLenLen + length headerBytes
            + envelopeBodyNonceLen + envelopeBodyLenLen + length bodyCipher;
          buf0 = replicate total 0;
          buf1 = copy_into buf0 0 envelopeMagic;
          off1 = envelopeMagicLen;
          buf2 = buf1[off1 := envelopeVersion];
          off2 = off1 + envelopeVersionLen;
          buf3 = copy_into buf2 off2 (be32 (length headerBytes));
          off3 = off2 + envelopeHeaderLenLen;
          buf4 = copy_into buf3 off3 headerBytes;
          off4 = off3 + length headerBytes;
          buf5 = copy_into buf4 off4 bodyNonce;
          off5 = off4 + envelopeBodyNonceLen;
          buf6 = copy_into buf5 off5 (be32 (length bodyCipher));
          off6 = off5 + envelopeBodyLenLen
      in copy_into buf6 off6 bodyCipher)"

definition encodeEnvelopeWire :: "bytes \<Rightarrow> bytes \<Rightarrow> bytes \<Rightarrow> bytes \<Rightarrow> bytes" where
  "encodeEnvelopeWire headerBytes bodyNonce bodyCipher signature =
     (let total = envelopeMagicLen + envelopeVersionLen + envelopeHeaderLenLen + length headerBytes
            + envelopeBodyNonceLen + envelopeBodyLenLen + length bodyCipher + envelopeSignatureLen;
          out0 = replicate total 0;
          out1 = copy_into out0 0 envelopeMagic;
          off1 = envelopeMagicLen;
          out2 = out1[off1 := envelopeVersion];
          off2 = off1 + envelopeVersionLen;
          out3 = copy_into out2 off2 (be32 (length headerBytes));
          off3 = off2 + envelopeHeaderLenLen;
          out4 = copy_into out3 off3 headerBytes;
          off4 = off3 + length headerBytes;
          out5 = copy_into out4 off4 bodyNonce;
          off5 = off4 + envelopeBodyNonceLen;
          out6 = copy_into out5 off5 (be32 (length bodyCipher));
          off6 = off5 + envelopeBodyLenLen;
          out7 = copy_into out6 off6 bodyCipher;
          off7 = off6 + length bodyCipher
      in copy_into out7 off7 signature)"

text \<open>A length read from the frame is at most 32 bits, so the sums below do not overflow an \<open>int\<close>.\<close>

definition decodeEnvelopeWire :: "texts \<Rightarrow> bytes \<Rightarrow> string + envelopeDecoded" where
  "decodeEnvelopeWire T raw =
     (let minLen = envelopeMagicLen + envelopeVersionLen + envelopeHeaderLenLen + envelopeBodyNonceLen
            + envelopeBodyLenLen + envelopeSignatureLen
      in if length raw < minLen then Err ''too short''
      else if take envelopeMagicLen raw \<noteq> envelopeMagic then Err ''bad magic''
      else let off1 = envelopeMagicLen in
      if raw ! off1 \<noteq> envelopeVersion then Err ''unsupported version''
      else let off2 = off1 + envelopeVersionLen in
      case Uint32 (drop off2 raw) of Err p \<Rightarrow> Err p
      | Ok headerLen \<Rightarrow>
      let off3 = off2 + envelopeHeaderLenLen in
      if length raw < off3 + headerLen then Err ''header truncated''
      else let headerBytes = take headerLen (drop off3 raw); off4 = off3 + headerLen in
      if length raw < off4 + envelopeBodyNonceLen then Err ''body nonce truncated''
      else let bodyNonce = take envelopeBodyNonceLen (drop off4 raw); off5 = off4 + envelopeBodyNonceLen in
      case Uint32 (drop off5 raw) of Err p \<Rightarrow> Err p
      | Ok bodyLen \<Rightarrow>
      let off6 = off5 + envelopeBodyLenLen in
      if length raw < off6 + bodyLen then Err ''body truncated''
      else let bodyCipher = take bodyLen (drop off6 raw); off7 = off6 + bodyLen in
      if off7 + envelopeSignatureLen \<noteq> length raw then Err ''trailing or missing signature''
      else let signature = take envelopeSignatureLen (drop off7 raw) in
      case tx_unmarshal_header T headerBytes of
        None \<Rightarrow> Err ''parse header''
      | Some header \<Rightarrow>
          Ok \<lparr>ed_Header = header, ed_HeaderBytes = headerBytes, ed_BodyNonce = bodyNonce,
            ed_BodyCiphertext = bodyCipher, ed_Signature = signature\<rparr>)"

lemma copy_chunk:
  "length pre = off \<Longrightarrow> k = length src + m \<Longrightarrow> copy_into (pre @ replicate k 0) off src = (pre @ src) @ replicate m 0"
  using copy_into_append [of pre k src] by simp

text \<open>Both routines lay out the same bytes; the nonce and the signature have their fixed lengths.\<close>

lemma frame_chunks:
  assumes "length n = 12" and k: "k = 25 + length h + length c + m"
  shows "copy_into (copy_into (copy_into (copy_into (copy_into ((copy_into (replicate k 0) 0 envelopeMagic)[4 := 1])
      5 (be32 (length h))) 9 h) (9 + length h) n) (21 + length h) (be32 (length c))) (25 + length h) c
    = (envelopeMagic @ [1] @ be32 (length h) @ h @ n @ be32 (length c) @ c) @ replicate m 0"
proof -
  have 1: "(copy_into (replicate k 0) 0 envelopeMagic)[4 := 1] = (envelopeMagic @ [1]) @ replicate (k - 5) 0"
  proof -
    obtain r where r: "k = 5 + r" using k le_Suc_ex [of 5 k] by auto
    have "copy_into (replicate k 0) 0 envelopeMagic = envelopeMagic @ 0 # replicate r 0"
      using copy_chunk [of "[]" 0 k envelopeMagic "Suc r"] by (simp add: r envelopeMagic_def)
    then show ?thesis by (simp add: r envelopeMagic_def list_update_append)
  qed
  have 2: "copy_into ((envelopeMagic @ [1]) @ replicate (k - 5) 0) 5 (be32 (length h))
      = ((envelopeMagic @ [1]) @ be32 (length h)) @ replicate (k - 9) 0"
    using k by (intro copy_chunk) (simp_all add: envelopeMagic_def)
  have 3: "copy_into (((envelopeMagic @ [1]) @ be32 (length h)) @ replicate (k - 9) 0) 9 h
      = (((envelopeMagic @ [1]) @ be32 (length h)) @ h) @ replicate (k - 9 - length h) 0"
    using k by (intro copy_chunk) (simp_all add: envelopeMagic_def)
  have 4: "copy_into ((((envelopeMagic @ [1]) @ be32 (length h)) @ h) @ replicate (k - 9 - length h) 0) (9 + length h) n
      = ((((envelopeMagic @ [1]) @ be32 (length h)) @ h) @ n) @ replicate (k - 21 - length h) 0"
    using k assms(1) by (intro copy_chunk) (simp_all add: envelopeMagic_def)
  have 5: "copy_into (((((envelopeMagic @ [1]) @ be32 (length h)) @ h) @ n) @ replicate (k - 21 - length h) 0) (21 + length h) (be32 (length c))
      = (((((envelopeMagic @ [1]) @ be32 (length h)) @ h) @ n) @ be32 (length c)) @ replicate (length c + m) 0"
    using k assms(1) by (intro copy_chunk) (simp_all add: envelopeMagic_def)
  have 6: "copy_into ((((((envelopeMagic @ [1]) @ be32 (length h)) @ h) @ n) @ be32 (length c)) @ replicate (length c + m) 0) (25 + length h) c
      = ((((((envelopeMagic @ [1]) @ be32 (length h)) @ h) @ n) @ be32 (length c)) @ c) @ replicate m 0"
    using assms(1) by (intro copy_chunk) (simp_all add: envelopeMagic_def)
  show ?thesis by (simp only: 1 2 3 4 5 6) simp
qed

lemma buildSignedRange_eq:
  assumes "length n = 12"
  shows "buildSignedRange h n c = envelopeMagic @ [1] @ be32 (length h) @ h @ n @ be32 (length c) @ c"
  using frame_chunks [OF assms, of "25 + length h + length c" h c 0]
  by (simp add: buildSignedRange_def Let_def envelope_lens envelopeVersion_def add.commute add.left_commute)

lemma encodeEnvelopeWire_eq:
  assumes "length n = 12" "length s = 64"
  shows "encodeEnvelopeWire h n c s = buildSignedRange h n c @ s"
proof -
  have "copy_into ((envelopeMagic @ [1] @ be32 (length h) @ h @ n @ be32 (length c) @ c) @ replicate 64 0)
      (25 + (length c + length h)) s = (envelopeMagic @ [1] @ be32 (length h) @ h @ n @ be32 (length c) @ c) @ s"
    using copy_chunk [of "envelopeMagic @ [1] @ be32 (length h) @ h @ n @ be32 (length c) @ c" "25 + (length c + length h)" 64 s 0]
      assms by (simp add: envelopeMagic_def)
  then show ?thesis
    using frame_chunks [OF assms(1), of "89 + length h + length c" h c 64]
    by (simp add: encodeEnvelopeWire_def buildSignedRange_eq [OF assms(1)] Let_def envelope_lens envelopeVersion_def
        add.commute add.left_commute)
qed

text \<open>Decoding, as far as the bytes go: header, nonce, body and signature of a frame.\<close>

definition frame_parts :: "bytes \<Rightarrow> bytes \<times> bytes \<times> bytes \<times> bytes \<Rightarrow> bool" where
  "frame_parts raw p =
     (case p of (h, n, c, s) \<Rightarrow>
        length n = 12 \<and> length s = 64 \<and> length h < 2 ^ 32 \<and> length c < 2 ^ 32 \<and> raw = encodeEnvelopeWire h n c s)"

lemma drop_part: "drop k raw = p @ q \<Longrightarrow> k' = k + length p \<Longrightarrow> drop k' raw = q"
  by (metis add.commute append_eq_conv_conj drop_drop)

lemma frame_parts_decode:
  assumes "frame_parts raw (h, n, c, s)"
  shows "decodeEnvelopeWire T raw =
    (case tx_unmarshal_header T h of None \<Rightarrow> Err ''parse header''
     | Some hdr \<Rightarrow> Ok \<lparr>ed_Header = hdr, ed_HeaderBytes = h, ed_BodyNonce = n, ed_BodyCiphertext = c, ed_Signature = s\<rparr>)"
proof -
  have l: "length n = 12" "length s = 64" "length h < 2 ^ 32" "length c < 2 ^ 32"
    and raw: "raw = envelopeMagic @ [1] @ be32 (length h) @ h @ n @ be32 (length c) @ c @ s"
    using assms by (auto simp: frame_parts_def encodeEnvelopeWire_eq buildSignedRange_eq)
  have m: "length envelopeMagic = 4" by (simp add: envelopeMagic_def)
  have d1: "drop 5 raw = be32 (length h) @ h @ n @ be32 (length c) @ c @ s"
    and d2: "drop 9 raw = h @ n @ be32 (length c) @ c @ s" and v: "raw ! 4 = 1" and t: "take 4 raw = envelopeMagic"
    by (simp_all add: raw m nth_append)
  have d3: "drop (9 + length h) raw = n @ be32 (length c) @ c @ s"
    by (rule drop_part [OF d2]) simp
  have d4: "drop (21 + length h) raw = be32 (length c) @ c @ s"
    by (rule drop_part [OF d3]) (simp add: l)
  have d5: "drop (25 + length h) raw = c @ s"
    by (rule drop_part [OF d4]) simp
  have d6: "drop (25 + length h + length c) raw = s"
    by (rule drop_part [OF d5]) simp
  have len: "length raw = 89 + length h + length c" using l by (simp add: raw m)
  show ?thesis
    using l unfolding decodeEnvelopeWire_def Let_def envelope_lens envelopeVersion_def
    by (simp add: d1 d2 d3 d4 d5 d6 v t len split: option.split)
qed

lemma decode_frame_parts:
  assumes "decodeEnvelopeWire T raw = Ok d"
  shows "frame_parts raw (ed_HeaderBytes d, ed_BodyNonce d, ed_BodyCiphertext d, ed_Signature d)
    \<and> tx_unmarshal_header T (ed_HeaderBytes d) = Some (ed_Header d)"
proof -
  define H B where "H = SetBytes (take 4 (drop 5 raw))" and "B = SetBytes (take 4 (drop (21 + H) raw))"
  have len: "89 \<le> length raw" using assms by (auto simp: decodeEnvelopeWire_def envelope_lens split: if_splits)
  then have u1: "Uint32 (drop 5 raw) = Ok H" by (simp add: Uint32_def H_def)
  have "\<not> length (drop (21 + H) raw) < 4"
  proof
    assume "length (drop (21 + H) raw) < 4"
    then show False using assms len u1
      by (auto simp: decodeEnvelopeWire_def envelope_lens Let_def Uint32_def [of "drop (21 + H) raw"] split: if_splits)
  qed
  then have u2: "Uint32 (drop (21 + H) raw) = Ok B" and l21: "25 + H \<le> length raw"
    by (simp_all add: Uint32_def B_def)
  obtain m: "take 4 raw = envelopeMagic" and v: "raw ! 4 = 1"
    and l: "length raw = 89 + H + B"
    and hdr: "tx_unmarshal_header T (take H (drop 9 raw)) = Some (ed_Header d)"
    and parts: "ed_HeaderBytes d = take H (drop 9 raw)" "ed_BodyNonce d = take 12 (drop (9 + H) raw)"
      "ed_BodyCiphertext d = take B (drop (25 + H) raw)" "ed_Signature d = take 64 (drop (25 + H + B) raw)"
    using assms u1 u2 len
    by (simp add: decodeEnvelopeWire_def envelope_lens envelopeVersion_def Let_def split: if_splits option.splits) auto
  have less: "H < 2 ^ 32" "B < 2 ^ 32"
    using SetBytes_less [of "take 4 (drop 5 raw)"] SetBytes_less [of "take 4 (drop (21 + H) raw)"] len l21
    by (simp_all add: H_def B_def)
  have be: "be32 H = take 4 (drop 5 raw)" "be32 B = take 4 (drop (21 + H) raw)"
    unfolding H_def [symmetric] using len l21 by (simp_all add: H_def B_def be32_SetBytes)
  have cut: "drop k raw = take j (drop k raw) @ drop (k + j) raw" for k j
    by (metis add.commute append_take_drop_id drop_drop)
  have "raw = take 4 raw @ drop 4 raw" by simp
  also have "drop 4 raw = raw ! 4 # drop 5 raw" using len Cons_nth_drop_Suc [of 4 raw] by simp
  also have "drop 5 raw = be32 H @ drop 9 raw" using cut [of 5 4] be(1) by simp
  also have "drop 9 raw = take H (drop 9 raw) @ drop (9 + H) raw" by (rule cut)
  also have "drop (9 + H) raw = take 12 (drop (9 + H) raw) @ drop (21 + H) raw" using cut [of "9 + H" 12] by simp
  also have "drop (21 + H) raw = be32 B @ drop (25 + H) raw" using cut [of "21 + H" 4] be(2) by simp
  also have "drop (25 + H) raw = take B (drop (25 + H) raw) @ drop (25 + H + B) raw" by (rule cut)
  also have "drop (25 + H + B) raw = take 64 (drop (25 + H + B) raw)" using l by simp
  finally have raw: "raw = envelopeMagic @ [1] @ be32 H @ take H (drop 9 raw) @ take 12 (drop (9 + H) raw) @ be32 B
      @ take B (drop (25 + H) raw) @ take 64 (drop (25 + H + B) raw)"
    using m v by simp
  have lens: "length (take H (drop 9 raw)) = H" "length (take 12 (drop (9 + H) raw)) = 12"
    "length (take B (drop (25 + H) raw)) = B" "length (take 64 (drop (25 + H + B) raw)) = 64"
    using l by simp_all
  have "raw = encodeEnvelopeWire (take H (drop 9 raw)) (take 12 (drop (9 + H) raw)) (take B (drop (25 + H) raw))
      (take 64 (drop (25 + H + B) raw))"
    unfolding encodeEnvelopeWire_eq [OF lens(2,4)] buildSignedRange_eq [OF lens(2)] lens(1,3)
    using raw by simp
  then show ?thesis
    using hdr less lens unfolding frame_parts_def parts by simp
qed

section \<open>Wrapping the key\<close>

definition envelopeWrapInfoLabel :: bytes where
  "envelopeWrapInfoLabel = bytes_of ''NPVS-v1-wrap''"

text \<open>
  The randomness of one wrap is that of the ephemeral key and the read of the nonce. The derived key
  has 32 bytes by the size of its buffer, which AES and GCM accept.
\<close>

definition ecdhEphemeralWrap ::
    "crypto \<Rightarrow> bytes \<Rightarrow> random_read \<Rightarrow> bytes \<Rightarrow> bytes \<Rightarrow> bytes \<Rightarrow> string + bytes \<times> bytes" where
  "ecdhEphemeralWrap C ephRnd nonceRnd recipientPubCompressed configID dek =
     (case decodeP256CompressedToEcdh C recipientPubCompressed of Err e \<Rightarrow> Err (''decode recipient pubkey: '' @ e)
      | Ok recipientPub \<Rightarrow>
     case ecdh_GenerateKey C ephRnd of None \<Rightarrow> Err ''generate ephemeral key''
      | Some (ephPriv, ephPubBytes) \<Rightarrow>
     case compressUncompressedP256 ephPubBytes of Err e \<Rightarrow> Err (''compress ephemeral pubkey: '' @ e)
      | Ok ephPubCompressed \<Rightarrow>
     case ecdh_ECDH C ephPriv recipientPub of None \<Rightarrow> Err ''ECDH''
      | Some shared \<Rightarrow>
     let fp = sha256 C recipientPubCompressed; info = envelopeWrapInfoLabel @ configID in
     case hkdf_sha256 C shared fp info 32 of None \<Rightarrow> Err ''HKDF''
      | Some okm \<Rightarrow>
     let kdk = read_into 32 okm in
     if \<not> fst nonceRnd then Err ''gcm nonce''
     else let nonce = read_into 12 (snd nonceRnd); ctWithTag = gcm_Seal C kdk nonce dek fp in
     if length ctWithTag \<noteq> length dek + 16 then Err ''unexpected gcm output length''
     else let wrap = ephPubCompressed @ nonce @ ctWithTag in
     if length wrap \<noteq> envelopeWrapLen then Err ''wrap length''
     else Ok (wrap, fp))"

definition chachaPoly1305Encrypt :: "crypto \<Rightarrow> bytes \<Rightarrow> bytes \<Rightarrow> bytes \<Rightarrow> bytes \<Rightarrow> string + bytes" where
  "chachaPoly1305Encrypt C key nonce aad plaintext =
     (if length key \<noteq> 32 then Err ''new chacha20poly1305''
      else if length nonce \<noteq> 12 then Err ''nonce len''
      else Ok (chacha_Seal C key nonce plaintext aad))"

text \<open>A nonce of another length makes \<open>Open\<close> panic.\<close>

definition chachaPoly1305Decrypt :: "crypto \<Rightarrow> bytes \<Rightarrow> bytes \<Rightarrow> bytes \<Rightarrow> bytes \<Rightarrow> string + bytes" where
  "chachaPoly1305Decrypt C key nonce aad ciphertext =
     (if length key \<noteq> 32 then Err ''new chacha20poly1305''
      else if length nonce \<noteq> 12 then Err ''panic: chacha20poly1305: bad nonce length passed to Open''
      else case chacha_Open C key nonce ciphertext aad of
        None \<Rightarrow> Err ''message authentication failed''
      | Some plain \<Rightarrow> Ok plain)"

definition zeroize :: "bytes \<Rightarrow> bytes" where
  "zeroize b = map (\<lambda>_. 0) b"

definition ptrOrNil :: "string \<Rightarrow> string option" where
  "ptrOrNil s = (if s = '''' then None else Some s)"


section \<open>Minting\<close>

record mintInput =
  mi_CreatorKey :: "PrivateKey option"
  mi_RecipientPubKeys :: "bytes list"
  mi_IssuerURL :: string
  mi_DisplayName :: string
  mi_ConfigID :: "bytes option"
  mi_IssuedAt :: time
  mi_Policy :: "envelopePolicy option"

record mintResult =
  mr_EnvelopeBytes :: bytes
  mr_ConfigFp :: string
  mr_ConfigID :: bytes

text \<open>The clock and the random reads of one minting; the wraps have one pair each, by position.\<close>

record mintRandom =
  mn_now :: time
  mn_configID :: random_read
  mn_dek :: random_read
  mn_nonce :: random_read
  mn_eph :: "nat \<Rightarrow> bytes"
  mn_wrapNonce :: "nat \<Rightarrow> random_read"
  mn_sign :: bytes

fun check_recipients :: "nat \<Rightarrow> bytes list \<Rightarrow> string option" where
  "check_recipients i [] = None"
| "check_recipients i (pk # pks) =
     (if length pk \<noteq> envelopeP256CompLen
      then Some (''recipient '' @ Itoa (int i) @ '': pubkey must be 33 bytes (P-256 compressed), got ''
        @ Itoa (int (length pk)))
      else check_recipients (Suc i) pks)"

fun wrap_recipients ::
    "crypto \<Rightarrow> mintRandom \<Rightarrow> bytes \<Rightarrow> bytes \<Rightarrow> nat \<Rightarrow> bytes list \<Rightarrow> string + envelopeRecipient list" where
  "wrap_recipients C R configID dek i [] = Ok []"
| "wrap_recipients C R configID dek i (pk # pks) =
     (case ecdhEphemeralWrap C (mn_eph R i) (mn_wrapNonce R i) pk configID dek of
        Err e \<Rightarrow> Err (''wrap recipient '' @ Itoa (int i) @ '': '' @ e)
      | Ok (wrap, fp) \<Rightarrow>
          (case wrap_recipients C R configID dek (Suc i) pks of
             Err e \<Rightarrow> Err e
           | Ok rs \<Rightarrow> Ok (\<lparr>rc_Fp = EncodeToString fp, rc_Wrap = EncodeToString wrap\<rparr> # rs)))"

definition default_envelopePolicy :: envelopePolicy where
  "default_envelopePolicy = \<lparr>ep_OnlyMobileNetwork = False, ep_AttestationLevel = ''NONE'', ep_ExpiresAt = None,
     ep_DisplayMessage = '''', ep_CustomServerMessage = ''''\<rparr>"

definition issuerBodyKindV2 :: string where "issuerBodyKindV2 = ''v2-issuer''"

definition encodeIssuerBody :: "texts \<Rightarrow> issuerBody \<Rightarrow> bytes option" where
  "encodeIssuerBody T b = tx_marshal_body T b"

definition mint_checks :: "mintInput \<Rightarrow> mintRandom \<Rightarrow> string + PrivateKey \<times> bytes" where
  "mint_checks inp R =
     (case mi_CreatorKey inp of None \<Rightarrow> Err ''CreatorKey is required''
      | Some creatorKey \<Rightarrow>
     if mi_RecipientPubKeys inp = [] then Err ''at least one recipient pubkey is required''
     else case check_recipients 0 (mi_RecipientPubKeys inp) of Some e \<Rightarrow> Err e
      | None \<Rightarrow>
     if mi_IssuerURL inp = '''' then Err ''IssuerURL is required''
     else case (case mi_ConfigID inp of Some cid \<Rightarrow> Ok cid
         | None \<Rightarrow> if fst (mn_configID R) then Ok (read_into envelopeConfigIDLen (snd (mn_configID R)))
                   else Err ''generate configId'') of Err e \<Rightarrow> Err e
      | Ok configID \<Rightarrow>
     if length configID \<noteq> envelopeConfigIDLen then Err (''ConfigID must be 16 bytes, got '' @ Itoa (int (length configID)))
     else Ok (creatorKey, configID))"

definition mint_header :: "crypto \<Rightarrow> texts \<Rightarrow> mintInput \<Rightarrow> mintRandom \<Rightarrow> bytes \<Rightarrow> bytes \<Rightarrow> envelopeRecipient list \<Rightarrow> envelopeHeader" where
  "mint_header C T inp R configID creatorPub recipients =
     \<lparr>eh_V = 1, eh_ConfigID = EncodeToString configID,
      eh_IssuedAt = tx_format_issued T (if mi_IssuedAt inp = zero_time then mn_now R else mi_IssuedAt inp),
      eh_Creator = \<lparr>cf_Fp = EncodeToString (sha256 C creatorPub), cf_Pk = EncodeToString creatorPub\<rparr>,
      eh_Policy = (case mi_Policy inp of None \<Rightarrow> default_envelopePolicy | Some p \<Rightarrow> p),
      eh_Recipients = recipients\<rparr>"

definition mint_body :: "mintInput \<Rightarrow> bytes \<Rightarrow> issuerBody" where
  "mint_body inp creatorPub =
     \<lparr>ib_Kind = issuerBodyKindV2, ib_CreatorPubkey = EncodeToString creatorPub,
      ib_IssuerURL = mi_IssuerURL inp, ib_DisplayName = normalizeDisplayName (mi_DisplayName inp)\<rparr>"

definition mintIssuerEnvelope :: "crypto \<Rightarrow> texts \<Rightarrow> mintRandom \<Rightarrow> mintInput \<Rightarrow> string + mintResult" where
  "mintIssuerEnvelope C T R inp =
     (case mint_checks inp R of Err e \<Rightarrow> Err e
      | Ok (creatorKey, configID) \<Rightarrow>
     case compressP256 (sk_Public creatorKey) of Err e \<Rightarrow> Err (''compress creator pubkey: '' @ e)
      | Ok creatorPub \<Rightarrow>
     if \<not> fst (mn_dek R) then Err ''generate DEK''
     else let dek = read_into envelopeDEKLen (snd (mn_dek R)) in
     if \<not> fst (mn_nonce R) then Err ''generate body nonce''
     else let bodyNonce = read_into envelopeBodyNonceLen (snd (mn_nonce R)) in
     case wrap_recipients C R configID dek 0 (mi_RecipientPubKeys inp) of Err e \<Rightarrow> Err e
      | Ok recipientEntries \<Rightarrow>
     case tx_canonical T (mint_header C T inp R configID creatorPub recipientEntries) of
       Err e \<Rightarrow> Err (''canonicalize header: '' @ e)
      | Ok headerBytes \<Rightarrow>
     case encodeIssuerBody T (mint_body inp creatorPub) of None \<Rightarrow> Err ''encode issuer body''
      | Some bodyBytes \<Rightarrow>
     case chachaPoly1305Encrypt C dek bodyNonce headerBytes bodyBytes of Err e \<Rightarrow> Err (''encrypt body: '' @ e)
      | Ok bodyCipher \<Rightarrow>
     case signP1363 C (mn_sign R) creatorKey (buildSignedRange headerBytes bodyNonce bodyCipher) of
       Err e \<Rightarrow> Err (''sign envelope: '' @ e)
      | Ok sig \<Rightarrow>
     let envelopeBytes = encodeEnvelopeWire headerBytes bodyNonce bodyCipher sig in
     Ok \<lparr>mr_EnvelopeBytes = envelopeBytes, mr_ConfigFp = EncodeToString (sha256 C envelopeBytes),
       mr_ConfigID = configID\<rparr>)"

section \<open>What minting produces\<close>

lemma ecdhEphemeralWrap_result:
  "ecdhEphemeralWrap C eph rnd pk cid dek = Ok (wrap, fp) \<Longrightarrow> length wrap = 93 \<and> fp = sha256 C pk"
  by (auto simp: ecdhEphemeralWrap_def Let_def envelope_lens split: sum.splits option.splits prod.splits if_splits)

lemma wrap_recipients_result:
  assumes "wrap_recipients C R cid dek i pks = Ok rs"
  shows "length rs = length pks \<and> (\<forall>j < length pks. \<exists>wrap.
    ecdhEphemeralWrap C (mn_eph R (i + j)) (mn_wrapNonce R (i + j)) (pks ! j) cid dek = Ok (wrap, sha256 C (pks ! j)) \<and>
    length wrap = 93 \<and>
    rs ! j = \<lparr>rc_Fp = EncodeToString (sha256 C (pks ! j)), rc_Wrap = EncodeToString wrap\<rparr>)"
  using assms
proof (induction pks arbitrary: i rs)
  case Nil
  then show ?case by simp
next
  case (Cons pk pks)
  obtain wrap fp rs' where w: "ecdhEphemeralWrap C (mn_eph R i) (mn_wrapNonce R i) pk cid dek = Ok (wrap, fp)"
    and r: "wrap_recipients C R cid dek (Suc i) pks = Ok rs'"
    and rs: "rs = \<lparr>rc_Fp = EncodeToString fp, rc_Wrap = EncodeToString wrap\<rparr> # rs'"
    using Cons.prems by (auto split: sum.splits prod.splits)
  show ?case
  proof (intro conjI allI impI)
    show "length rs = length (pk # pks)" using Cons.IH [OF r] rs by simp
    fix j assume "j < length (pk # pks)"
    then show "\<exists>wrap. ecdhEphemeralWrap C (mn_eph R (i + j)) (mn_wrapNonce R (i + j)) ((pk # pks) ! j) cid dek
          = Ok (wrap, sha256 C ((pk # pks) ! j)) \<and> length wrap = 93 \<and>
        rs ! j = \<lparr>rc_Fp = EncodeToString (sha256 C ((pk # pks) ! j)), rc_Wrap = EncodeToString wrap\<rparr>"
    proof (cases j)
      case 0
      then show ?thesis using w ecdhEphemeralWrap_result [OF w] rs by simp
    next
      case (Suc j')
      then show ?thesis using conjunct2 [OF Cons.IH [OF r], rule_format, of j'] \<open>j < _\<close> rs by simp
    qed
  qed
qed

text \<open>The laws of the authenticated encryption and of the header's text that minting relies on.\<close>

definition aead_correct :: "crypto \<Rightarrow> bool" where
  "aead_correct C = (\<forall>k n m a. length k = 32 \<longrightarrow> length n = 12 \<longrightarrow> chacha_Open C k n (chacha_Seal C k n m a) a = Some m)"

text \<open>JSON keeps the texts that are valid UTF-8; the texts of a policy come out of a JSON decoder and are.\<close>

definition policy_utf8 :: "envelopePolicy \<Rightarrow> bool" where
  "policy_utf8 p = (valid_text (ep_AttestationLevel p) = ep_AttestationLevel p \<and>
     (case ep_ExpiresAt p of None \<Rightarrow> True | Some s \<Rightarrow> valid_text s = s) \<and>
     valid_text (ep_DisplayMessage p) = ep_DisplayMessage p \<and> valid_text (ep_CustomServerMessage p) = ep_CustomServerMessage p)"

definition header_utf8 :: "envelopeHeader \<Rightarrow> bool" where
  "header_utf8 h = (valid_text (eh_ConfigID h) = eh_ConfigID h \<and> valid_text (eh_IssuedAt h) = eh_IssuedAt h \<and>
     valid_text (cf_Fp (eh_Creator h)) = cf_Fp (eh_Creator h) \<and> valid_text (cf_Pk (eh_Creator h)) = cf_Pk (eh_Creator h) \<and>
     policy_utf8 (eh_Policy h) \<and>
     list_all (\<lambda>r. valid_text (rc_Fp r) = rc_Fp r \<and> valid_text (rc_Wrap r) = rc_Wrap r) (eh_Recipients h))"

definition header_text_correct :: "texts \<Rightarrow> bool" where
  "header_text_correct T = ((\<forall>h b. header_utf8 h \<longrightarrow> tx_canonical T h = Ok b \<longrightarrow> tx_unmarshal_header T b = Some h) \<and>
     (\<forall>t. valid_text (tx_format_issued T t) = tx_format_issued T t))"

lemma valid_text_Encode [simp]: "valid_text (EncodeToString b) = EncodeToString b"
  using EncodeToString_plain [of b] by (intro valid_text_ascii) (auto simp: list_all_iff plain_char_def code_def)

lemma valid_text_NONE: "policy_utf8 default_envelopePolicy"
proof -
  have "valid_text ''NONE'' = ''NONE''" by (rule valid_text_ascii) (simp add: code_def)
  moreover have "valid_text '''' = ''''" by (rule valid_text_ascii) simp
  ultimately show ?thesis by (simp add: policy_utf8_def default_envelopePolicy_def)
qed

lemma mint_header_utf8:
  assumes "header_text_correct T" "\<And>p. mi_Policy inp = Some p \<Longrightarrow> policy_utf8 p"
    and "wrap_recipients C' R' cid' dek i pks = Ok rs"
  shows "header_utf8 (mint_header C T inp R cid pub rs)"
proof -
  have "list_all (\<lambda>r. valid_text (rc_Fp r) = rc_Fp r \<and> valid_text (rc_Wrap r) = rc_Wrap r) rs"
    using wrap_recipients_result [OF assms(3)] by (auto simp: list_all_length)
  then show ?thesis
    using assms(1,2) valid_text_NONE by (simp add: header_utf8_def mint_header_def header_text_correct_def split: option.split)
qed

lemma check_recipients_None: "check_recipients i pks = None \<longleftrightarrow> (\<forall>pk \<in> set pks. length pk = 33)"
  by (induction pks arbitrary: i) (auto simp: envelope_lens)

lemma mint_checks_Ok:
  "mint_checks inp R = Ok (key, cid) \<longleftrightarrow>
     mi_CreatorKey inp = Some key \<and> mi_RecipientPubKeys inp \<noteq> [] \<and>
     (\<forall>pk \<in> set (mi_RecipientPubKeys inp). length pk = 33) \<and> mi_IssuerURL inp \<noteq> '''' \<and> length cid = 16 \<and>
     (case mi_ConfigID inp of Some c \<Rightarrow> cid = c
      | None \<Rightarrow> fst (mn_configID R) \<and> cid = read_into 16 (snd (mn_configID R)))"
  unfolding check_recipients_None [of 0, symmetric]
  by (auto simp: mint_checks_def envelope_lens split: option.splits)

lemma mint_cases:
  assumes "mintIssuerEnvelope C T R inp = Ok res"
  obtains key cid pub rs hb bb sig where
    "mint_checks inp R = Ok (key, cid)" "compressP256 (sk_Public key) = Ok pub"
    "wrap_recipients C R cid (read_into 32 (snd (mn_dek R))) 0 (mi_RecipientPubKeys inp) = Ok rs"
    "tx_canonical T (mint_header C T inp R cid pub rs) = Ok hb"
    "encodeIssuerBody T (mint_body inp pub) = Some bb"
    "signP1363 C (mn_sign R) key (buildSignedRange hb (read_into 12 (snd (mn_nonce R)))
       (chacha_Seal C (read_into 32 (snd (mn_dek R))) (read_into 12 (snd (mn_nonce R))) bb hb)) = Ok sig"
    "mr_EnvelopeBytes res = encodeEnvelopeWire hb (read_into 12 (snd (mn_nonce R)))
       (chacha_Seal C (read_into 32 (snd (mn_dek R))) (read_into 12 (snd (mn_nonce R))) bb hb) sig"
    "mr_ConfigID res = cid" "mr_ConfigFp res = EncodeToString (sha256 C (mr_EnvelopeBytes res))"
    "fst (mn_dek R)" "fst (mn_nonce R)"
  using assms
  by (auto simp: mintIssuerEnvelope_def Let_def envelopeDEKLen_def envelopeBodyNonceLen_def chachaPoly1305Encrypt_def
      split: sum.splits prod.splits option.splits if_splits)

lemma signP1363_length:
  assumes "ecdsa_correct C key" "signP1363 C rnd key msg = Ok sig"
  shows "length sig = 64 \<and> verifyP1363Signature C (sk_Public key) msg sig"
proof -
  obtain r s where "ecdsa_Sign C rnd key (sha256 C msg) = Some (r, s)"
    using assms(2) by (auto simp: signP1363_def Let_def split: option.splits)
  from signP1363_verifies [OF assms(1) this] show ?thesis using assms(2) by auto
qed


lemma frame_iff:
  "decodeEnvelopeWire T raw = Ok \<lparr>ed_Header = hdr, ed_HeaderBytes = h, ed_BodyNonce = n, ed_BodyCiphertext = c, ed_Signature = s\<rparr>
   \<longleftrightarrow> raw = encodeEnvelopeWire h n c s \<and> length n = 12 \<and> length s = 64 \<and> length h < 2 ^ 32 \<and> length c < 2 ^ 32 \<and>
       tx_unmarshal_header T h = Some hdr"
proof
  assume "decodeEnvelopeWire T raw = Ok \<lparr>ed_Header = hdr, ed_HeaderBytes = h, ed_BodyNonce = n, ed_BodyCiphertext = c, ed_Signature = s\<rparr>"
  from decode_frame_parts [OF this] show "raw = encodeEnvelopeWire h n c s \<and> length n = 12 \<and> length s = 64 \<and>
      length h < 2 ^ 32 \<and> length c < 2 ^ 32 \<and> tx_unmarshal_header T h = Some hdr"
    by (simp add: frame_parts_def)
next
  assume a: "raw = encodeEnvelopeWire h n c s \<and> length n = 12 \<and> length s = 64 \<and>
      length h < 2 ^ 32 \<and> length c < 2 ^ 32 \<and> tx_unmarshal_header T h = Some hdr"
  then have "frame_parts raw (h, n, c, s)" by (simp add: frame_parts_def)
  from frame_parts_decode [OF this, of T] a
  show "decodeEnvelopeWire T raw = Ok \<lparr>ed_Header = hdr, ed_HeaderBytes = h, ed_BodyNonce = n, ed_BodyCiphertext = c, ed_Signature = s\<rparr>"
    by simp
qed

lemma minted_frame:
  assumes mint: "mintIssuerEnvelope C T R inp = Ok res" and key: "mi_CreatorKey inp = Some key"
    and laws: "ecdsa_correct C key" "header_text_correct T"
    and policy: "\<And>p. mi_Policy inp = Some p \<Longrightarrow> policy_utf8 p"
    and size: "length (mr_EnvelopeBytes res) < 2 ^ 32"
  obtains pub rs hb bb sig where
    "decodeEnvelopeWire T (mr_EnvelopeBytes res) = Ok \<lparr>ed_Header = mint_header C T inp R (mr_ConfigID res) pub rs, ed_HeaderBytes = hb,
       ed_BodyNonce = read_into 12 (snd (mn_nonce R)),
       ed_BodyCiphertext = chacha_Seal C (read_into 32 (snd (mn_dek R))) (read_into 12 (snd (mn_nonce R))) bb hb, ed_Signature = sig\<rparr>"
    "wrap_recipients C R (mr_ConfigID res) (read_into 32 (snd (mn_dek R))) 0 (mi_RecipientPubKeys inp) = Ok rs"
    "encodeIssuerBody T (mint_body inp pub) = Some bb" "compressP256 (sk_Public key) = Ok pub"
    "verifyP1363Signature C (sk_Public key) (buildSignedRange hb (read_into 12 (snd (mn_nonce R)))
       (chacha_Seal C (read_into 32 (snd (mn_dek R))) (read_into 12 (snd (mn_nonce R))) bb hb)) sig"
  using mint
proof (cases rule: mint_cases)
  case (1 key' cid pub rs hb bb sig)
  let ?dek = "read_into 32 (snd (mn_dek R))" and ?n = "read_into 12 (snd (mn_nonce R))"
  let ?c = "chacha_Seal C ?dek ?n bb hb"
  have k: "key' = key" and cid: "length cid = 16" using 1(1) key by (simp_all add: mint_checks_Ok)
  have sig: "length sig = 64" "verifyP1363Signature C (sk_Public key) (buildSignedRange hb ?n ?c) sig"
    using signP1363_length [OF laws(1)] 1(6) k by auto
  have env: "mr_EnvelopeBytes res = buildSignedRange hb ?n ?c @ sig"
    using 1(7) sig(1) by (simp add: encodeEnvelopeWire_eq)
  have small: "length hb < 2 ^ 32" "length ?c < 2 ^ 32"
    using size by (simp_all add: env buildSignedRange_eq)
  have parse: "tx_unmarshal_header T hb = Some (mint_header C T inp R cid pub rs)"
    using laws(2) 1(4) mint_header_utf8 [OF laws(2) policy 1(3)] by (simp add: header_text_correct_def)
  have dec: "decodeEnvelopeWire T (mr_EnvelopeBytes res) = Ok \<lparr>ed_Header = mint_header C T inp R cid pub rs,
      ed_HeaderBytes = hb, ed_BodyNonce = ?n, ed_BodyCiphertext = ?c, ed_Signature = sig\<rparr>"
    unfolding frame_iff using 1(7) sig(1) small parse by simp
  then show ?thesis using 1(2,3,5,8) k sig(2) by (intro that) simp_all
qed


section \<open>Properties\<close>

text \<open>C14. The envelope frame is a strict format: the decoder accepts a byte string with some header,
  nonce, body and signature exactly when these have their lengths, the header's text parses, and the
  bytes are the encoder's output for them; so nothing but encodings is accepted, without slack in
  lengths or trailing bytes, and a frame has one reading.\<close>

theorem frame_strict_roundtrip:
  "decodeEnvelopeWire T raw = Ok \<lparr>ed_Header = hdr, ed_HeaderBytes = h, ed_BodyNonce = n, ed_BodyCiphertext = c, ed_Signature = s\<rparr>
   \<longleftrightarrow> raw = encodeEnvelopeWire h n c s \<and> length n = 12 \<and> length s = 64 \<and> length h < 2 ^ 32 \<and> length c < 2 ^ 32 \<and>
       tx_unmarshal_header T h = Some hdr"
  by (rule frame_iff)

text \<open>C34. The decoder is meant to reject truncation with an error, but it panics on exactly the frames
  with a good magic and version whose declared header leaves room for the nonce and fewer than four
  bytes after it, where the length of the body would be: the minimum length it checks counts on a short
  header. The frame of 89 bytes that declares a header of 68 is one.\<close>

theorem decode_panics_exactly:
  "(decodeEnvelopeWire T raw = Err index_panic \<longleftrightarrow>
     89 \<le> length raw \<and> take 4 raw = envelopeMagic \<and> raw ! 4 = 1 \<and>
     21 + SetBytes (take 4 (drop 5 raw)) \<le> length raw \<and> length raw < 25 + SetBytes (take 4 (drop 5 raw))) \<and>
   decodeEnvelopeWire T (envelopeMagic @ [1, 0, 0, 0, 68] @ replicate 80 0) = Err index_panic"
proof -
  let ?H = "\<lambda>raw. SetBytes (take 4 (drop 5 raw))"
  have iff: "decodeEnvelopeWire T raw = Err index_panic \<longleftrightarrow>
     89 \<le> length raw \<and> take 4 raw = envelopeMagic \<and> raw ! 4 = 1 \<and>
     21 + ?H raw \<le> length raw \<and> length raw < 25 + ?H raw" for raw
  proof (cases "89 \<le> length raw")
    case False
    then show ?thesis by (simp add: decodeEnvelopeWire_def envelope_lens index_panic_def)
  next
    case True
    then have u1: "Uint32 (drop 5 raw) = Ok (?H raw)" by (simp add: Uint32_def)
    have u2: "Uint32 (drop (21 + ?H raw) raw) =
        (if length raw < 25 + ?H raw then Err index_panic else Ok (SetBytes (take 4 (drop (21 + ?H raw) raw))))"
      if "21 + ?H raw \<le> length raw" using that by (auto simp: Uint32_def)
    show ?thesis
    proof (cases "21 + ?H raw \<le> length raw")
      case True
      show ?thesis using u1 u2 [OF True] \<open>89 \<le> length raw\<close> True
        by (simp add: decodeEnvelopeWire_def envelope_lens envelopeVersion_def Let_def index_panic_def split: option.split)
    next
      case False
      then show ?thesis using u1 \<open>89 \<le> length raw\<close>
        by (simp add: decodeEnvelopeWire_def envelope_lens envelopeVersion_def Let_def index_panic_def)
    qed
  qed
  have "decodeEnvelopeWire T (envelopeMagic @ [1, 0, 0, 0, 68] @ replicate 80 0) = Err index_panic"
    unfolding iff by (simp add: envelopeMagic_def SetBytes_def)
  with iff show ?thesis by blast
qed

text \<open>C8. A minted envelope opens: when minting succeeds (for a policy of valid UTF-8 texts), the decoder accepts the bytes; the header
  names the configuration and carries for each recipient, in order, the fingerprint and a 93-byte wrap
  of the one content key; the creator's key verifies the signature over the signed range; and the content
  key opens the body, bound to the header's bytes, giving the issuer body with the URL asked for.\<close>

theorem minted_envelope_opens:
  assumes mint: "mintIssuerEnvelope C T R inp = Ok res" and key: "mi_CreatorKey inp = Some key"
    and laws: "ecdsa_correct C key" "aead_correct C" "header_text_correct T"
    and policy: "\<And>p. mi_Policy inp = Some p \<Longrightarrow> policy_utf8 p"
    and size: "length (mr_EnvelopeBytes res) < 2 ^ 32"
  shows "\<exists>d dek bb. decodeEnvelopeWire T (mr_EnvelopeBytes res) = Ok d \<and>
    DecodeString (eh_ConfigID (ed_Header d)) = Some (mr_ConfigID res) \<and>
    length (eh_Recipients (ed_Header d)) = length (mi_RecipientPubKeys inp) \<and>
    (\<forall>j < length (mi_RecipientPubKeys inp). \<exists>wrap. length wrap = 93 \<and>
       ecdhEphemeralWrap C (mn_eph R j) (mn_wrapNonce R j) (mi_RecipientPubKeys inp ! j) (mr_ConfigID res) dek
         = Ok (wrap, sha256 C (mi_RecipientPubKeys inp ! j)) \<and>
       eh_Recipients (ed_Header d) ! j
         = \<lparr>rc_Fp = EncodeToString (sha256 C (mi_RecipientPubKeys inp ! j)), rc_Wrap = EncodeToString wrap\<rparr>) \<and>
    verifyP1363Signature C (sk_Public key)
      (buildSignedRange (ed_HeaderBytes d) (ed_BodyNonce d) (ed_BodyCiphertext d)) (ed_Signature d) \<and>
    chachaPoly1305Decrypt C dek (ed_BodyNonce d) (ed_HeaderBytes d) (ed_BodyCiphertext d) = Ok bb \<and>
    encodeIssuerBody T (mint_body inp (the (DecodeString (cf_Pk (eh_Creator (ed_Header d)))))) = Some bb"
proof -
  let ?dek = "read_into 32 (snd (mn_dek R))" and ?n = "read_into 12 (snd (mn_nonce R))"
  obtain pub rs hb bb sig where f: "decodeEnvelopeWire T (mr_EnvelopeBytes res) = Ok \<lparr>ed_Header = mint_header C T inp R (mr_ConfigID res) pub rs,
      ed_HeaderBytes = hb, ed_BodyNonce = ?n, ed_BodyCiphertext = chacha_Seal C ?dek ?n bb hb, ed_Signature = sig\<rparr>"
    "wrap_recipients C R (mr_ConfigID res) ?dek 0 (mi_RecipientPubKeys inp) = Ok rs"
    "encodeIssuerBody T (mint_body inp pub) = Some bb" "compressP256 (sk_Public key) = Ok pub"
    "verifyP1363Signature C (sk_Public key) (buildSignedRange hb ?n (chacha_Seal C ?dek ?n bb hb)) sig"
    by (rule minted_frame [OF mint key laws(1,3) policy size])
  have open_body: "chachaPoly1305Decrypt C ?dek ?n hb (chacha_Seal C ?dek ?n bb hb) = Ok bb"
    using laws(2) by (simp add: chachaPoly1305Decrypt_def aead_correct_def)
  show ?thesis
    by (rule exI, rule exI [of _ ?dek], rule exI [of _ bb], rule conjI, rule f(1))
      (use wrap_recipients_result [OF f(2)] open_body f(3,5) in \<open>auto simp: mint_header_def Decode_Encode\<close>)
qed

section \<open>Sample data\<close>

definition sample_texts :: "envelopeHeader \<Rightarrow> texts" where
  "sample_texts h = \<lparr>tx_canonical = (\<lambda>x. if x = h then Ok [1] else Err ''other header''),
     tx_unmarshal_header = (\<lambda>b. Some h), tx_marshal_body = (\<lambda>b. Some [2]), tx_format_issued = (\<lambda>t. ''t'')\<rparr>"

definition sample_random :: mintRandom where
  "sample_random = \<lparr>mn_now = 1, mn_configID = (True, []), mn_dek = (True, []), mn_nonce = (True, []),
     mn_eph = (\<lambda>i. []), mn_wrapNonce = (\<lambda>i. (True, [])), mn_sign = []\<rparr>"

definition sample_mint :: "bytes \<Rightarrow> mintInput" where
  "sample_mint pk = \<lparr>mi_CreatorKey = Some sample_key, mi_RecipientPubKeys = [pk], mi_IssuerURL = ''https://i'',
     mi_DisplayName = '''', mi_ConfigID = Some (replicate 16 1), mi_IssuedAt = zero_time, mi_Policy = None\<rparr>"

lemma sample_wrap:
  assumes "length pk = 33" "length dek = 32"
  obtains wrap where "ecdhEphemeralWrap sample_crypto eph (True, r) pk cid dek = Ok (wrap, sha256 sample_crypto pk)"
proof -
  define x y where "x = SetBytes (drop 1 pk)" and "y = (if hd pk = 2 then 0 else 1 :: nat)"
  have x: "x < 256 ^ 32" using SetBytes_less [of "drop 1 pk"] assms(1) by (simp add: x_def)
  have y: "y < 256 ^ 32" by (simp add: y_def)
  have pt: "UnmarshalCompressed sample_crypto pk = Some (x, y)" "ecdh_NewPublicKey sample_crypto u = Some u" for u
    by (simp_all add: sample_crypto_def x_def y_def)
  have u1: "copy_right 33 (Int_Bytes x) (4 # replicate 64 0) = Ok (4 # word_bytes 32 x @ replicate 32 0)"
    using copy_right_word [OF x, of 33 "4 # replicate 64 0"] by simp
  have u2: "copy_right 65 (Int_Bytes y) (4 # word_bytes 32 x @ replicate 32 0) = Ok (4 # word_bytes 32 x @ word_bytes 32 y)"
    using copy_right_word [OF y, of 65 "4 # word_bytes 32 x @ replicate 32 0"] x by simp
  have d: "decodeP256CompressedToEcdh sample_crypto pk = Ok (4 # word_bytes 32 x @ word_bytes 32 y)"
    using assms(1) u1 u2 by (simp add: decodeP256CompressedToEcdh_def pt)
  have c: "compressUncompressedP256 (4 # replicate 64 0) = Ok (2 # replicate 32 0)"
    by (simp add: compressUncompressedP256_def)
  have "\<exists>wrap. ecdhEphemeralWrap sample_crypto eph (True, r) pk cid dek = Ok (wrap, sha256 sample_crypto pk)"
    using assms(2) d c by (simp add: ecdhEphemeralWrap_def Let_def) (simp add: sample_crypto_def envelope_lens)
  then show ?thesis using that by blast
qed

text \<open>With texts made for the right header, minting on the sample primitives succeeds.\<close>

lemma sample_mint_succeeds:
  assumes "length pk = 33" "mi_CreatorKey inp = Some sample_key" "mi_RecipientPubKeys inp = [pk]"
    "mi_IssuerURL inp \<noteq> ''''" "mi_ConfigID inp = Some cid" "length cid = 16"
  obtains h res where "mintIssuerEnvelope sample_crypto (sample_texts h) sample_random inp = Ok res"
    "length (mr_EnvelopeBytes res) < 2 ^ 32" "mr_ConfigID res = cid"
proof -
  let ?C = sample_crypto and ?R = sample_random
  obtain pub where pub: "compressP256 (sk_Public sample_key) = Ok pub"
    using sample_point_decompresses compressP256_Ok [of "sk_Public sample_key"]
    by (simp add: point_decompresses_def)
  have dek: "length (read_into 32 []) = 32" by simp
  have eph: "mn_eph ?R 0 = []" "mn_wrapNonce ?R 0 = (True, [])" by (simp_all add: sample_random_def)
  obtain wrap where w: "ecdhEphemeralWrap ?C [] (True, []) pk cid (read_into 32 []) = Ok (wrap, sha256 ?C pk)"
    by (rule sample_wrap [OF assms(1) dek])
  define rs where "rs = [\<lparr>rc_Fp = EncodeToString (sha256 ?C pk), rc_Wrap = EncodeToString wrap\<rparr>]"
  have rs: "wrap_recipients ?C ?R cid (read_into 32 []) 0 [pk] = Ok rs"
    by (simp add: eph w rs_def)
  define h where "h = mint_header ?C (sample_texts undefined) inp ?R cid pub rs"
  have h: "mint_header ?C (sample_texts x) inp ?R cid pub rs = h" for x
    by (simp add: h_def mint_header_def sample_texts_def)
  let ?n = "read_into 12 []" and ?c = "chacha_Seal ?C (read_into 32 []) (read_into 12 []) [2] [1]"
  have sgn: "ecdsa_Sign ?C [] sample_key (sha256 ?C (buildSignedRange [1] ?n ?c)) = Some (1, 2)"
    by (simp add: sample_crypto_def)
  obtain sig where sig: "signP1363 ?C [] sample_key (buildSignedRange [1] ?n ?c) = Ok sig" "length sig = 64"
    using signP1363_verifies [OF sample_ecdsa_correct sgn] by blast
  have chk: "mint_checks inp ?R = Ok (sample_key, cid)" using assms by (simp add: mint_checks_Ok)
  let ?res = "\<lparr>mr_EnvelopeBytes = encodeEnvelopeWire [1] ?n ?c sig,
      mr_ConfigFp = EncodeToString (sha256 ?C (encodeEnvelopeWire [1] ?n ?c sig)), mr_ConfigID = cid\<rparr>"
  have tx: "tx_canonical (sample_texts h) h = Ok [1]" "encodeIssuerBody (sample_texts h) b = Some [2]" for b
    by (simp_all add: sample_texts_def encodeIssuerBody_def)
  have r: "fst (mn_dek ?R)" "fst (mn_nonce ?R)" "snd (mn_dek ?R) = []" "snd (mn_nonce ?R) = []" "mn_sign ?R = []"
    by (simp_all add: sample_random_def)
  have "mintIssuerEnvelope ?C (sample_texts h) ?R inp = Ok ?res"
    using chk pub rs assms(3) sig(1) tx h [of h] r
    by (simp add: mintIssuerEnvelope_def Let_def envelopeDEKLen_def envelopeBodyNonceLen_def
        chachaPoly1305Encrypt_def del: wrap_recipients.simps)
  moreover have "length (mr_EnvelopeBytes ?res) < 2 ^ 32"
    by (simp add: encodeEnvelopeWire_eq sig(2) buildSignedRange_eq envelopeMagic_def) (simp add: sample_crypto_def)
  ultimately show ?thesis using that by simp
qed

lemma sample_laws: "aead_correct sample_crypto" "header_text_correct (sample_texts h)"
proof -
  have "valid_text ''t'' = ''t''" by (rule valid_text_ascii) (simp add: code_def)
  then show "aead_correct sample_crypto" "header_text_correct (sample_texts h)"
    by (auto simp: aead_correct_def sample_crypto_def header_text_correct_def sample_texts_def)
qed

theorem minted_envelope_opens_witness:
  "\<exists>h res d. mintIssuerEnvelope sample_crypto (sample_texts h) sample_random (sample_mint (2 # replicate 32 7)) = Ok res \<and>
     decodeEnvelopeWire (sample_texts h) (mr_EnvelopeBytes res) = Ok d \<and> length (eh_Recipients (ed_Header d)) = 1"
proof -
  obtain h res where m: "mintIssuerEnvelope sample_crypto (sample_texts h) sample_random (sample_mint (2 # replicate 32 7)) = Ok res"
    "length (mr_EnvelopeBytes res) < 2 ^ 32"
    by (rule sample_mint_succeeds [of "2 # replicate 32 7" "sample_mint (2 # replicate 32 7)" "replicate 16 1"])
      (simp_all add: sample_mint_def)
  have "mi_CreatorKey (sample_mint (2 # replicate 32 7)) = Some sample_key" by (simp add: sample_mint_def)
  moreover have "\<And>p. mi_Policy (sample_mint (2 # replicate 32 7)) = Some p \<Longrightarrow> policy_utf8 p" by (simp add: sample_mint_def)
  ultimately show ?thesis
    using minted_envelope_opens [OF m(1) _ sample_ecdsa_correct sample_laws _ m(2)] m(1) by (auto simp: sample_mint_def)
qed

end
