(* ===== verification/Http.thy ===== *)
theory Http
  imports State_Types
begin

text \<open>
  Requests, responses and the error answers the two handlers of \<^verbatim>\<open>redeem.go\<close> and \<^verbatim>\<open>server.go\<close>
  share. A body is kept as the value the code hands to its JSON encoder, or as its raw bytes.
\<close>

section \<open>Requests and responses\<close>

record http_request =
  hr_Method :: string
  hr_Path :: string
  hr_RemoteAddr :: string
  hr_XForwardedFor :: "string list"
  hr_Body :: "bytes option"

datatype http_body =
    Envelope_Body bytes
  | Bundle_Body int "string list"
  | Error_Body api_error
  | Issue_Body IssueResponse
  | Challenge_Body AttestationChallenge
  | Fields_Body "(string \<times> string) list"
  | Plain_Body string

record http_response =
  hs_Status :: nat
  hs_RetryAfter :: "int option"
  hs_Body :: http_body

definition error_response :: "nat \<Rightarrow> string \<Rightarrow> string \<Rightarrow> http_response" where
  "error_response status err detail =
     \<lparr>hs_Status = status, hs_RetryAfter = None,
      hs_Body = Error_Body \<lparr>er_Error = err, er_Detail = detail, er_RetryAfter = 0\<rparr>\<rparr>"

definition writeRedeemError :: "nat \<Rightarrow> string \<Rightarrow> string \<Rightarrow> http_response" where
  "writeRedeemError status err detail = error_response status err detail"

definition writeIssueError :: "nat \<Rightarrow> string \<Rightarrow> string \<Rightarrow> http_response" where
  "writeIssueError status err detail = error_response status err detail"

text \<open>\<open>writeJSON\<close> of a value whose encoding cannot fail (a map of strings, a record of strings).\<close>

definition writeJSON :: "nat \<Rightarrow> http_body \<Rightarrow> http_response" where
  "writeJSON status body = \<lparr>hs_Status = status, hs_RetryAfter = None, hs_Body = body\<rparr>"

definition retry_seconds :: "duration \<Rightarrow> int" where
  "retry_seconds d = (let sec = rounded_seconds d in if sec < 1 then 1 else sec)"

definition rate_limited :: "string \<Rightarrow> duration \<Rightarrow> http_response" where
  "rate_limited detail d =
     \<lparr>hs_Status = 429, hs_RetryAfter = Some (retry_seconds d),
      hs_Body = Error_Body \<lparr>er_Error = ''rate_limited'', er_Detail = detail, er_RetryAfter = retry_seconds d\<rparr>\<rparr>"

lemma error_response_simps [simp]:
  "hs_Status (writeIssueError c e d) = c" "hs_Status (writeJSON c b) = c" "hs_Body (writeJSON c b) = b"
  by (simp_all add: writeIssueError_def error_response_def writeJSON_def)

text \<open>A refusal for the rate limit always asks for at least a second, in the header and in the body.\<close>

lemma rate_limited_retry:
  "hs_RetryAfter (rate_limited d t) = Some (retry_seconds t)" "1 \<le> retry_seconds t" "hs_Status (rate_limited d t) = 429"
  by (simp_all add: rate_limited_def retry_seconds_def Let_def)

end
