(* ===== verification/Audit_Log.thy ===== *)
theory Audit_Log
  imports Crypto
begin

text \<open>
  The audit log of \<^verbatim>\<open>audit.go\<close>: a line is the list of its key and value pairs. The logger
  prints it; the handlers return the lines they emit, in order.
\<close>

datatype audit_value = Text string | Flag bool | Number int

type_synonym audit_line = "(string \<times> audit_value) list"

definition hashDevicePk :: "crypto \<Rightarrow> bytes \<Rightarrow> string \<Rightarrow> string" where
  "hashDevicePk C salt devicePkB64 =
     (let raw = (case DecodeString devicePkB64 of None \<Rightarrow> bytes_of devicePkB64 | Some r \<Rightarrow> r)
      in EncodeToString (sha256 C (salt @ raw)))"

definition auditEmit ::
    "crypto \<Rightarrow> bytes \<Rightarrow> string \<Rightarrow> string \<Rightarrow> string \<Rightarrow> string \<Rightarrow> string \<Rightarrow> bool \<Rightarrow> int \<Rightarrow> audit_line \<Rightarrow> audit_line" where
  "auditEmit C salt event devicePkB64 configID policyMode claimedPlatform tokenPresent ttlSec extras =
     [(''event'', Text event),
      (''devicePkHash'', Text (hashDevicePk C salt devicePkB64)),
      (''configId'', Text configID),
      (''claimedPlatform'', Text claimedPlatform),
      (''tokenPresent'', Flag tokenPresent),
      (''policyMode'', Text policyMode),
      (''ttlSec'', Number ttlSec)] @ extras"

text \<open>The event and the device of a line, for the theorems that count lines.\<close>

definition line_event :: "audit_line \<Rightarrow> string" where
  "line_event l = (case map_of l ''event'' of Some (Text e) \<Rightarrow> e | _ \<Rightarrow> '''')"

definition line_device :: "audit_line \<Rightarrow> string" where
  "line_device l = (case map_of l ''devicePkHash'' of Some (Text e) \<Rightarrow> e | _ \<Rightarrow> '''')"

lemma line_auditEmit [simp]:
  "line_event (auditEmit C salt ev pk cid m p t ttl ex) = ev"
  "line_device (auditEmit C salt ev pk cid m p t ttl ex) = hashDevicePk C salt pk"
  by (simp_all add: line_event_def line_device_def auditEmit_def)

text \<open>The hash correlates a device however its key is spelt: only the decoded bytes matter.\<close>

lemma hashDevicePk_decoded: "DecodeString a = DecodeString b \<Longrightarrow> DecodeString a \<noteq> None \<Longrightarrow> hashDevicePk C s a = hashDevicePk C s b"
  by (auto simp: hashDevicePk_def)

lemma hashDevicePk_salted:
  assumes "inj (sha256 C)" "length s = length s'" "DecodeString a \<noteq> None" "DecodeString b \<noteq> None"
  shows "hashDevicePk C s a = hashDevicePk C s' b \<longleftrightarrow> s = s' \<and> DecodeString a = DecodeString b"
  using assms by (auto simp: hashDevicePk_def inj_eq)

end
