(* ===== verification/Redeem.thy ===== *)
theory Redeem
  imports Registry Envelope Http Audit_Log
begin

text \<open>
  \<^verbatim>\<open>redeem.go\<close>: exchanging a share-link token for freshly minted envelopes. A call of the
  handler comes with the outcomes of everything around it: its readings of the clock, its random
  reads, the disk, and what other requests do between its last look at the registry and the charge.
\<close>

section \<open>The client's address\<close>

text \<open>\<open>net.SplitHostPort\<close> (the host, if it parses) and \<open>net.ParseIP\<close>.\<close>

record netops =
  np_SplitHost :: "string \<Rightarrow> string option"
  np_ParseIP :: "string \<Rightarrow> bytes option"

definition ipInAny :: "netops \<Rightarrow> string \<Rightarrow> (bytes \<Rightarrow> bool) list \<Rightarrow> bool" where
  "ipInAny N ipStr nets =
     (case np_ParseIP N ipStr of None \<Rightarrow> False | Some ip \<Rightarrow> list_ex (\<lambda>n. n ip) nets)"

text \<open>The loop over the parts from the right; \<open>parts\<close> is given in that order.\<close>

fun first_untrusted :: "netops \<Rightarrow> (bytes \<Rightarrow> bool) list \<Rightarrow> string list \<Rightarrow> string option" where
  "first_untrusted N trusted [] = None"
| "first_untrusted N trusted (p # ps) =
     (let ip = TrimSpace p in
      if ip = '''' then first_untrusted N trusted ps
      else if \<not> ipInAny N ip trusted then Some ip
      else first_untrusted N trusted ps)"

text \<open>\<open>Header.Get\<close> gives the first value of a header, or the empty string.\<close>

definition clientIP :: "netops \<Rightarrow> http_request \<Rightarrow> (bytes \<Rightarrow> bool) list \<Rightarrow> string" where
  "clientIP N r trusted =
     (let host = (case np_SplitHost N (hr_RemoteAddr r) of None \<Rightarrow> hr_RemoteAddr r | Some h \<Rightarrow> h);
          xff = (case hr_XForwardedFor r of [] \<Rightarrow> '''' | x # _ \<Rightarrow> x)
      in if xff = '''' \<or> trusted = [] \<or> \<not> ipInAny N host trusted then host
      else case first_untrusted N trusted (rev (Split (CHR '','') xff)) of
        Some ip \<Rightarrow> ip
      | None \<Rightarrow> host)"


section \<open>Minting for a token\<close>

record configSummary =
  cs_Name :: string

definition summarizeConfig :: "json \<Rightarrow> bytes \<Rightarrow> configSummary" where
  "summarizeConfig J raw = \<lparr>cs_Name = js_name J raw\<rparr>"

definition effectiveDisplayName :: "json \<Rightarrow> ConfigEntry \<Rightarrow> string" where
  "effectiveDisplayName J entry =
     (let alias = normalizeDisplayName (ce_DisplayName entry) in
      if alias \<noteq> '''' then alias
      else normalizeDisplayName (cs_Name (summarizeConfig J (ce_Config entry))))"

definition redemptionMintInput :: "json \<Rightarrow> State \<Rightarrow> ConfigEntry \<Rightarrow> bytes \<Rightarrow> bytes \<Rightarrow> mintInput" where
  "redemptionMintInput J s entry recipientPub configID =
     \<lparr>mi_CreatorKey = Some (st_CreatorSigningKey s), mi_RecipientPubKeys = [recipientPub],
      mi_IssuerURL = st_PublicIssuerURL s, mi_DisplayName = effectiveDisplayName J entry,
      mi_ConfigID = Some configID, mi_IssuedAt = zero_time, mi_Policy = ce_IssuedPolicy entry\<rparr>"

definition redeemReasonDetail :: "string \<Rightarrow> string" where
  "redeemReasonDetail reason =
     (if reason = ''token_not_found'' then ''this share link is no longer recognized''
      else if reason = ''token_exhausted'' then ''this share link has been used up''
      else if reason = ''token_expired'' then ''this share link has expired''
      else '''')"

text \<open>One envelope per configuration of the token, in the token's order.\<close>

fun mint_all ::
    "crypto \<Rightarrow> texts \<Rightarrow> json \<Rightarrow> (nat \<Rightarrow> mintRandom) \<Rightarrow> State \<Rightarrow> bytes \<Rightarrow> nat \<Rightarrow> string list \<Rightarrow> http_response + bytes list" where
  "mint_all C T J R s recipientPub i [] = Ok []"
| "mint_all C T J R s recipientPub i (configIDText # rest) =
     (case ConfigByID s configIDText of
        None \<Rightarrow> Err (writeRedeemError 500 ''server_error'' ''token references a configId that's no longer registered'')
      | Some cfgEntry \<Rightarrow>
     case (case DecodeString configIDText of None \<Rightarrow> None
           | Some cid \<Rightarrow> if length cid \<noteq> envelopeConfigIDLen then None else Some cid) of
        None \<Rightarrow> Err (writeRedeemError 500 ''server_error'' ''token has malformed configId'')
      | Some configID \<Rightarrow>
     case mintIssuerEnvelope C T (R i) (redemptionMintInput J s cfgEntry recipientPub configID) of
        Err e \<Rightarrow> Err (writeRedeemError 400 ''bad_pubkey'' (''mint failed: '' @ e))
      | Ok mintRes \<Rightarrow>
     case mint_all C T J R s recipientPub (Suc i) rest of
        Err e \<Rightarrow> Err e
      | Ok envelopes \<Rightarrow> Ok (mr_EnvelopeBytes mintRes # envelopes))"


section \<open>The handler\<close>

text \<open>What the handler is called with beside the request.\<close>

record redeem_call =
  rd_tokensDisk :: disk
  rd_configsDisk :: disk
  rd_limiterNow :: time
  rd_checkNow :: time
  rd_random :: "nat \<Rightarrow> mintRandom"
  rd_between :: "State \<times> fsys \<Rightarrow> State \<times> fsys"
  rd_consumeDisk :: disk
  rd_ord :: "string list"
  rd_consumeNow :: time

record world =
  wo_env :: env
  wo_json :: json
  wo_verifiers :: verifierRegistry
  wo_crypto :: crypto
  wo_texts :: texts
  wo_net :: netops

definition redeemMaxPerIPPerHour :: int where "redeemMaxPerIPPerHour = 30"

definition parse_redeem :: "json \<Rightarrow> bytes option \<Rightarrow> http_response + RedeemRequest" where
  "parse_redeem J body =
     (case body of None \<Rightarrow> Err (writeRedeemError 400 ''bad_request'' ''read body'')
      | Some b \<Rightarrow>
     case js_unmarshal_redeem J (take (32 * 1024) b) of
        None \<Rightarrow> Err (writeRedeemError 400 ''bad_request'' ''parse json'')
      | Some req \<Rightarrow>
     if rq_V req \<noteq> 1 then Err (writeRedeemError 400 ''bad_request'' ''unsupported version'')
     else if rq_Token req = '''' \<or> rq_RecipientPubkey req = ''''
     then Err (writeRedeemError 400 ''bad_request'' ''missing required field'')
     else Ok req)"

definition decode_recipient :: "string \<Rightarrow> http_response + bytes" where
  "decode_recipient text =
     (case DecodeString text of
        None \<Rightarrow> Err (writeRedeemError 400 ''bad_pubkey'' ''recipientPubkey base64 decode'')
      | Some pub \<Rightarrow>
          if length pub \<noteq> envelopeP256CompLen
          then Err (writeRedeemError 400 ''bad_pubkey'' ''recipientPubkey must be 33 bytes (P-256 compressed)'')
          else Ok pub)"

text \<open>From the limiter's leave to the minted envelopes, on the state as it is then.\<close>

definition redeem_mint :: "world \<Rightarrow> redeem_call \<Rightarrow> State \<Rightarrow> RedeemRequest \<Rightarrow> http_response + bytes list" where
  "redeem_mint W rc s req =
     (case decode_recipient (rq_RecipientPubkey req) of Err e \<Rightarrow> Err e
      | Ok recipientPub \<Rightarrow>
     case LookupRedemptionToken s (rq_Token req) of
        None \<Rightarrow> Err (writeRedeemError 404 ''token_not_found'' ''no redemption token registered with this id'')
      | Some token \<Rightarrow>
     if rt_RemainingRedemptions token \<le> 0
     then Err (writeRedeemError 410 ''token_exhausted'' (redeemReasonDetail ''token_exhausted''))
     else if token_expired (wo_env W) token (rd_checkNow rc)
     then Err (writeRedeemError 410 ''token_expired'' (redeemReasonDetail ''token_expired''))
     else if st_PublicIssuerURL s = ''''
     then Err (writeRedeemError 500 ''server_error''
       ''this server is not configured to mint redemptions (PublicIssuerURL not set)'')
     else if \<not> HasConfigRegistry s
     then Err (writeRedeemError 500 ''server_error'' ''no config registry loaded; tokens cannot be honored'')
     else if configIDs token = []
     then Err (writeRedeemError 500 ''server_error'' ''token has no registered configs'')
     else mint_all (wo_crypto W) (wo_texts W) (wo_json W) (rd_random rc) s recipientPub 0 (configIDs token))"

definition redeem_response :: "bytes list \<Rightarrow> http_response" where
  "redeem_response envelopes =
     \<lparr>hs_Status = 200, hs_RetryAfter = None,
      hs_Body = (case envelopes of [e] \<Rightarrow> Envelope_Body e | _ \<Rightarrow> Bundle_Body 1 (map EncodeToString envelopes))\<rparr>"

definition handleRedeem :: "world \<Rightarrow> redeem_call \<Rightarrow> State \<Rightarrow> fsys \<Rightarrow> http_request \<Rightarrow> http_response \<times> State \<times> fsys" where
  "handleRedeem W rc s0 fs0 r =
     (let (_, s1, fs1) = ReloadRedemptionTokensIfChanged (wo_json W) (rd_tokensDisk rc) s0 fs0;
          (_, s2, fs2) = ReloadConfigsIfChanged (wo_env W) (wo_json W) (wo_verifiers W) (rd_configsDisk rc) s1 fs1
      in case parse_redeem (wo_json W) (hr_Body r) of
        Err e \<Rightarrow> (e, s2, fs2)
      | Ok req \<Rightarrow>
          let ip = clientIP (wo_net W) r (st_TrustedProxies s2);
              (decision, limiter) = Allow (st_redemptionLimiter s2) (rd_limiterNow rc) ip redeemMaxPerIPPerHour (1 * Hour);
              s3 = s2\<lparr>st_redemptionLimiter := limiter\<rparr>
          in if \<not> Allowed decision
          then (rate_limited ''redemption rate limit exceeded for this client'' (RetryAfter decision), s3, fs2)
          else case redeem_mint W rc s3 req of
            Err e \<Rightarrow> (e, s3, fs2)
          | Ok envelopes \<Rightarrow>
              let (s4, fs4) = rd_between rc (s3, fs2) in
              case ConsumeRedemptionToken (wo_env W) (wo_json W) (rd_consumeDisk rc) (rd_ord rc) s4 fs4
                  (rq_Token req) (rd_consumeNow rc) of
                (result, s5, fs5) \<Rightarrow>
                  if \<not> cr_Consumed result
                  then (writeRedeemError (if cr_Reason result = ''token_not_found'' then 404 else 410)
                      (cr_Reason result) (redeemReasonDetail (cr_Reason result)), s5, fs5)
                  else (redeem_response envelopes, s5, fs5))"

section \<open>What the handler's parts return\<close>

lemma status_simps [simp]:
  "hs_Status (writeRedeemError n e d) = n" "hs_Status (rate_limited d t) = 429" "hs_Status (redeem_response envs) = 200"
  by (simp_all add: writeRedeemError_def error_response_def rate_limited_def redeem_response_def)

lemma parse_redeem_Err: "parse_redeem J b = Err e \<Longrightarrow> hs_Status e = 400"
  by (auto simp: parse_redeem_def split: option.splits if_splits)

lemma mint_all_Err: "mint_all C T J R s pub i ids = Err e \<Longrightarrow> hs_Status e \<noteq> 200"
  by (induction i ids arbitrary: e rule: mint_all.induct [of _ C T J R s pub])
    (auto split: option.splits sum.splits if_splits)

lemma mint_all_Ok:
  assumes "mint_all C T J R s pub i ids = Ok envs"
  shows "length envs = length ids \<and> (\<forall>j < length ids. \<exists>e cid res. ConfigByID s (ids ! j) = Some e \<and>
    DecodeString (ids ! j) = Some cid \<and> length cid = 16 \<and>
    mintIssuerEnvelope C T (R (i + j)) (redemptionMintInput J s e pub cid) = Ok res \<and> envs ! j = mr_EnvelopeBytes res)"
  using assms
proof (induction ids arbitrary: i envs)
  case Nil
  then show ?case by simp
next
  case (Cons k ids)
  obtain e cid res envs' where one: "ConfigByID s k = Some e" "DecodeString k = Some cid" "length cid = 16"
    "mintIssuerEnvelope C T (R i) (redemptionMintInput J s e pub cid) = Ok res"
    and rest: "mint_all C T J R s pub (Suc i) ids = Ok envs'" and envs: "envs = mr_EnvelopeBytes res # envs'"
    using Cons.prems by (auto simp: envelopeConfigIDLen_def split: option.splits sum.splits if_splits)
  show ?case
  proof (intro conjI allI impI)
    show "length envs = length (k # ids)" using Cons.IH [OF rest] envs by simp
    fix j assume j: "j < length (k # ids)"
    show "\<exists>e cid res. ConfigByID s ((k # ids) ! j) = Some e \<and> DecodeString ((k # ids) ! j) = Some cid \<and> length cid = 16 \<and>
        mintIssuerEnvelope C T (R (i + j)) (redemptionMintInput J s e pub cid) = Ok res \<and> envs ! j = mr_EnvelopeBytes res"
    proof (cases j)
      case 0
      then show ?thesis using one envs by auto
    next
      case (Suc j')
      then show ?thesis using conjunct2 [OF Cons.IH [OF rest], rule_format, of j'] j envs by simp
    qed
  qed
qed

lemma decode_recipient_Err: "decode_recipient t = Err e \<Longrightarrow> hs_Status e = 400"
  by (auto simp: decode_recipient_def split: option.splits if_splits)

lemma redeem_mint_Err: "redeem_mint W rc s req = Err e \<Longrightarrow> hs_Status e \<noteq> 200"
  by (auto simp: redeem_mint_def split: sum.splits option.splits if_splits dest: decode_recipient_Err mint_all_Err)

lemma redeem_mint_Ok:
  assumes "redeem_mint W rc s req = Ok envs"
  obtains pub token where "DecodeString (rq_RecipientPubkey req) = Some pub" "length pub = 33"
    "st_redemptionTokens s (rq_Token req) = Some token" "consumable (wo_env W) token (rd_checkNow rc)"
    "mint_all (wo_crypto W) (wo_texts W) (wo_json W) (rd_random rc) s pub 0 (rt_ConfigIDs token) = Ok envs"
  using assms
  by (auto simp: redeem_mint_def decode_recipient_def envelopeP256CompLen_def LookupRedemptionToken_def consumable_def
      configIDs_def split: sum.splits option.splits if_splits)

text \<open>The state a request finds after the two reloads, and the two ways it goes on.\<close>

definition after_reloads :: "world \<Rightarrow> redeem_call \<Rightarrow> State \<Rightarrow> fsys \<Rightarrow> State \<times> fsys" where
  "after_reloads W rc s fs =
     (case ReloadRedemptionTokensIfChanged (wo_json W) (rd_tokensDisk rc) s fs of
        (_, s1, fs1) \<Rightarrow> snd (ReloadConfigsIfChanged (wo_env W) (wo_json W) (wo_verifiers W) (rd_configsDisk rc) s1 fs1))"

lemma handleRedeem_cases:
  assumes "handleRedeem W rc s fs r = (resp, s', fs')" "after_reloads W rc s fs = (s2, fs2)"
  obtains (refused) "hs_Status resp \<noteq> 200" "fs' = fs2" "\<exists>l. s' = s2\<lparr>st_redemptionLimiter := l\<rparr>"
  | (charged) req d l envs s4 fs4 res where "parse_redeem (wo_json W) (hr_Body r) = Ok req"
      "Allow (st_redemptionLimiter s2) (rd_limiterNow rc) (clientIP (wo_net W) r (st_TrustedProxies s2)) 30 (1 * Hour) = (d, l)"
      "Allowed d" "redeem_mint W rc (s2\<lparr>st_redemptionLimiter := l\<rparr>) req = Ok envs"
      "rd_between rc (s2\<lparr>st_redemptionLimiter := l\<rparr>, fs2) = (s4, fs4)"
      "ConsumeRedemptionToken (wo_env W) (wo_json W) (rd_consumeDisk rc) (rd_ord rc) s4 fs4 (rq_Token req) (rd_consumeNow rc)
         = (res, s', fs')"
      "resp = (if cr_Consumed res then redeem_response envs
        else writeRedeemError (if cr_Reason res = ''token_not_found'' then 404 else 410) (cr_Reason res) (redeemReasonDetail (cr_Reason res)))"
proof -
  obtain e1 s1 fs1 where r1: "ReloadRedemptionTokensIfChanged (wo_json W) (rd_tokensDisk rc) s fs = (e1, s1, fs1)"
    by (metis prod_cases3)
  obtain e2 where r2: "ReloadConfigsIfChanged (wo_env W) (wo_json W) (wo_verifiers W) (rd_configsDisk rc) s1 fs1 = (e2, s2, fs2)"
    using assms(2) r1 by (auto simp: after_reloads_def) (metis prod.collapse)
  have same: "s2 = s2\<lparr>st_redemptionLimiter := st_redemptionLimiter s2\<rparr>" by simp
  note h = assms(1) [unfolded handleRedeem_def Let_def r1 r2 prod.case redeemMaxPerIPPerHour_def]
  show ?thesis
  proof (cases "parse_redeem (wo_json W) (hr_Body r)")
    case (Inl e)
    have "s' = s2" "fs' = fs2" "resp = e" using h Inl by simp_all
    then show ?thesis using parse_redeem_Err [OF Inl] same by (intro refused) (simp, simp, blast)
  next
    case (Inr req)
    obtain d l where a: "Allow (st_redemptionLimiter s2) (rd_limiterNow rc) (clientIP (wo_net W) r (st_TrustedProxies s2)) 30 (1 * Hour) = (d, l)"
      by fastforce
    show ?thesis
    proof (cases "Allowed d")
      case False
      then show ?thesis using h Inr a by (intro refused) auto
    next
      case True
      show ?thesis
      proof (cases "redeem_mint W rc (s2\<lparr>st_redemptionLimiter := l\<rparr>) req")
        case (Inl e)
        then show ?thesis using h Inr a True redeem_mint_Err [OF Inl] by (intro refused) auto
      next
        case m: (Inr envs)
        obtain s4 fs4 where b: "rd_between rc (s2\<lparr>st_redemptionLimiter := l\<rparr>, fs2) = (s4, fs4)" by fastforce
        obtain res s5 fs5 where c: "ConsumeRedemptionToken (wo_env W) (wo_json W) (rd_consumeDisk rc) (rd_ord rc) s4 fs4
            (rq_Token req) (rd_consumeNow rc) = (res, s5, fs5)" by (metis prod_cases3)
        have "s5 = s' \<and> fs5 = fs' \<and> resp = (if cr_Consumed res then redeem_response envs
          else writeRedeemError (if cr_Reason res = ''token_not_found'' then 404 else 410) (cr_Reason res) (redeemReasonDetail (cr_Reason res)))"
          using h Inr a True m b c by (simp split: if_splits)
        then show ?thesis using charged [OF Inr a True m b] c by blast
      qed
    qed
  qed
qed

text \<open>The limiter does not matter for minting.\<close>

lemma limiter_frame:
  "ConfigByID (s\<lparr>st_redemptionLimiter := l\<rparr>) k = ConfigByID s k"
  "redemptionMintInput J (s\<lparr>st_redemptionLimiter := l\<rparr>) e p c = redemptionMintInput J s e p c"
  "HasConfigRegistry (s\<lparr>st_redemptionLimiter := l\<rparr>) = HasConfigRegistry s"
  "LookupRedemptionToken (s\<lparr>st_redemptionLimiter := l\<rparr>) k = LookupRedemptionToken s k"
  by (simp_all add: ConfigByID_def redemptionMintInput_def HasConfigRegistry_def LookupRedemptionToken_def)

text \<open>What a 200 means.\<close>

lemma handleRedeem_200:
  assumes h: "handleRedeem W rc s fs r = (resp, s', fs')" and ok: "hs_Status resp = 200"
    and re: "after_reloads W rc s fs = (s2, fs2)"
  shows "\<exists>req pub token l s4 t envs.
    parse_redeem (wo_json W) (hr_Body r) = Ok req \<and> DecodeString (rq_RecipientPubkey req) = Some pub \<and>
    st_redemptionTokens s2 (rq_Token req) = Some token \<and>
    s4 = fst (rd_between rc (s2\<lparr>st_redemptionLimiter := l\<rparr>, fs2)) \<and>
    st_redemptionTokens s4 (rq_Token req) = Some t \<and> consumable (wo_env W) t (rd_consumeNow rc) \<and>
    st_redemptionTokens s' = (st_redemptionTokens s4)(rq_Token req \<mapsto> spend t) \<and>
    length envs = length (rt_ConfigIDs token) \<and>
    (\<forall>j < length envs. \<exists>e cid res. ConfigByID s2 (rt_ConfigIDs token ! j) = Some e \<and>
       DecodeString (rt_ConfigIDs token ! j) = Some cid \<and>
       mintIssuerEnvelope (wo_crypto W) (wo_texts W) (rd_random rc j) (redemptionMintInput (wo_json W) s2 e pub cid) = Ok res \<and>
       envs ! j = mr_EnvelopeBytes res) \<and>
    hs_Body resp = (if length envs = 1 then Envelope_Body (envs ! 0) else Bundle_Body 1 (map EncodeToString envs))"
  using h re
proof (cases rule: handleRedeem_cases)
  case refused
  then show ?thesis using ok by simp
next
  case (charged req d l envs s4 fs4 res)
  have res: "cr_Consumed res" "resp = redeem_response envs"
    using charged(7) ok by (auto split: if_splits)
  obtain pub token where m: "DecodeString (rq_RecipientPubkey req) = Some pub"
    "st_redemptionTokens s2 (rq_Token req) = Some token"
    "mint_all (wo_crypto W) (wo_texts W) (wo_json W) (rd_random rc) (s2\<lparr>st_redemptionLimiter := l\<rparr>) pub 0 (rt_ConfigIDs token) = Ok envs"
    using charged(4) by (auto elim: redeem_mint_Ok)
  obtain t where t: "st_redemptionTokens s4 (rq_Token req) = Some t" "consumable (wo_env W) t (rd_consumeNow rc)"
    "st_redemptionTokens s' = (st_redemptionTokens s4)(rq_Token req \<mapsto> spend t)"
    using charged(6) by (cases rule: Consume_cases) (use res(1) in auto)
  have b: "s4 = fst (rd_between rc (s2\<lparr>st_redemptionLimiter := l\<rparr>, fs2))" by (simp add: charged(5))
  have body: "hs_Body resp = (if length envs = 1 then Envelope_Body (envs ! 0) else Bundle_Body 1 (map EncodeToString envs))"
    by (auto simp: res(2) redeem_response_def length_Suc_conv split: list.splits)
  from mint_all_Ok [OF m(3), unfolded limiter_frame] have len: "length envs = length (rt_ConfigIDs token)"
    and each: "\<forall>j < length envs. \<exists>e cid res. ConfigByID s2 (rt_ConfigIDs token ! j) = Some e \<and>
       DecodeString (rt_ConfigIDs token ! j) = Some cid \<and>
       mintIssuerEnvelope (wo_crypto W) (wo_texts W) (rd_random rc j) (redemptionMintInput (wo_json W) s2 e pub cid) = Ok res \<and>
       envs ! j = mr_EnvelopeBytes res"
    by (simp, fastforce)
  show ?thesis
    using charged(1) m(1,2) b t len each body by blast
qed

section \<open>Sample calls\<close>

definition sample_recipient :: bytes where "sample_recipient = 2 # replicate 32 7"

definition sample_world :: "envelopeHeader \<Rightarrow> string \<Rightarrow> world" where
  "sample_world h token = \<lparr>wo_env = sample_env,
     wo_json = (sample_json [])\<lparr>js_unmarshal_redeem := (\<lambda>d. Some \<lparr>rq_V = 1, rq_Token = token,
       rq_RecipientPubkey = EncodeToString sample_recipient\<rparr>)\<rparr>,
     wo_verifiers = [], wo_crypto = sample_crypto, wo_texts = sample_texts h,
     wo_net = \<lparr>np_SplitHost = (\<lambda>s. Some s), np_ParseIP = (\<lambda>s. Some (bytes_of s))\<rparr>\<rparr>"

definition sample_call :: redeem_call where
  "sample_call = \<lparr>rd_tokensDisk = quiet_disk True (good_io 3), rd_configsDisk = quiet_disk True (good_io 3),
     rd_limiterNow = 5, rd_checkNow = 5, rd_random = (\<lambda>i. sample_random), rd_between = (\<lambda>w. w),
     rd_consumeDisk = quiet_disk True (good_io 3), rd_ord = [''a''], rd_consumeNow = 5\<rparr>"

definition sample_http :: http_request where
  "sample_http = \<lparr>hr_Method = ''POST'', hr_Path = ''/v1/redeem'', hr_RemoteAddr = ''p'', hr_XForwardedFor = [''forged, real''], hr_Body = Some []\<rparr>"

definition sample_server :: "int \<Rightarrow> State" where
  "sample_server n = (sample_state [''a'' \<mapsto> sample_token ''a'' n])\<lparr>st_configs :=
     Some [EncodeToString (replicate 16 1) \<mapsto> sample_entry None]\<rparr>"

lemma sample_after_reloads: "after_reloads (sample_world h token) sample_call (sample_server n) sample_fs = (sample_server n, sample_fs)"
  by (simp add: after_reloads_def sample_call_def sample_server_def sample_state_def ReloadRedemptionTokensIfChanged_def
      ReloadConfigsIfChanged_def os_Stat_def quiet_disk_def After_def Let_def)

lemma sample_parse: "parse_redeem (wo_json (sample_world h ''a'')) (hr_Body sample_http)
    = Ok \<lparr>rq_V = 1, rq_Token = ''a'', rq_RecipientPubkey = EncodeToString sample_recipient\<rparr>"
  using EncodeToString_nonempty [of sample_recipient]
  by (simp add: parse_redeem_def sample_world_def sample_http_def sample_recipient_def del: EncodeToString_nonempty)

lemma sample_allow: "Allow (st_redemptionLimiter (sample_server n)) 5 k 30 (1 * Hour)
    = (\<lparr>Allowed = True, RetryAfter = 0\<rparr>, \<lparr>entries = [k \<mapsto> [5]]\<rparr>)"
  by (simp add: sample_server_def sample_state_def Allow_def newRateLimiter_def bucket_of_def Let_def)

lemma sample_mint_all:
  obtains h envs where "redeem_mint (sample_world h ''a'') sample_call ((sample_server 2)\<lparr>st_redemptionLimiter := l\<rparr>)
      \<lparr>rq_V = 1, rq_Token = ''a'', rq_RecipientPubkey = EncodeToString sample_recipient\<rparr> = Ok envs"
    "\<forall>raw \<in> set envs. length raw < 2 ^ 32"
proof -
  let ?s = "(sample_server 2)\<lparr>st_redemptionLimiter := l\<rparr>" and ?cid = "replicate 16 1 :: bytes"
  let ?inp = "\<lambda>h. redemptionMintInput (wo_json (sample_world h ''a'')) ?s (sample_entry None) sample_recipient ?cid"
  have inp: "?inp h = ?inp undefined" for h by (simp add: redemptionMintInput_def sample_world_def)
  obtain h res where m: "mintIssuerEnvelope sample_crypto (sample_texts h) sample_random (?inp undefined) = Ok res"
    and size: "length (mr_EnvelopeBytes res) < 2 ^ 32"
    by (rule sample_mint_succeeds [of sample_recipient "?inp undefined" ?cid])
      (simp_all add: redemptionMintInput_def sample_server_def sample_state_def sample_recipient_def)
  have parts: "wo_crypto (sample_world h ''a'') = sample_crypto" "wo_texts (sample_world h ''a'') = sample_texts h"
    "rd_random sample_call = (\<lambda>i. sample_random)" "rd_checkNow sample_call = 5" "wo_env (sample_world h ''a'') = sample_env"
    by (simp_all add: sample_world_def sample_call_def)
  have cfg: "ConfigByID ?s (EncodeToString ?cid) = Some (sample_entry None)" "HasConfigRegistry ?s" "st_PublicIssuerURL ?s \<noteq> ''''"
    by (simp_all add: ConfigByID_def HasConfigRegistry_def sample_server_def sample_state_def)
  have tok: "LookupRedemptionToken ?s ''a'' = Some (sample_token ''a'' 2)"
    by (simp add: LookupRedemptionToken_def sample_server_def sample_state_def)
  have t: "rt_RemainingRedemptions (sample_token ''a'' 2) = 2" "configIDs (sample_token ''a'' 2) = [EncodeToString ?cid]"
    "\<not> token_expired sample_env (sample_token ''a'' 2) 5"
    by (simp_all add: sample_token_def configIDs_def token_expired_def)
  have "redeem_mint (sample_world h ''a'') sample_call ?s
      \<lparr>rq_V = 1, rq_Token = ''a'', rq_RecipientPubkey = EncodeToString sample_recipient\<rparr> = Ok [mr_EnvelopeBytes res]"
    using cfg m by (simp add: redeem_mint_def decode_recipient_def Decode_Encode tok t parts inp [of h] envelopeConfigIDLen_def
        envelopeP256CompLen_def) (simp add: sample_recipient_def)
  then show ?thesis by (rule that) (use size in simp)
qed

lemma sample_redeem:
  obtains h resp s' fs' where "handleRedeem (sample_world h ''a'') sample_call (sample_server 2) sample_fs sample_http = (resp, s', fs')"
    "hs_Status resp = 200" "\<exists>envs. resp = redeem_response envs \<and> (\<forall>raw \<in> set envs. length raw < 2 ^ 32)"
proof -
  let ?l = "\<lparr>entries = [''p'' \<mapsto> [5 :: int]]\<rparr> :: rateLimiter"
  let ?req = "\<lparr>rq_V = 1, rq_Token = ''a'', rq_RecipientPubkey = EncodeToString sample_recipient\<rparr>"
  let ?s = "(sample_server 2)\<lparr>st_redemptionLimiter := ?l\<rparr>"
  obtain h envs where m: "redeem_mint (sample_world h ''a'') sample_call ?s ?req = Ok envs"
    and size: "\<forall>raw \<in> set envs. length raw < 2 ^ 32" by (rule sample_mint_all)
  let ?W = "sample_world h ''a''"
  obtain s1 fs1 e1 where r1: "ReloadRedemptionTokensIfChanged (wo_json ?W) (rd_tokensDisk sample_call) (sample_server 2) sample_fs = (e1, s1, fs1)"
    by (metis prod_cases3)
  obtain e2 where r2: "ReloadConfigsIfChanged (wo_env ?W) (wo_json ?W) (wo_verifiers ?W) (rd_configsDisk sample_call) s1 fs1
      = (e2, sample_server 2, sample_fs)"
    using sample_after_reloads [of h "''a''" 2] r1 by (auto simp: after_reloads_def) (metis prod.collapse)
  have ip: "clientIP (wo_net ?W) sample_http (st_TrustedProxies (sample_server 2)) = ''p''"
    by (simp add: clientIP_def sample_http_def sample_world_def sample_server_def sample_state_def)
  have a: "Allow (st_redemptionLimiter (sample_server 2)) (rd_limiterNow sample_call) ''p'' 30 (1 * Hour)
      = (\<lparr>Allowed = True, RetryAfter = 0\<rparr>, ?l)" using sample_allow [of 2 "''p''"] by (simp add: sample_call_def)
  have b: "rd_between sample_call = (\<lambda>w. w)" by (simp add: sample_call_def)
  obtain res s' fs' where c: "ConsumeRedemptionToken (wo_env ?W) (wo_json ?W) (rd_consumeDisk sample_call) (rd_ord sample_call)
      ?s sample_fs ''a'' (rd_consumeNow sample_call) = (res, s', fs')" by (metis prod_cases3)
  have "consumable (wo_env ?W) (sample_token ''a'' 2) (rd_consumeNow sample_call)" "st_redemptionTokens ?s ''a'' = Some (sample_token ''a'' 2)"
    by (simp_all add: consumable_def sample_token_def token_expired_def sample_server_def sample_state_def)
  then have res: "cr_Consumed res" using c by (auto elim: Consume_cases)
  have "handleRedeem ?W sample_call (sample_server 2) sample_fs sample_http = (redeem_response envs, s', fs')"
    using m c res a
    by (simp add: handleRedeem_def r1 r2 sample_parse ip redeemMaxPerIPPerHour_def b Let_def)
  then show ?thesis using size by (intro that) auto
qed


section \<open>Properties\<close>

text \<open>C4. A successful redemption is paid for exactly once and delivers the whole set: when the
  handler answers 200, the token of the request was consumable at the charge, its count is one lower
  and every other token is as it was, and the answer carries, for each configuration of the token in
  order, the envelope minted to the requester's key for the registered entry of that configuration
  (the bytes for a single one, a bundle of their base64url texts otherwise).\<close>

theorem redeem_delivers_and_charges:
  assumes h: "handleRedeem W rc s fs r = (resp, s', fs')" and ok: "hs_Status resp = 200"
    and re: "after_reloads W rc s fs = (s2, fs2)"
  shows "\<exists>req pub token l s4 t envs.
    parse_redeem (wo_json W) (hr_Body r) = Ok req \<and> DecodeString (rq_RecipientPubkey req) = Some pub \<and>
    st_redemptionTokens s2 (rq_Token req) = Some token \<and>
    s4 = fst (rd_between rc (s2\<lparr>st_redemptionLimiter := l\<rparr>, fs2)) \<and>
    st_redemptionTokens s4 (rq_Token req) = Some t \<and> consumable (wo_env W) t (rd_consumeNow rc) \<and>
    st_redemptionTokens s' = (st_redemptionTokens s4)(rq_Token req \<mapsto> spend t) \<and>
    length envs = length (rt_ConfigIDs token) \<and>
    (\<forall>j < length envs. \<exists>e cid res. ConfigByID s2 (rt_ConfigIDs token ! j) = Some e \<and>
       DecodeString (rt_ConfigIDs token ! j) = Some cid \<and>
       mintIssuerEnvelope (wo_crypto W) (wo_texts W) (rd_random rc j) (redemptionMintInput (wo_json W) s2 e pub cid) = Ok res \<and>
       envs ! j = mr_EnvelopeBytes res) \<and>
    hs_Body resp = (if length envs = 1 then Envelope_Body (envs ! 0) else Bundle_Body 1 (map EncodeToString envs))"
  using h ok re by (rule handleRedeem_200)

theorem redeem_delivers_and_charges_witness:
  "\<exists>h resp s' fs' token. handleRedeem (sample_world h ''a'') sample_call (sample_server 2) sample_fs sample_http = (resp, s', fs') \<and>
     hs_Status resp = 200 \<and> st_redemptionTokens s' ''a'' = Some (spend (sample_token ''a'' 2)) \<and>
     (\<exists>e. hs_Body resp = Envelope_Body e \<or> (\<exists>bs. hs_Body resp = Bundle_Body 1 bs))"
proof -
  obtain h resp s' fs' where h: "handleRedeem (sample_world h ''a'') sample_call (sample_server 2) sample_fs sample_http = (resp, s', fs')"
    "hs_Status resp = 200"
    by (rule sample_redeem)
  obtain req l s4 t envs where f: "parse_redeem (wo_json (sample_world h ''a'')) (hr_Body sample_http) = Ok req"
    "s4 = fst (rd_between sample_call ((sample_server 2)\<lparr>st_redemptionLimiter := l\<rparr>, sample_fs))"
    "st_redemptionTokens s4 (rq_Token req) = Some t"
    "st_redemptionTokens s' = (st_redemptionTokens s4)(rq_Token req \<mapsto> spend t)"
    "hs_Body resp = (if length envs = 1 then Envelope_Body (envs ! 0) else Bundle_Body 1 (map EncodeToString envs))"
    using redeem_delivers_and_charges [OF h sample_after_reloads] by blast
  have req: "rq_Token req = ''a''" using f(1) by (auto simp: sample_parse)
  have s4: "st_redemptionTokens s4 ''a'' = Some (sample_token ''a'' 2)"
    by (simp add: f(2) sample_call_def sample_server_def sample_state_def)
  have "st_redemptionTokens s' ''a'' = Some (spend (sample_token ''a'' 2))" using f(3,4) req s4 by simp
  moreover have "\<exists>e. hs_Body resp = Envelope_Body e \<or> (\<exists>bs. hs_Body resp = Bundle_Body 1 bs)"
    using f(5) by (cases "length envs = 1") auto
  ultimately show ?thesis using h by blast
qed

text \<open>C25. A refused redemption burns nothing: when the handler answers anything but 200 and no other
  request came between, the token registry is what the reload gave, nothing is written to disk, and of
  the state at most the limiter has changed.\<close>

theorem refused_redeem_burns_nothing:
  assumes "handleRedeem W rc s fs r = (resp, s', fs')" "hs_Status resp \<noteq> 200"
    and "after_reloads W rc s fs = (s2, fs2)" "rd_between rc = (\<lambda>w. w)"
  shows "st_redemptionTokens s' = st_redemptionTokens s2 \<and> fs' = fs2 \<and> (\<exists>l. s' = s2\<lparr>st_redemptionLimiter := l\<rparr>)"
  using assms(1,3)
proof (cases rule: handleRedeem_cases)
  case refused
  then show ?thesis by auto
next
  case (charged req d l envs s4 fs4 res)
  have "\<not> cr_Consumed res" using charged(7) assms(2) by auto
  from charged(6) this have "s' = s4 \<and> fs' = fs4" by (cases rule: Consume_cases) auto
  then show ?thesis using charged(5) assms(4) by auto
qed

theorem refused_redeem_burns_nothing_witness:
  "\<exists>resp s'. handleRedeem (sample_world undefined ''b'') sample_call (sample_server 2) sample_fs sample_http = (resp, s', sample_fs) \<and>
     hs_Status resp \<noteq> 200 \<and> st_redemptionTokens s' = st_redemptionTokens (sample_server 2)"
proof -
  let ?W = "sample_world undefined ''b''"
  obtain resp s' fs' where h: "handleRedeem ?W sample_call (sample_server 2) sample_fs sample_http = (resp, s', fs')"
    by (metis prod_cases3)
  have p: "\<exists>pk. parse_redeem (wo_json ?W) (hr_Body sample_http) = Ok \<lparr>rq_V = 1, rq_Token = ''b'', rq_RecipientPubkey = pk\<rparr>"
    using EncodeToString_nonempty [of sample_recipient]
    by (simp add: parse_redeem_def sample_world_def sample_http_def sample_recipient_def del: EncodeToString_nonempty)
  have "hs_Status resp \<noteq> 200"
    using h sample_after_reloads
  proof (cases rule: handleRedeem_cases)
    case (charged req d l envs s4 fs4 res)
    then have "rq_Token req = ''b''" using p by auto
    moreover have "st_redemptionTokens (sample_server 2) ''b'' = None" by (simp add: sample_server_def sample_state_def)
    ultimately show ?thesis using charged(4) by (auto elim: redeem_mint_Ok)
  qed
  from refused_redeem_burns_nothing [OF h this sample_after_reloads] h this show ?thesis
    by (auto simp: sample_call_def)
qed



end
