(* ===== verification/X509.thy ===== *)
theory X509
  imports Go_Text
begin

text \<open>
  What the attestation verifiers use of \<^verbatim>\<open>crypto/x509\<close>, a record of functions taken as an argument,
  and what both build from it: parsing a list of certificates, the signature links of a leaf-first
  chain, the anchoring of the leaf, and the search for an extension.
\<close>

text \<open>A public key: one of ECDSA, with the bit size of its curve, or of another algorithm.\<close>

datatype CertKey = EcdsaKey PublicKey nat | OtherKey

record Certificate =
  crt_Extensions :: "(nat list \<times> bytes) list"
  crt_PublicKey :: CertKey

text \<open>
  \<open>CheckSignatureFrom\<close> and \<open>Verify\<close> give the text of their error, \<open>None\<close> when there is none;
  \<open>Verify\<close> takes the roots, the intermediates and the time of the options (any extended key
  usage is accepted by both callers).
\<close>

record x509 =
  ParseCertificate :: "bytes \<Rightarrow> string + Certificate"
  CheckSignatureFrom :: "Certificate \<Rightarrow> Certificate \<Rightarrow> string option"
  Certificate_Verify :: "Certificate list \<Rightarrow> Certificate list \<Rightarrow> time \<Rightarrow> Certificate \<Rightarrow> string option"

text \<open>The first link whose signature is not valid, with its index.\<close>

fun bad_link :: "x509 \<Rightarrow> nat \<Rightarrow> Certificate list \<Rightarrow> (nat \<times> string) option" where
  "bad_link X i (child # parent # rest) =
     (case CheckSignatureFrom X child parent of
        Some err \<Rightarrow> Some (i, err)
      | None \<Rightarrow> bad_link X (Suc i) (parent # rest))"
| "bad_link X i chain = None"

definition link_reason :: "nat \<Rightarrow> string \<Rightarrow> string" where
  "link_reason i err = ''chain link '' @ nat_text i @ '' signature invalid: '' @ err"

fun find_extension :: "nat list \<Rightarrow> (nat list \<times> bytes) list \<Rightarrow> bytes option" where
  "find_extension oid [] = None"
| "find_extension oid ((eid, val) # exts) = (if eid = oid then Some val else find_extension oid exts)"

text \<open>Every certificate of the chain is signed by the next, and the leaf anchors at the roots.\<close>

definition chain_linked :: "x509 \<Rightarrow> Certificate list \<Rightarrow> bool" where
  "chain_linked X chain = (\<forall>i. Suc i < length chain \<longrightarrow> CheckSignatureFrom X (chain ! i) (chain ! Suc i) = None)"

definition chain_anchored :: "x509 \<Rightarrow> Certificate list \<Rightarrow> time \<Rightarrow> Certificate list \<Rightarrow> bool" where
  "chain_anchored X roots now chain = (Certificate_Verify X roots (tl chain) now (hd chain) = None)"

lemma bad_link_None: "bad_link X i chain = None \<longleftrightarrow> chain_linked X chain"
proof (induction X i chain rule: bad_link.induct)
  case (1 X i child parent rest)
  have "chain_linked X (child # parent # rest)
      \<longleftrightarrow> CheckSignatureFrom X child parent = None \<and> chain_linked X (parent # rest)"
  proof
    assume "chain_linked X (child # parent # rest)"
    then have "\<And>i. Suc i < length (child # parent # rest) \<Longrightarrow>
        CheckSignatureFrom X ((child # parent # rest) ! i) ((child # parent # rest) ! Suc i) = None"
      by (simp add: chain_linked_def)
    from this [of 0] this [of "Suc _"]
    show "CheckSignatureFrom X child parent = None \<and> chain_linked X (parent # rest)"
      by (simp add: chain_linked_def)
  next
    assume "CheckSignatureFrom X child parent = None \<and> chain_linked X (parent # rest)"
    then show "chain_linked X (child # parent # rest)"
      unfolding chain_linked_def by (metis Suc_less_eq length_Cons not0_implies_Suc nth_Cons_0 nth_Cons_Suc)
  qed
  then show ?case using 1 by (auto split: option.splits)
qed (auto simp: chain_linked_def)

text \<open>The loop finds the first broken link.\<close>

lemma bad_link_Some:
  "bad_link X k chain = Some (i, err) \<Longrightarrow>
   \<exists>j. i = k + j \<and> Suc j < length chain \<and> CheckSignatureFrom X (chain ! j) (chain ! Suc j) = Some err
     \<and> (\<forall>j' < j. CheckSignatureFrom X (chain ! j') (chain ! Suc j') = None)"
proof (induction X k chain rule: bad_link.induct)
  case (1 X k child parent rest)
  show ?case
  proof (cases "CheckSignatureFrom X child parent")
    case (Some e)
    then show ?thesis using 1 by (intro exI [of _ 0]) simp
  next
    case None
    then obtain j where "i = Suc k + j" "Suc j < length (parent # rest)"
      "CheckSignatureFrom X ((parent # rest) ! j) ((parent # rest) ! Suc j) = Some err"
      "\<forall>j' < j. CheckSignatureFrom X ((parent # rest) ! j') ((parent # rest) ! Suc j') = None"
      using 1 by auto
    then show ?thesis using None by (intro exI [of _ "Suc j"]) (auto simp: less_Suc_eq_0_disj)
  qed
qed auto

lemma find_extension_map_of: "find_extension oid exts = map_of exts oid"
  by (induction oid exts rule: find_extension.induct) auto

end
