(* ===== verification/Der.thy ===== *)
theory Der
  imports Crypto
begin

text \<open>
  What the two attestation verifiers use of \<^verbatim>\<open>encoding/asn1\<close>: DER tags, lengths and the
  decoding of octet strings, integers, enumerations, booleans and of the walk over the elements of
  a sequence. \<open>None\<close> is an error of \<open>asn1.Unmarshal\<close>; the second component of a result is the
  rest of the input.
\<close>

section \<open>Tags and lengths\<close>

fun base128 :: "nat \<Rightarrow> nat \<Rightarrow> bytes \<Rightarrow> (nat \<times> bytes) option" where
  "base128 k acc [] = None"
| "base128 k acc (b # bs) =
     (if k = 5 \<or> k = 0 \<and> b = 128 then None
      else let acc' = acc * 128 + unat b mod 128 in
        if unat b < 128 then (if acc' \<le> 2147483647 then Some (acc', bs) else None)
        else base128 (Suc k) acc' bs)"

fun long_length :: "nat \<Rightarrow> nat \<Rightarrow> bytes \<Rightarrow> (nat \<times> bytes) option" where
  "long_length 0 acc bs = Some (acc, bs)"
| "long_length (Suc n) acc [] = None"
| "long_length (Suc n) acc (b # bs) =
     (if 8388608 \<le> acc then None
      else let acc' = acc * 256 + unat b in if acc' = 0 then None else long_length n acc' bs)"

definition parse_length :: "bytes \<Rightarrow> (nat \<times> bytes) option" where
  "parse_length bs =
     (case bs of [] \<Rightarrow> None
      | b # r \<Rightarrow>
          if unat b < 128 then Some (unat b, r)
          else if unat b = 128 then None
          else (case long_length (unat b - 128) 0 r of None \<Rightarrow> None
            | Some (len, r') \<Rightarrow> if len < 128 then None else Some (len, r')))"

record der_header =
  dh_Class :: nat
  dh_Tag :: nat
  dh_IsCompound :: bool
  dh_Length :: nat

definition parse_tag :: "bytes \<Rightarrow> (nat \<times> bool \<times> nat \<times> bytes) option" where
  "parse_tag bs =
     (case bs of [] \<Rightarrow> None
      | b # r \<Rightarrow>
          let cls = unat b div 64; cmp = odd (unat b div 32); low = unat b mod 32 in
          if low < 31 then Some (cls, cmp, low, r)
          else (case base128 0 0 r of None \<Rightarrow> None
            | Some (tag, r') \<Rightarrow> if tag < 31 then None else Some (cls, cmp, tag, r')))"

definition parseTagAndLength :: "bytes \<Rightarrow> (der_header \<times> bytes) option" where
  "parseTagAndLength bs =
     (case parse_tag bs of None \<Rightarrow> None
      | Some (cls, cmp, tag, r) \<Rightarrow>
          (case parse_length r of None \<Rightarrow> None
           | Some (len, r') \<Rightarrow> Some (\<lparr>dh_Class = cls, dh_Tag = tag, dh_IsCompound = cmp, dh_Length = len\<rparr>, r')))"

text \<open>A header whose contents are all there.\<close>

definition parse_header :: "bytes \<Rightarrow> (der_header \<times> bytes) option" where
  "parse_header bs =
     (case parseTagAndLength bs of None \<Rightarrow> None
      | Some (h, r) \<Rightarrow> if length r < dh_Length h then None else Some (h, r))"


section \<open>Values\<close>

text \<open>\<open>asn1.RawValue\<close>: any element, its contents and all of its bytes.\<close>

record RawValue =
  rv_Class :: nat
  rv_Tag :: nat
  rv_IsCompound :: bool
  rv_Bytes :: bytes
  rv_FullBytes :: bytes

definition parse_raw :: "bytes \<Rightarrow> (RawValue \<times> bytes) option" where
  "parse_raw bs =
     (case parse_header bs of None \<Rightarrow> None
      | Some (h, r) \<Rightarrow>
          Some (\<lparr>rv_Class = dh_Class h, rv_Tag = dh_Tag h, rv_IsCompound = dh_IsCompound h, rv_Bytes = take (dh_Length h) r,
            rv_FullBytes = take (length bs - length r + dh_Length h) bs\<rparr>, drop (dh_Length h) r))"

text \<open>An element of a given universal type: its contents.\<close>

definition parse_universal :: "nat \<Rightarrow> bool \<Rightarrow> bytes \<Rightarrow> (bytes \<times> bytes) option" where
  "parse_universal tag cmp bs =
     (case parse_raw bs of None \<Rightarrow> None
      | Some (v, r) \<Rightarrow>
          if rv_Class v = 0 \<and> rv_Tag v = tag \<and> rv_IsCompound v = cmp then Some (rv_Bytes v, r) else None)"

definition TagSequence :: nat where "TagSequence = 16"
definition TagSet :: nat where "TagSet = 17"

definition parse_octets :: "bytes \<Rightarrow> (bytes \<times> bytes) option" where
  "parse_octets = parse_universal 4 False"

definition parse_sequence :: "bytes \<Rightarrow> (bytes \<times> bytes) option" where
  "parse_sequence = parse_universal TagSequence True"

text \<open>A minimal two's complement number of at most eight bytes.\<close>

definition der_int :: "bytes \<Rightarrow> int option" where
  "der_int b =
     (case b of [] \<Rightarrow> None
      | x # xs \<Rightarrow>
          if (case xs of [] \<Rightarrow> False | y # _ \<Rightarrow> x = 0 \<and> unat y < 128 \<or> x = 255 \<and> 128 \<le> unat y) then None
          else if 8 < length b then None
          else Some (int (SetBytes b) - (if 128 \<le> unat x then 256 ^ length b else 0)))"

definition parse_int :: "bytes \<Rightarrow> (int \<times> bytes) option" where
  "parse_int bs =
     (case parse_universal 2 False bs of None \<Rightarrow> None
      | Some (b, r) \<Rightarrow> (case der_int b of None \<Rightarrow> None | Some i \<Rightarrow> Some (i, r)))"

definition parse_enum :: "bytes \<Rightarrow> (int \<times> bytes) option" where
  "parse_enum bs =
     (case parse_universal 10 False bs of None \<Rightarrow> None
      | Some (b, r) \<Rightarrow> (case der_int b of None \<Rightarrow> None
          | Some i \<Rightarrow> if - 2147483648 \<le> i \<and> i \<le> 2147483647 then Some (i, r) else None))"

definition parse_bool :: "bytes \<Rightarrow> (bool \<times> bytes) option" where
  "parse_bool bs =
     (case parse_universal 1 False bs of None \<Rightarrow> None
      | Some (b, r) \<Rightarrow> if b = [0] then Some (False, r) else if b = [255] then Some (True, r) else None)"

text \<open>An optional octet string: absent at the end of the input, or when another element comes.\<close>

definition parse_optional_octets :: "bytes \<Rightarrow> (bytes \<times> bytes) option" where
  "parse_optional_octets bs =
     (if bs = [] then Some ([], [])
      else case parseTagAndLength bs of None \<Rightarrow> None
      | Some (h, r) \<Rightarrow>
          if dh_Class h = 0 \<and> dh_Tag h = 4 \<and> \<not> dh_IsCompound h then parse_octets bs else Some ([], bs))"


section \<open>Progress\<close>

lemma base128_shorter: "base128 k acc bs = Some (t, r) \<Longrightarrow> length r < length bs"
  by (induction k acc bs rule: base128.induct) (auto simp: Let_def split: if_splits)

lemma long_length_shorter: "long_length n acc bs = Some (t, r) \<Longrightarrow> length r \<le> length bs"
  by (induction n acc bs rule: long_length.induct) (auto simp: Let_def split: if_splits)

lemma parse_length_shorter: "parse_length bs = Some (l, r) \<Longrightarrow> length r < length bs"
  by (auto simp: parse_length_def split: list.splits if_splits option.splits dest!: long_length_shorter)

lemma parse_tag_shorter: "parse_tag bs = Some (c, k, t, r) \<Longrightarrow> length r < length bs"
  by (auto simp: parse_tag_def Let_def split: list.splits if_splits option.splits dest!: base128_shorter)

lemma parseTagAndLength_shorter: "parseTagAndLength bs = Some (h, r) \<Longrightarrow> length r < length bs"
  by (auto simp: parseTagAndLength_def split: option.splits if_splits dest!: parse_tag_shorter parse_length_shorter)

lemma parse_header_shorter: "parse_header bs = Some (h, r) \<Longrightarrow> length r < length bs \<and> dh_Length h \<le> length r"
  by (auto simp: parse_header_def split: option.splits if_splits dest!: parseTagAndLength_shorter)

lemma parse_raw_shorter: "parse_raw bs = Some (v, r) \<Longrightarrow> length r < length bs"
  by (auto simp: parse_raw_def split: option.splits dest!: parse_header_shorter)

lemma parse_universal_shorter: "parse_universal t c bs = Some (v, r) \<Longrightarrow> length r < length bs"
  by (auto simp: parse_universal_def split: option.splits if_splits dest!: parse_raw_shorter)

lemma parse_octets_shorter: "parse_octets bs = Some (v, r) \<Longrightarrow> length r < length bs"
  by (auto simp: parse_octets_def dest!: parse_universal_shorter)

lemma parse_sequence_shorter: "parse_sequence bs = Some (v, r) \<Longrightarrow> length r < length bs"
  by (auto simp: parse_sequence_def dest!: parse_universal_shorter)


section \<open>An encoder\<close>

text \<open>Elements with a low tag and contents of less than 128 bytes, for round trips and samples.\<close>

definition der :: "nat \<Rightarrow> bool \<Rightarrow> nat \<Rightarrow> bytes \<Rightarrow> bytes" where
  "der cls cmp tag body = word_of_nat (cls * 64 + (if cmp then 32 else 0) + tag) # word_of_nat (length body) # body"

definition high_der :: "nat \<Rightarrow> nat \<Rightarrow> bytes \<Rightarrow> bytes" where
  "high_der cls tag body = word_of_nat (cls * 64 + 63) # word_of_nat (128 + tag div 128) # word_of_nat (tag mod 128)
     # word_of_nat (length body) # body"

lemma unat_byte: "n < 256 \<Longrightarrow> unat (word_of_nat n :: byte) = n"
  by (simp add: unat_of_nat take_bit_eq_mod)

lemma parse_raw_der:
  assumes "cls < 4" "tag < 31" "length body < 128"
  shows "parse_raw (der cls cmp tag body @ rest) =
    Some (\<lparr>rv_Class = cls, rv_Tag = tag, rv_IsCompound = cmp, rv_Bytes = body, rv_FullBytes = der cls cmp tag body\<rparr>, rest)"
proof -
  let ?c = "if cmp then 32 else 0 :: nat"
  have n: "cls * 64 + ?c + tag < 256" using assms by auto
  have q: "(cls * 64 + ?c + tag) div 64 = cls" "(cls * 64 + ?c + tag) div 32 = 2 * cls + (if cmp then 1 else 0)"
    using assms(2) by (cases cmp; intro div_nat_eqI; simp)+
  moreover have "odd ((cls * 64 + ?c + tag) div 32) = cmp" unfolding q by simp
  moreover have "(cls * 64 + ?c + tag) mod 32 = tag"
    using q(2) div_mult_mod_eq [of "cls * 64 + ?c + tag" 32] by (cases cmp) simp_all
  moreover obtain N where N: "N = cls * 64 + ?c + tag" by simp
  ultimately have "parse_tag (der cls cmp tag body @ rest) = Some (cls, cmp, tag, word_of_nat (length body) # body @ rest)"
    using assms(2) unat_byte [of N] n unfolding der_def append_Cons N [symmetric] by (simp add: parse_tag_def Let_def)
  moreover have "parse_length (word_of_nat (length body) # body @ rest) = Some (length body, body @ rest)"
    using assms(3) by (simp add: parse_length_def unat_byte)
  ultimately show ?thesis
    by (simp add: parse_raw_def parse_header_def parseTagAndLength_def) (simp add: der_def)
qed

lemma parse_raw_high:
  assumes "cls < 4" "128 \<le> tag" "tag < 16384" "length body < 128"
  shows "parse_raw (high_der cls tag body @ rest) =
    Some (\<lparr>rv_Class = cls, rv_Tag = tag, rv_IsCompound = True, rv_Bytes = body, rv_FullBytes = high_der cls tag body\<rparr>, rest)"
proof -
  have n: "cls * 64 + 63 < 256" "128 + tag div 128 < 256" "tag mod 128 < 256" using assms(1,3) by auto
  have u: "unat (word_of_nat (128 + tag div 128) :: byte) = 128 + tag div 128" "unat (word_of_nat (tag mod 128) :: byte) = tag mod 128"
    by (rule unat_byte [OF n(2)], rule unat_byte [OF n(3)])
  have ne: "word_of_nat (128 + tag div 128) \<noteq> (128 :: byte)"
  proof
    assume "word_of_nat (128 + tag div 128) = (128 :: byte)"
    then have "128 + tag div 128 = unat (128 :: byte)" using u(1) by simp
    then show False using assms(2) by (simp add: div_eq_0_iff)
  qed
  have "cls = 0 \<or> cls = 1 \<or> cls = 2 \<or> cls = 3" using assms(1) by auto
  then have "(cls * 64 + 63) div 64 = cls" "odd ((cls * 64 + 63) div 32)" "(cls * 64 + 63) mod 32 = 31"
    by auto
  moreover obtain N where N: "N = cls * 64 + 63" by simp
  moreover have "base128 0 0 (word_of_nat (128 + tag div 128) # word_of_nat (tag mod 128) # word_of_nat (length body) # body @ rest)
      = Some (tag, word_of_nat (length body) # body @ rest)"
    using u ne assms(3) by (simp add: Let_def)
  ultimately have "parse_tag (high_der cls tag body @ rest) = Some (cls, True, tag, word_of_nat (length body) # body @ rest)"
    using assms(2) unat_byte [of N] n(1) unfolding high_der_def append_Cons N [symmetric]
    by (simp add: parse_tag_def Let_def del: base128.simps)
  moreover have "parse_length (word_of_nat (length body) # body @ rest) = Some (length body, body @ rest)"
    using assms(4) by (simp add: parse_length_def unat_byte)
  ultimately show ?thesis
    by (simp add: parse_raw_def parse_header_def parseTagAndLength_def) (simp add: high_der_def)
qed

lemma length_der [simp]: "length (der cls cmp tag body) = 2 + length body"
  by (simp add: der_def)

lemma length_high_der [simp]: "length (high_der cls tag body) = 4 + length body"
  by (simp add: high_der_def)

lemma der_not_Nil [simp]: "der cls cmp tag body \<noteq> []" "high_der cls tag body \<noteq> []"
  by (simp_all add: der_def high_der_def)

lemmas parse_raw_der1 = parse_raw_der [where rest = "[]", simplified]
lemmas parse_raw_high1 = parse_raw_high [where rest = "[]", simplified]

lemma parse_universal_der:
  assumes "tag < 31" "length body < 128"
  shows "parse_universal tag cmp (der 0 cmp tag body @ rest) = Some (body, rest)"
    "parse_universal tag cmp (der 0 cmp tag body) = Some (body, [])"
  using assms by (simp_all add: parse_universal_def parse_raw_der parse_raw_der1)

lemmas parse_octets_der = parse_universal_der [of 4 _ False, folded parse_octets_def, simplified]

lemma parse_sequence_der:
  "length body < 128 \<Longrightarrow> parse_sequence (der 0 True 16 body @ rest) = Some (body, rest)"
  "length body < 128 \<Longrightarrow> parse_sequence (der 0 True 16 body) = Some (body, [])"
  by (simp_all add: parse_sequence_def TagSequence_def parse_universal_der)

lemma parse_int_der:
  "length body < 128 \<Longrightarrow> der_int body = Some i \<Longrightarrow> parse_int (der 0 False 2 body @ rest) = Some (i, rest)"
  "length body < 128 \<Longrightarrow> der_int body = Some i \<Longrightarrow> parse_int (der 0 False 2 body) = Some (i, [])"
  by (simp_all add: parse_int_def parse_universal_der)

lemma parse_enum_der:
  assumes "length body < 128" "der_int body = Some i" "- 2147483648 \<le> i" "i \<le> 2147483647"
  shows "parse_enum (der 0 False 10 body @ rest) = Some (i, rest)" "parse_enum (der 0 False 10 body) = Some (i, [])"
  using assms by (simp_all add: parse_enum_def parse_universal_der)

lemma parse_bool_der:
  "parse_bool (der 0 False 1 [255] @ rest) = Some (True, rest)" "parse_bool (der 0 False 1 [0] @ rest) = Some (False, rest)"
  by (simp_all add: parse_bool_def parse_universal_der)

end
