(* ===== verification/Aka.thy ===== *)
theory Aka
  imports X509 Der Policy "HOL-Library.Monad_Syntax"
begin

text \<open>
  The Android key attestation verifier of \<^verbatim>\<open>aka.go\<close>: the framed certificate chain of a token, the
  key description of the attestation extension, and the verdict.
\<close>

section \<open>The certificate chain\<close>

text \<open>The loop of \<open>parseLengthPrefixedChain\<close>: \<open>pos\<close> advances by the length prefix and its record.\<close>

function chain_loop :: "x509 \<Rightarrow> bytes \<Rightarrow> nat \<Rightarrow> Certificate list \<Rightarrow> string + Certificate list" where
  "chain_loop X raw pos chain =
     (if pos < length raw then
        (if length raw < pos + 2 then Err (''truncated length prefix at offset '' @ nat_text pos)
         else
           let certLen = SetBytes (take 2 (drop pos raw)); pos' = pos + 2 in
           if length raw < pos' + certLen then
             Err (''truncated cert at offset '' @ nat_text pos' @ '' (declared '' @ nat_text certLen @ '' bytes, ''
               @ nat_text (length raw - pos') @ '' remaining)'')
           else case ParseCertificate X (take certLen (drop pos' raw)) of
               Err e \<Rightarrow> Err (''parse cert '' @ nat_text (length chain) @ '': '' @ e)
             | Ok cert \<Rightarrow> chain_loop X raw (pos' + certLen) (chain @ [cert]))
      else Ok chain)"
  by pat_completeness auto
termination by (relation "measure (\<lambda>(X, raw, pos, chain). length raw - pos)") auto

declare chain_loop.simps [simp del]

definition parseLengthPrefixedChain :: "x509 \<Rightarrow> bytes \<Rightarrow> string + Certificate list" where
  "parseLengthPrefixedChain X raw = chain_loop X raw 0 []"


section \<open>The key description\<close>

definition androidKeyAttestationOID :: "nat list" where
  "androidKeyAttestationOID = [1, 3, 6, 1, 4, 1, 11129, 2, 1, 17]"

definition akaSecurityLevelSoftware :: int where "akaSecurityLevelSoftware = 0"
definition akaSecurityLevelTrustedEnvironment :: int where "akaSecurityLevelTrustedEnvironment = 1"
definition akaSecurityLevelStrongBox :: int where "akaSecurityLevelStrongBox = 2"

definition verifiedBootStateVerified :: int where "verifiedBootStateVerified = 0"
definition verifiedBootStateSelfSigned :: int where "verifiedBootStateSelfSigned = 1"
definition verifiedBootStateUnverified :: int where "verifiedBootStateUnverified = 2"
definition verifiedBootStateFailed :: int where "verifiedBootStateFailed = 3"

definition authorizationListRootOfTrustTag :: nat where "authorizationListRootOfTrustTag = 704"
definition authorizationListAttestationApplicationIDTag :: nat where
  "authorizationListAttestationApplicationIDTag = 709"

lemmas aka_consts = akaSecurityLevelSoftware_def akaSecurityLevelTrustedEnvironment_def akaSecurityLevelStrongBox_def
  verifiedBootStateVerified_def verifiedBootStateSelfSigned_def verifiedBootStateUnverified_def verifiedBootStateFailed_def

record keyDescription =
  kd_AttestationVersion :: int
  kd_AttestationSecurityLevel :: int
  kd_KeymasterVersion :: int
  kd_KeymasterSecurityLevel :: int
  kd_AttestationChallenge :: bytes
  kd_UniqueID :: bytes
  kd_SoftwareEnforced :: RawValue
  kd_TeeEnforced :: RawValue

record rootOfTrust =
  rot_VerifiedBootKey :: bytes
  rot_DeviceLocked :: bool
  rot_VerifiedBootState :: int
  rot_VerifiedBootHash :: bytes

record akaParsed =
  ak_securityLevel :: int
  ak_challenge :: bytes
  ak_rootOfTrustPresent :: bool
  ak_verifiedBootState :: int
  ak_deviceLocked :: bool
  ak_packageNames :: "string list"
  ak_signingCertDigests :: "string list"

text \<open>
  \<open>asn1.Unmarshal\<close> into these structs: the fields in order inside a sequence, whose further
  elements are ignored.
\<close>

definition unmarshal_keyDescription :: "bytes \<Rightarrow> (keyDescription \<times> bytes) option" where
  "unmarshal_keyDescription bs = do {
     (b0, rest) \<leftarrow> parse_sequence bs;
     (ver, b1) \<leftarrow> parse_int b0;
     (level, b2) \<leftarrow> parse_enum b1;
     (kver, b3) \<leftarrow> parse_int b2;
     (klevel, b4) \<leftarrow> parse_enum b3;
     (chal, b5) \<leftarrow> parse_octets b4;
     (uid, b6) \<leftarrow> parse_octets b5;
     (soft, b7) \<leftarrow> parse_raw b6;
     (tee, b8) \<leftarrow> parse_raw b7;
     Some (\<lparr>kd_AttestationVersion = ver, kd_AttestationSecurityLevel = level, kd_KeymasterVersion = kver,
       kd_KeymasterSecurityLevel = klevel, kd_AttestationChallenge = chal, kd_UniqueID = uid,
       kd_SoftwareEnforced = soft, kd_TeeEnforced = tee\<rparr>, rest) }"

definition unmarshal_rootOfTrust :: "bytes \<Rightarrow> (rootOfTrust \<times> bytes) option" where
  "unmarshal_rootOfTrust bs = do {
     (b0, rest) \<leftarrow> parse_sequence bs;
     (key, b1) \<leftarrow> parse_octets b0;
     (locked, b2) \<leftarrow> parse_bool b1;
     (state, b3) \<leftarrow> parse_enum b2;
     (hash, b4) \<leftarrow> parse_optional_octets b3;
     Some (\<lparr>rot_VerifiedBootKey = key, rot_DeviceLocked = locked, rot_VerifiedBootState = state,
       rot_VerifiedBootHash = hash\<rparr>, rest) }"

text \<open>The \<open>PackageName\<close> and \<open>Version\<close> of a package info.\<close>

definition unmarshal_packageInfo :: "bytes \<Rightarrow> ((bytes \<times> int) \<times> bytes) option" where
  "unmarshal_packageInfo bs = do {
     (b0, rest) \<leftarrow> parse_sequence bs;
     (name, b1) \<leftarrow> parse_octets b0;
     (ver, b2) \<leftarrow> parse_int b1;
     Some ((name, ver), rest) }"

lemma unmarshal_packageInfo_shorter: "unmarshal_packageInfo bs = Some (v, r) \<Longrightarrow> length r < length bs"
  by (auto simp: unmarshal_packageInfo_def bind_eq_Some_conv dest: parse_sequence_shorter)


section \<open>Walking an authorization list\<close>

text \<open>
  The walk both searches of the lists make: element after element, up to the first one of the
  context-specific class with the tag.
\<close>

function find_element :: "string \<Rightarrow> nat \<Rightarrow> bytes \<Rightarrow> string + RawValue option" where
  "find_element msg tag body =
     (if body = [] then Ok None
      else case parse_raw body of
          None \<Rightarrow> Err msg
        | Some (elem, next_body) \<Rightarrow>
            if rv_Class elem \<noteq> 2 \<or> rv_Tag elem \<noteq> tag then find_element msg tag next_body
            else Ok (Some elem))"
  by pat_completeness auto
termination by (relation "measure (\<lambda>(msg, tag, body). length body)") (auto dest: parse_raw_shorter)

declare find_element.simps [simp del]

function package_names :: "bytes \<Rightarrow> string + string list" where
  "package_names values =
     (if values = [] then Ok []
      else case unmarshal_packageInfo values of
          None \<Rightarrow> Err ''decode package info''
        | Some ((name, ver), values') \<Rightarrow>
            (case package_names values' of Err e \<Rightarrow> Err e | Ok names \<Rightarrow> Ok (string_of name # names)))"
  by pat_completeness auto
termination by (relation "measure length") (auto dest: unmarshal_packageInfo_shorter)

declare package_names.simps [simp del]

function signing_digests :: "bytes \<Rightarrow> string + string list" where
  "signing_digests values =
     (if values = [] then Ok []
      else case parse_octets values of
          None \<Rightarrow> Err ''decode signing digest''
        | Some (digest, values') \<Rightarrow>
            (case signing_digests values' of Err e \<Rightarrow> Err e | Ok ds \<Rightarrow> Ok (hex_EncodeToString digest # ds)))"
  by pat_completeness auto
termination by (relation "measure length") (auto dest: parse_octets_shorter)

declare signing_digests.simps [simp del]

definition parseAttestationApplicationID :: "bytes \<Rightarrow> string + string list \<times> string list" where
  "parseAttestationApplicationID encoded =
     (case parse_raw encoded of
        Some (seq, []) \<Rightarrow>
          if rv_Tag seq \<noteq> TagSequence then Err ''malformed AttestationApplicationId sequence''
          else (case parse_raw (rv_Bytes seq) of
              None \<Rightarrow> Err ''malformed packageInfos set''
            | Some (packageSet, rest) \<Rightarrow>
                if rv_Tag packageSet \<noteq> TagSet then Err ''malformed packageInfos set''
                else (case parse_raw rest of
                    None \<Rightarrow> Err ''malformed signatureDigests set''
                  | Some (digestSet, rest') \<Rightarrow>
                      if rv_Tag digestSet \<noteq> TagSet then Err ''malformed signatureDigests set''
                      else (case package_names (rv_Bytes packageSet) of
                          Err e \<Rightarrow> Err e
                        | Ok packages \<Rightarrow> (case signing_digests (rv_Bytes digestSet) of
                              Err e \<Rightarrow> Err e
                            | Ok digests \<Rightarrow> Ok (packages, digests)))))
      | _ \<Rightarrow> Err ''malformed AttestationApplicationId sequence'')"

text \<open>\<open>None\<close>: no such entry. The bytes of a value that was decoded are not empty.\<close>

definition findAttestationApplicationID :: "RawValue \<Rightarrow> string + (string list \<times> string list) option" where
  "findAttestationApplicationID authList =
     (if rv_Tag authList \<noteq> TagSequence \<or> rv_Class authList \<noteq> 0 then
        (if rv_FullBytes authList = [] then Ok None else Err ''expected software AuthorizationList SEQUENCE'')
      else case find_element ''iterate AuthorizationList'' authorizationListAttestationApplicationIDTag (rv_Bytes authList) of
          Err e \<Rightarrow> Err e
        | Ok None \<Rightarrow> Ok None
        | Ok (Some elem) \<Rightarrow>
            (case parse_octets (rv_Bytes elem) of
               None \<Rightarrow> Err ''decode attestationApplicationId octets''
             | Some (encoded, _) \<Rightarrow>
                 (case parseAttestationApplicationID encoded of Err e \<Rightarrow> Err e | Ok pd \<Rightarrow> Ok (Some pd))))"

definition findRootOfTrust :: "RawValue \<Rightarrow> string + rootOfTrust option" where
  "findRootOfTrust authList =
     (if rv_Tag authList \<noteq> TagSequence \<or> rv_Class authList \<noteq> 0 then
        (if rv_FullBytes authList = [] then Ok None
         else Err (''expected AuthorizationList SEQUENCE, got tag='' @ nat_text (rv_Tag authList) @ '' class=''
           @ nat_text (rv_Class authList)))
      else case find_element ''iterate AuthorizationList'' authorizationListRootOfTrustTag (rv_Bytes authList) of
          Err e \<Rightarrow> Err e
        | Ok None \<Rightarrow> Ok None
        | Ok (Some elem) \<Rightarrow>
            (case unmarshal_rootOfTrust (rv_Bytes elem) of
               None \<Rightarrow> Err ''decode RootOfTrust''
             | Some (rot, _) \<Rightarrow> Ok (Some rot)))"

definition parseKeyDescription :: "bytes \<Rightarrow> string + akaParsed" where
  "parseKeyDescription extBytes =
     (case unmarshal_keyDescription extBytes of
        None \<Rightarrow> Err ''unmarshal KeyDescription''
      | Some (kd, rest) \<Rightarrow>
          if rest \<noteq> [] then Err ''trailing bytes after KeyDescription''
          else (case findAttestationApplicationID (kd_SoftwareEnforced kd) of
              Err e \<Rightarrow> Err (''walk softwareEnforced: '' @ e)
            | Ok appID \<Rightarrow> (case findRootOfTrust (kd_TeeEnforced kd) of
                  Err e \<Rightarrow> Err (''walk teeEnforced: '' @ e)
                | Ok rot \<Rightarrow> Ok \<lparr>ak_securityLevel = kd_AttestationSecurityLevel kd,
                    ak_challenge = kd_AttestationChallenge kd,
                    ak_rootOfTrustPresent = (rot \<noteq> None),
                    ak_verifiedBootState = (case rot of None \<Rightarrow> 0 | Some r \<Rightarrow> rot_VerifiedBootState r),
                    ak_deviceLocked = (case rot of None \<Rightarrow> False | Some r \<Rightarrow> rot_DeviceLocked r),
                    ak_packageNames = (case appID of None \<Rightarrow> [] | Some (ps, ds) \<Rightarrow> ps),
                    ak_signingCertDigests = (case appID of None \<Rightarrow> [] | Some (ps, ds) \<Rightarrow> ds)\<rparr>)))"

definition securityLevelString :: "int \<Rightarrow> string" where
  "securityLevelString level =
     (if level = akaSecurityLevelSoftware then ''software''
      else if level = akaSecurityLevelTrustedEnvironment then ''tee''
      else if level = akaSecurityLevelStrongBox then ''strongbox''
      else ''unknown('' @ Itoa level @ '')'')"

definition verifiedBootStateString :: "int \<Rightarrow> string" where
  "verifiedBootStateString state =
     (if state = verifiedBootStateVerified then ''verified''
      else if state = verifiedBootStateSelfSigned then ''self-signed''
      else if state = verifiedBootStateUnverified then ''unverified''
      else if state = verifiedBootStateFailed then ''failed''
      else ''unknown('' @ Itoa state @ '')'')"


section \<open>The verdict\<close>

definition rejected :: "bool \<Rightarrow> string \<Rightarrow> Verdict" where
  "rejected trustedRoot reason = zero_verdict\<lparr>vd_TrustedRoot := trustedRoot, vd_Reason := reason\<rparr>"

text \<open>The certificate nearest the root that carries the extension, with its value.\<close>

fun find_attestation :: "Certificate list \<Rightarrow> (Certificate \<times> bytes) option" where
  "find_attestation [] = None"
| "find_attestation (c # chain) =
     (case find_attestation chain of
        Some r \<Rightarrow> Some r
      | None \<Rightarrow> (case find_extension androidKeyAttestationOID (crt_Extensions c) of
            None \<Rightarrow> None | Some val \<Rightarrow> Some (c, val)))"

definition challenge_matches :: "AttestationBlob \<Rightarrow> akaParsed \<Rightarrow> bool" where
  "challenge_matches blob parsed = (ab_Nonce blob = '''' \<or> DecodeString (ab_Nonce blob) = Some (ak_challenge parsed))"

definition proof_verifies :: "crypto \<Rightarrow> AttestationBlob \<Rightarrow> Certificate \<Rightarrow> bool" where
  "proof_verifies C blob cert =
     (ab_BoundDevicePk blob = '''' \<and> ab_Proof blob = '''' \<or>
      (case (crt_PublicKey cert, DecodeString (ab_Proof blob)) of
         (EcdsaKey pub _, Some sig) \<Rightarrow> verifyP1363Signature C pub (attestationBindingInput blob) sig
       | _ \<Rightarrow> False))"

definition aka_verdict :: "string option \<Rightarrow> akaParsed \<Rightarrow> Verdict" where
  "aka_verdict verifyErr parsed =
     (let trustedRoot = (verifyErr = None) in
      \<lparr>vd_Verified = trustedRoot, vd_SecurityLevel = securityLevelString (ak_securityLevel parsed),
       vd_HardwareBacked = (ak_securityLevel parsed = akaSecurityLevelTrustedEnvironment
         \<or> ak_securityLevel parsed = akaSecurityLevelStrongBox),
       vd_TrustedRoot = trustedRoot,
       vd_VerifiedBootState = (if ak_rootOfTrustPresent parsed then verifiedBootStateString (ak_verifiedBootState parsed) else ''''),
       vd_DeviceLocked = (ak_rootOfTrustPresent parsed \<and> ak_deviceLocked parsed),
       vd_AppPackageNames = ak_packageNames parsed, vd_AppSigningCertSHA256Hex = ak_signingCertDigests parsed,
       vd_Reason = (case verifyErr of
           None \<Rightarrow> ''chain verified against bundled Google AKA roots''
         | Some e \<Rightarrow> ''chain does not anchor at a known Google AKA root: '' @ e)\<rparr>)"

text \<open>\<open>v.roots\<close> may be nil; the time is the one path validation uses.\<close>

definition androidKeyAttestation_Verify ::
    "x509 \<Rightarrow> crypto \<Rightarrow> Certificate list option \<Rightarrow> time \<Rightarrow> AttestationBlob \<Rightarrow> string + Verdict" where
  "androidKeyAttestation_Verify X C v_roots now blob =
     (if ab_Platform blob \<noteq> ''ANDROID'' then Ok (rejected False ''non-Android platform'')
      else if ab_Token blob = '''' then Ok (rejected False ''empty token'')
      else case v_roots of
        None \<Rightarrow> Ok (rejected False ''verifier has no roots pool configured'')
      | Some roots \<Rightarrow>
      (case DecodeString (ab_Token blob) of
        None \<Rightarrow> Err ''decode token base64''
      | Some tokenBytes \<Rightarrow>
      (case parseLengthPrefixedChain X tokenBytes of
        Err e \<Rightarrow> Err (''parse cert chain: '' @ e)
      | Ok [] \<Rightarrow> Ok (rejected False ''empty cert chain'')
      | Ok (leaf # parents) \<Rightarrow>
      (case bad_link X 0 (leaf # parents) of
        Some (i, err) \<Rightarrow> Ok (rejected False (link_reason i err))
      | None \<Rightarrow>
          let verifyErr = Certificate_Verify X roots parents now leaf; trustedRoot = (verifyErr = None) in
          (case find_attestation (leaf # parents) of
             None \<Rightarrow> Ok (rejected trustedRoot ''certificate chain missing Android Key Attestation extension'')
           | Some (attestationCert, extBytes) \<Rightarrow>
               (case parseKeyDescription extBytes of
                  Err e \<Rightarrow> Err (''parse attestation extension: '' @ e)
                | Ok parsed \<Rightarrow>
                    if \<not> challenge_matches blob parsed then
                      Ok (rejected trustedRoot ''attestation challenge does not match request nonce'')
                    else if \<not> proof_verifies C blob attestationCert then
                      Ok (rejected trustedRoot ''attested key proof did not verify'')
                    else Ok (aka_verdict verifyErr parsed)))))))"

section \<open>Framing\<close>

definition frame :: "bytes \<Rightarrow> bytes" where
  "frame d = word_bytes 2 (length d) @ d"

definition frames :: "bytes list \<Rightarrow> bytes" where
  "frames ders = concat (map frame ders)"

lemma frames_Cons: "frames (d # ds) = frame d @ frames ds"
  by (simp add: frames_def)

lemma length_frame: "length d < 65536 \<Longrightarrow> length (frame d) = 2 + length d"
  by (simp add: frame_def)

lemma frames_Nil_iff: "list_all (\<lambda>d. length d < 65536) ders \<Longrightarrow> frames ders = [] \<longleftrightarrow> ders = []"
proof (cases ders)
  case (Cons d ds)
  assume "list_all (\<lambda>d. length d < 65536) ders"
  then have "length (frame d) \<noteq> 0" using Cons length_frame [of d] by simp
  then show ?thesis using Cons by (auto simp: frames_Cons)
qed (simp add: frames_def)

lemma take_frame: "length d < 65536 \<Longrightarrow> SetBytes (take 2 (frame d @ r)) = length d \<and> take (length d) (drop 2 (frame d @ r)) = d"
  by (simp add: frame_def)

lemma frame_of_record:
  assumes "n = SetBytes (take 2 bs)" "2 + n \<le> length bs"
  shows "bs = frame (take n (drop 2 bs)) @ drop (2 + n) bs"
proof -
  have "word_bytes 2 n = take 2 bs" using assms by (simp add: word_bytes_SetBytes)
  moreover have "length (take n (drop 2 bs)) = n" using assms(2) by simp
  ultimately have "frame (take n (drop 2 bs)) = take 2 bs @ take n (drop 2 bs)" by (simp only: frame_def)
  also have "\<dots> = take (2 + n) bs" by (simp only: take_add)
  finally show ?thesis by simp
qed

text \<open>Every record of the input is a frame whose contents parse to the certificate.\<close>

definition framed_as :: "x509 \<Rightarrow> bytes \<Rightarrow> Certificate list \<Rightarrow> bool" where
  "framed_as X raw chain \<longleftrightarrow>
     (\<exists>ders. raw = frames ders \<and> list_all2 (\<lambda>d c. length d < 65536 \<and> ParseCertificate X d = Ok c) ders chain)"

lemma framed_as_Nil [simp]: "framed_as X [] chain \<longleftrightarrow> chain = []"
proof
  assume "framed_as X [] chain"
  then obtain ders where d: "[] = frames ders" "list_all2 (\<lambda>d c. length d < 65536 \<and> ParseCertificate X d = Ok c) ders chain"
    by (auto simp: framed_as_def)
  from d(2) have "list_all (\<lambda>d. length d < 65536) ders" by (induction rule: list_all2_induct) auto
  then have "ders = []" using d(1) frames_Nil_iff [of ders] by simp
  then show "chain = []" using d(2) by simp
next
  assume "chain = []"
  then show "framed_as X [] chain" by (auto simp: framed_as_def frames_def intro!: exI [of _ "[]"])
qed

lemma framed_as_Cons:
  assumes "n = SetBytes (take 2 bs)" "bs \<noteq> []"
  shows "framed_as X bs chain \<longleftrightarrow> 2 + n \<le> length bs \<and>
    (\<exists>c cs. ParseCertificate X (take n (drop 2 bs)) = Ok c \<and> chain = c # cs \<and> framed_as X (drop (2 + n) bs) cs)"
    (is "?l = ?r")
proof
  assume ?l
  then obtain ders where d: "bs = frames ders" "list_all2 (\<lambda>d c. length d < 65536 \<and> ParseCertificate X d = Ok c) ders chain"
    by (auto simp: framed_as_def)
  then obtain d ds where ds: "ders = d # ds" using assms(2) by (cases ders) (auto simp: frames_def)
  then obtain c cs where c: "chain = c # cs" "length d < 65536" "ParseCertificate X d = Ok c"
    "list_all2 (\<lambda>d c. length d < 65536 \<and> ParseCertificate X d = Ok c) ds cs"
    using d(2) by (auto simp: list_all2_Cons1)
  have bs: "bs = frame d @ frames ds" by (simp add: d(1) ds frames_Cons)
  have n: "n = length d" using take_frame [OF c(2), of "frames ds"] assms(1) bs by simp
  have "drop (2 + n) bs = frames ds" "2 + n \<le> length bs" using length_frame [OF c(2)] bs n by simp_all
  moreover have "take n (drop 2 bs) = d" using take_frame [OF c(2), of "frames ds"] bs n by simp
  ultimately show ?r using c by (auto simp: framed_as_def)
next
  assume r: ?r
  then obtain c cs ders where c: "ParseCertificate X (take n (drop 2 bs)) = Ok c" "chain = c # cs" "2 + n \<le> length bs"
      "drop (2 + n) bs = frames ders" "list_all2 (\<lambda>d c. length d < 65536 \<and> ParseCertificate X d = Ok c) ders cs"
    by (auto simp: framed_as_def)
  have "n < 65536" using SetBytes_less [of "take 2 bs"] assms(1) c(3) by simp
  moreover have "bs = frames (take n (drop 2 bs) # ders)"
    using frame_of_record [OF assms(1) c(3)] c(4) by (simp add: frames_Cons)
  ultimately show ?l using c unfolding framed_as_def by (intro exI [of _ "take n (drop 2 bs) # ders"]) auto
qed

lemma chain_loop_framed:
  "pos \<le> length raw \<Longrightarrow>
   chain_loop X raw pos acc = Ok chain \<longleftrightarrow> (\<exists>cs. chain = acc @ cs \<and> framed_as X (drop pos raw) cs)"
proof (induction X raw pos acc rule: chain_loop.induct)
  case (1 X raw pos acc)
  let ?bs = "drop pos raw" let ?n = "SetBytes (take 2 ?bs)"
  show ?case
  proof (cases "pos < length raw")
    case False
    then have "chain_loop X raw pos acc = Ok acc" "?bs = []" by (simp_all add: chain_loop.simps)
    then show ?thesis by auto
  next
    case True
    then have "?bs \<noteq> []" by simp
    note F = framed_as_Cons [OF refl this, of X]
    show ?thesis
    proof (cases "length raw < pos + 2 \<or> length raw < pos + 2 + ?n")
      case True
      then have "\<not> 2 + ?n \<le> length ?bs" by auto
      then show ?thesis using True \<open>pos < length raw\<close> by (auto simp: chain_loop.simps [of X raw pos] F Let_def)
    next
      case False
      then have len: "2 + ?n \<le> length ?bs" by auto
      show ?thesis
      proof (cases "ParseCertificate X (take ?n (drop (pos + 2) raw))")
        case (Inl e)
        then show ?thesis using False \<open>pos < length raw\<close>
          by (simp add: chain_loop.simps [of X raw pos] F Let_def add.commute [of 2])
      next
        case (Inr c)
        have e: "chain_loop X raw pos acc = chain_loop X raw (pos + 2 + ?n) (acc @ [c])"
          using False \<open>pos < length raw\<close> Inr by (simp add: chain_loop.simps [of X raw pos] Let_def)
        have f: "framed_as X ?bs cs \<longleftrightarrow> (\<exists>cs'. cs = c # cs' \<and> framed_as X (drop (pos + 2 + ?n) raw) cs')" for cs
          using len Inr by (simp add: F ac_simps)
        have ih: "chain_loop X raw (pos + 2 + ?n) (acc @ [c]) = Ok chain
            \<longleftrightarrow> (\<exists>cs. chain = (acc @ [c]) @ cs \<and> framed_as X (drop (pos + 2 + ?n) raw) cs)"
          using "1.IH" [OF True _ refl refl _ Inr] False by (simp add: add.assoc)
        show ?thesis unfolding e ih f by auto
      qed
    qed
  qed
qed

section \<open>What a verdict is worth\<close>

lemma find_attestation_iff:
  "find_attestation chain = Some (cert, ext) \<longleftrightarrow>
   (\<exists>pre post. chain = pre @ cert # post \<and> map_of (crt_Extensions cert) androidKeyAttestationOID = Some ext \<and>
      (\<forall>c \<in> set post. map_of (crt_Extensions c) androidKeyAttestationOID = None))"
proof (induction chain)
  case (Cons c chain)
  have none: "find_attestation chain = None \<longleftrightarrow> (\<forall>c \<in> set chain. map_of (crt_Extensions c) androidKeyAttestationOID = None)"
    by (induction chain) (auto simp: find_extension_map_of split: option.splits)
  show ?case
  proof (cases "find_attestation chain")
    case None
    then show ?thesis using none
      by (auto simp: find_extension_map_of Cons_eq_append_conv split: option.splits)
  next
    case (Some r)
    then have "\<not> (\<forall>c \<in> set chain. map_of (crt_Extensions c) androidKeyAttestationOID = None)" using none by simp
    then show ?thesis using Some Cons.IH by (auto simp: Cons_eq_append_conv)
  qed
qed simp

lemma android_verified_iff:
  "androidKeyAttestation_Verify X C v_roots now blob = Ok v \<and> vd_Verified v \<longleftrightarrow>
   ab_Platform blob = ''ANDROID'' \<and>
   (\<exists>roots raw pre cert post ext parsed.
      v_roots = Some roots \<and> DecodeString (ab_Token blob) = Some raw \<and> framed_as X raw (pre @ cert # post) \<and>
      chain_linked X (pre @ cert # post) \<and> chain_anchored X roots now (pre @ cert # post) \<and>
      map_of (crt_Extensions cert) androidKeyAttestationOID = Some ext \<and>
      (\<forall>c \<in> set post. map_of (crt_Extensions c) androidKeyAttestationOID = None) \<and>
      parseKeyDescription ext = Ok parsed \<and> challenge_matches blob parsed \<and> proof_verifies C blob cert \<and>
      v = aka_verdict None parsed)"
  (is "?l \<longleftrightarrow> ?r")
proof
  assume l: ?l
  then have plat: "ab_Platform blob = ''ANDROID''" "ab_Token blob \<noteq> ''''"
    by (auto simp: androidKeyAttestation_Verify_def rejected_def zero_verdict_def split: if_splits)
  then obtain roots raw leaf parents where 1: "v_roots = Some roots" "DecodeString (ab_Token blob) = Some raw"
      "parseLengthPrefixedChain X raw = Ok (leaf # parents)" "bad_link X 0 (leaf # parents) = None"
    using l by (auto simp: androidKeyAttestation_Verify_def rejected_def zero_verdict_def split: option.splits sum.splits list.splits)
  then obtain cert ext where 2: "find_attestation (leaf # parents) = Some (cert, ext)"
    using l plat by (auto simp: androidKeyAttestation_Verify_def rejected_def zero_verdict_def Let_def
      simp del: find_attestation.simps split: option.splits)
  then obtain parsed where 3: "parseKeyDescription ext = Ok parsed" "challenge_matches blob parsed" "proof_verifies C blob cert"
      "v = aka_verdict (Certificate_Verify X roots parents now leaf) parsed"
    using l plat 1 by (auto simp: androidKeyAttestation_Verify_def rejected_def zero_verdict_def Let_def
      simp del: find_attestation.simps split: sum.splits if_splits)
  then have "Certificate_Verify X roots parents now leaf = None" using l by (simp add: aka_verdict_def Let_def)
  moreover obtain pre post where "leaf # parents = pre @ cert # post" "map_of (crt_Extensions cert) androidKeyAttestationOID = Some ext"
      "\<forall>c \<in> set post. map_of (crt_Extensions c) androidKeyAttestationOID = None"
    using 2 unfolding find_attestation_iff by blast
  moreover have "framed_as X raw (leaf # parents)"
    using 1(3) chain_loop_framed [of 0 raw X "[]"] by (simp add: parseLengthPrefixedChain_def)
  ultimately show ?r using plat 1 3 unfolding chain_anchored_def bad_link_None
    by (metis list.sel(1) list.sel(3))
next
  assume r: ?r
  then obtain roots raw pre cert post ext parsed where 1:
      "v_roots = Some roots" "DecodeString (ab_Token blob) = Some raw" "framed_as X raw (pre @ cert # post)"
      "chain_linked X (pre @ cert # post)" "chain_anchored X roots now (pre @ cert # post)"
    and 2: "map_of (crt_Extensions cert) androidKeyAttestationOID = Some ext"
      "\<forall>c \<in> set post. map_of (crt_Extensions c) androidKeyAttestationOID = None"
    and 3: "parseKeyDescription ext = Ok parsed" "challenge_matches blob parsed" "proof_verifies C blob cert" "v = aka_verdict None parsed"
    by blast
  obtain leaf parents where c: "pre @ cert # post = leaf # parents" by (cases pre) auto
  have "parseLengthPrefixedChain X raw = Ok (leaf # parents)"
    using 1(3) chain_loop_framed [of 0 raw X "[]"] c by (simp add: parseLengthPrefixedChain_def)
  moreover have "ab_Token blob \<noteq> ''''"
  proof
    assume "ab_Token blob = ''''"
    then have "raw = []" using 1(2) Decode_Encode [of "[]"] by (simp add: EncodeToString_def)
    then show False using 1(3) by simp
  qed
  moreover have "find_attestation (leaf # parents) = Some (cert, ext)"
    using 2 c unfolding find_attestation_iff by metis
  moreover have "bad_link X 0 (leaf # parents) = None" using 1(4) c unfolding bad_link_None by simp
  moreover have "Certificate_Verify X roots parents now leaf = None" using 1(5) c by (simp add: chain_anchored_def)
  ultimately show ?l using r 1 3
    by (simp add: androidKeyAttestation_Verify_def Let_def aka_verdict_def del: find_attestation.simps bad_link.simps)
qed

text \<open>The decoding of a body element by element, up to a rest.\<close>

inductive walks :: "bytes \<Rightarrow> RawValue list \<Rightarrow> bytes \<Rightarrow> bool" where
  walks_Nil: "walks body [] body"
| walks_Cons: "parse_raw body = Some (e, r) \<Longrightarrow> walks r es rest \<Longrightarrow> walks body (e # es) rest"

inductive_cases walks_ConsE: "walks body (e # es) rest"
inductive_cases walks_NilE: "walks body [] rest"

definition matching :: "nat \<Rightarrow> RawValue \<Rightarrow> bool" where
  "matching tag e \<longleftrightarrow> rv_Class e = 2 \<and> rv_Tag e = tag"

lemma find_element_step:
  "body \<noteq> [] \<Longrightarrow> parse_raw body = Some (e, r) \<Longrightarrow>
   find_element msg tag body = (if matching tag e then Ok (Some e) else find_element msg tag r)"
  by (simp add: find_element.simps [of msg tag body] matching_def)

lemma parse_raw_Nil [simp]: "parse_raw [] = None"
  by (simp add: parse_raw_def parse_header_def parseTagAndLength_def parse_tag_def)

lemma find_element_skip:
  "walks body es rest \<Longrightarrow> \<forall>e \<in> set es. \<not> matching tag e \<Longrightarrow> find_element msg tag body = find_element msg tag rest"
  by (induction rule: walks.induct) (auto simp: find_element_step intro!: trans [OF find_element_step])

section \<open>A sample token\<close>

definition sample_root_of_trust :: bytes where
  "sample_root_of_trust = der 0 True 16 (der 0 False 4 [1] @ der 0 False 1 [255] @ der 0 False 10 [0])"

definition sample_digest :: bytes where
  "sample_digest = [0xe0, 0x3d, 0xcc, 0x51, 0xaa, 0xd4, 0x54, 0x56, 0xb9, 0x7b, 0x63, 0x31, 0xc0, 0x8a, 0x2f, 0x6a,
     0x67, 0xeb, 0x95, 0x16, 0xe9, 0x31, 0xa3, 0xe6, 0xce, 0xfc, 0xd0, 0xee, 0xee, 0x58, 0x01, 0xd4]"

definition sample_application_id :: bytes where
  "sample_application_id = der 0 True 16
     (der 0 True 17 (der 0 True 16 (der 0 False 4 (bytes_of defaultAndroidPackageName) @ der 0 False 2 [1]))
      @ der 0 True 17 (der 0 False 4 sample_digest))"

text \<open>A key description of the trusted environment for the challenge \<open>[9]\<close>.\<close>

definition sample_key_fields :: bytes where
  "sample_key_fields = der 0 False 2 [3] @ der 0 False 10 [1] @ der 0 False 2 [4] @ der 0 False 10 [1] @ der 0 False 4 [9] @ der 0 False 4 []
     @ der 0 True 16 (high_der 2 709 (der 0 False 4 sample_application_id))
     @ der 0 True 16 (high_der 2 704 sample_root_of_trust)"

definition sample_key_description :: bytes where
  "sample_key_description = der 0 True 16 sample_key_fields"

definition sample_parsed :: akaParsed where
  "sample_parsed = \<lparr>ak_securityLevel = 1, ak_challenge = [9], ak_rootOfTrustPresent = True, ak_verifiedBootState = 0,
     ak_deviceLocked = True, ak_packageNames = [defaultAndroidPackageName],
     ak_signingCertDigests = [defaultAndroidSigningCertSHA256]\<rparr>"

definition sample_leaf :: Certificate where
  "sample_leaf = \<lparr>crt_Extensions = [(androidKeyAttestationOID, sample_key_description)],
     crt_PublicKey = EcdsaKey \<lparr>pk_Curve = P256, pk_X = 7, pk_Y = 1\<rparr> 256\<rparr>"

definition sample_x509 :: "bytes \<Rightarrow> Certificate \<Rightarrow> x509" where
  "sample_x509 leaf_der leaf = \<lparr>ParseCertificate = (\<lambda>d. if d = leaf_der then Ok leaf else Err ''no certificate''),
     CheckSignatureFrom = (\<lambda>c p. None), Certificate_Verify = (\<lambda>roots inter now c. None)\<rparr>"

definition sample_device :: string where "sample_device = EncodeToString (2 # replicate 32 0)"

definition sample_android :: AttestationBlob where
  "sample_android = \<lparr>ab_Platform = ''ANDROID'', ab_Token = EncodeToString [0, 1, 7], ab_Nonce = EncodeToString [9],
     ab_BoundDevicePk = sample_device, ab_Proof = EncodeToString (replicate 31 0 @ [1] @ replicate 31 0 @ [2])\<rparr>"

definition sample_aka :: "AttestationBlob \<Rightarrow> string + Verdict" where
  "sample_aka = androidKeyAttestation_Verify (sample_x509 [7] sample_leaf) sample_crypto (Some []) 5"

lemmas sample_lengths = sample_root_of_trust_def sample_application_id_def sample_digest_def sample_key_fields_def
  defaultAndroidPackageName_def

lemma sample_identity: "parseAttestationApplicationID sample_application_id
    = Ok ([defaultAndroidPackageName], [defaultAndroidSigningCertSHA256])"
proof -
  have pn: "length (bytes_of defaultAndroidPackageName) = 30" by (simp add: defaultAndroidPackageName_def)
  have sd: "length sample_digest = 32" by (simp add: sample_digest_def)
  have "package_names (der 0 True 16 (der 0 False 4 (bytes_of defaultAndroidPackageName) @ der 0 False 2 [1]))
      = Ok [defaultAndroidPackageName]"
    using pn by (simp add: package_names.simps unmarshal_packageInfo_def parse_sequence_der parse_octets_der parse_int_der der_int_def
        SetBytes_def)
  moreover have "hex_EncodeToString sample_digest = defaultAndroidSigningCertSHA256"
    by (simp add: hex_EncodeToString_def sample_digest_def hex_digit_def defaultAndroidSigningCertSHA256_def char_of_def bit_0)
  then have "signing_digests (der 0 False 4 sample_digest) = Ok [defaultAndroidSigningCertSHA256]"
    using sd by (simp add: signing_digests.simps parse_octets_der)
  ultimately show ?thesis
    using pn sd
    by (simp add: parseAttestationApplicationID_def sample_application_id_def parse_raw_der parse_raw_der1 TagSequence_def TagSet_def)
qed

lemma sample_key_description_parses: "parseKeyDescription sample_key_description = Ok sample_parsed"
proof -
  have l: "length sample_application_id = 77" "length sample_root_of_trust = 11"
    by (simp_all add: sample_lengths)
  then have "length sample_key_fields < 128" by (simp add: sample_key_fields_def)
  note seq = parse_sequence_der(2) [OF this]
  have soft: "findAttestationApplicationID \<lparr>rv_Class = 0, rv_Tag = 16, rv_IsCompound = True,
       rv_Bytes = high_der 2 709 (der 0 False 4 sample_application_id), rv_FullBytes = b\<rparr>
     = Ok (Some ([defaultAndroidPackageName], [defaultAndroidSigningCertSHA256]))" for b
    using l by (simp add: findAttestationApplicationID_def TagSequence_def find_element.simps authorizationListAttestationApplicationIDTag_def
      parse_raw_high1 parse_octets_der sample_identity)
  have tee: "findRootOfTrust \<lparr>rv_Class = 0, rv_Tag = 16, rv_IsCompound = True,
       rv_Bytes = high_der 2 704 sample_root_of_trust, rv_FullBytes = b\<rparr>
     = Ok (Some \<lparr>rot_VerifiedBootKey = [1], rot_DeviceLocked = True, rot_VerifiedBootState = 0, rot_VerifiedBootHash = []\<rparr>)" for b
    using l(2) by (simp add: findRootOfTrust_def TagSequence_def find_element.simps authorizationListRootOfTrustTag_def parse_raw_high1)
      (simp add: sample_root_of_trust_def unmarshal_rootOfTrust_def parse_sequence_der parse_octets_der parse_bool_der [simplified] parse_enum_der
        der_int_def SetBytes_def parse_optional_octets_def)
  show ?thesis
    using l by (simp add: parseKeyDescription_def sample_key_description_def unmarshal_keyDescription_def seq)
      (simp add: sample_key_fields_def parse_int_der parse_enum_der parse_octets_der der_int_def SetBytes_def parse_raw_der parse_raw_der1
        soft tee sample_parsed_def)
qed

definition sample_aka_verdict :: Verdict where
  "sample_aka_verdict = aka_verdict None sample_parsed"

lemma sample_aka_verdict_facts:
  "vd_Verified sample_aka_verdict" "vd_HardwareBacked sample_aka_verdict" "vd_TrustedRoot sample_aka_verdict"
  "vd_VerifiedBootState sample_aka_verdict = ''verified''" "vd_DeviceLocked sample_aka_verdict"
  "vd_AppPackageNames sample_aka_verdict = [defaultAndroidPackageName]"
  "vd_AppSigningCertSHA256Hex sample_aka_verdict = [defaultAndroidSigningCertSHA256]"
  by (simp_all add: sample_aka_verdict_def aka_verdict_def sample_parsed_def aka_consts verifiedBootStateString_def)

lemma sample_android_token: "ab_Token sample_android \<noteq> ''''"
  using EncodeToString_inj [of "[0, 1, 7]" "[]"] by (simp add: sample_android_def EncodeToString_def)

lemma sample_aka_runs: "sample_aka sample_android = Ok sample_aka_verdict"
proof -
  have f: "framed_as (sample_x509 [7] sample_leaf) [0, 1, 7] [sample_leaf]"
    unfolding framed_as_def by (rule exI [of _ "[[7]]"]) (simp add: frames_def frame_def sample_x509_def, code_simp)
  have s: "verifyP1363Signature sample_crypto pk m (replicate 31 0 @ [1] @ replicate 31 0 @ [2])" for pk m
    using SetBytes_zeros [of 31 "[1]"] SetBytes_zeros [of 31 "[2]"]
    by (simp add: verifyP1363Signature_def sample_crypto_def) (simp add: SetBytes_def)
  have "sample_aka sample_android = Ok (aka_verdict None sample_parsed) \<and> vd_Verified (aka_verdict None sample_parsed)"
    unfolding sample_aka_def android_verified_iff
    by (intro conjI, simp add: sample_android_def, rule exI [of _ "[]"], rule exI [of _ "[0, 1, 7]"], rule exI [of _ "[]"],
        rule exI [of _ sample_leaf], rule exI [of _ "[]"], rule exI [of _ sample_key_description], rule exI [of _ sample_parsed])
      (use s f in \<open>simp add: sample_android_def Decode_Encode chain_linked_def chain_anchored_def challenge_matches_def sample_key_description_parses
        sample_parsed_def proof_verifies_def sample_leaf_def sample_x509_def\<close>)
  then show ?thesis by (simp add: sample_aka_verdict_def)
qed


section \<open>Properties of the verifier\<close>

text \<open>The chain parser accepts exactly the concatenations of length-prefixed records that all parse
  as certificates, and gives those certificates in order: nothing is skipped, truncated or left over.\<close>

theorem chain_parser_exact:
  "parseLengthPrefixedChain X raw = Ok chain \<longleftrightarrow> framed_as X raw chain"
  using chain_loop_framed [of 0 raw X "[]" chain] by (simp add: parseLengthPrefixedChain_def)

text \<open>C9. An Android attestation is verified exactly when the token is a framed certificate chain in
  which every certificate is signed by the next, the leaf anchors at the configured roots, the
  certificate nearest the root that carries the attestation extension has a well-formed key
  description, its challenge is the nonce of the request (when there is one), and the key of that
  certificate signed the binding of the device key (when one is claimed); the verdict then reports
  what that description says and nothing else.\<close>

theorem android_verified_exactly:
  "androidKeyAttestation_Verify X C v_roots now blob = Ok v \<and> vd_Verified v \<longleftrightarrow>
   ab_Platform blob = ''ANDROID'' \<and>
   (\<exists>roots raw pre cert post ext parsed.
      v_roots = Some roots \<and> DecodeString (ab_Token blob) = Some raw \<and> framed_as X raw (pre @ cert # post) \<and>
      chain_linked X (pre @ cert # post) \<and> chain_anchored X roots now (pre @ cert # post) \<and>
      map_of (crt_Extensions cert) androidKeyAttestationOID = Some ext \<and>
      (\<forall>c \<in> set post. map_of (crt_Extensions c) androidKeyAttestationOID = None) \<and>
      parseKeyDescription ext = Ok parsed \<and> challenge_matches blob parsed \<and> proof_verifies C blob cert \<and>
      v = aka_verdict None parsed)"
  by (rule android_verified_iff)

theorem android_verified_exactly_witness:
  "\<exists>cert pre post ext. map_of (crt_Extensions cert) androidKeyAttestationOID = Some ext \<and>
     framed_as (sample_x509 [7] sample_leaf) [0, 1, 7] (pre @ cert # post) \<and> proof_verifies sample_crypto sample_android cert"
proof -
  have "DecodeString (ab_Token sample_android) = Some raw \<Longrightarrow> raw = [0, 1, 7]" for raw
    by (simp add: sample_android_def Decode_Encode)
  moreover have "androidKeyAttestation_Verify (sample_x509 [7] sample_leaf) sample_crypto (Some []) 5 sample_android
      = Ok (aka_verdict None sample_parsed) \<and> vd_Verified (aka_verdict None sample_parsed)"
    using sample_aka_runs by (simp add: sample_aka_def sample_aka_verdict_def aka_verdict_def)
  note android_verified_exactly [THEN iffD1, OF this]
  ultimately show ?thesis by blast
qed

text \<open>The search of an authorization list gives the first entry with the tag, after entries that all
  decode and do not carry it, whatever follows; it gives nothing exactly when the whole list decodes
  without such an entry; and it fails exactly when it meets an entry that does not decode before one.
  An entry that comes later cannot replace the one a device put first.\<close>

theorem authorization_list_search:
  "case find_element msg tag body of
     Ok (Some e) \<Rightarrow> \<exists>es rest. walks body (es @ [e]) rest \<and> matching tag e \<and> (\<forall>x \<in> set es. \<not> matching tag x)
   | Ok None \<Rightarrow> \<exists>es. walks body es [] \<and> (\<forall>x \<in> set es. \<not> matching tag x)
   | Err m \<Rightarrow> m = msg \<and> (\<exists>es rest. walks body es rest \<and> rest \<noteq> [] \<and> parse_raw rest = None \<and> (\<forall>x \<in> set es. \<not> matching tag x))"
proof (induction msg tag body rule: find_element.induct)
  case (1 msg tag body)
  show ?case
  proof (cases "body = []")
    case True
    then show ?thesis by (auto simp: find_element.simps intro: walks_Nil)
  next
    case False
    show ?thesis
    proof (cases "parse_raw body")
      case None
      have "walks body [] body" by (rule walks_Nil)
      then have "\<exists>es rest. walks body es rest \<and> rest \<noteq> [] \<and> parse_raw rest = None \<and> (\<forall>x \<in> set es. \<not> matching tag x)"
        using None False by (intro exI [of _ "[]"] exI [of _ body]) simp
      then show ?thesis using None False by (simp add: find_element.simps [of msg tag body])
    next
      case (Some er)
      obtain e r where er: "er = (e, r)" by (cases er)
      show ?thesis
      proof (cases "matching tag e")
        case True
        have "walks body ([] @ [e]) r" using Some er by (auto intro: walks_Cons walks_Nil)
        then have "\<exists>es rest. walks body (es @ [e]) rest \<and> matching tag e \<and> (\<forall>x \<in> set es. \<not> matching tag x)"
          using True by (intro exI [of _ "[]"] exI [of _ r]) simp
        then show ?thesis using True Some er False by (simp add: find_element_step)
      next
        case no: False
        have "find_element msg tag body = find_element msg tag r" using no Some er False by (simp add: find_element_step)
        moreover have ih: "case find_element msg tag r of
             Ok (Some e) \<Rightarrow> \<exists>es rest. walks r (es @ [e]) rest \<and> matching tag e \<and> (\<forall>x \<in> set es. \<not> matching tag x)
           | Ok None \<Rightarrow> \<exists>es. walks r es [] \<and> (\<forall>x \<in> set es. \<not> matching tag x)
           | Err m \<Rightarrow> m = msg \<and> (\<exists>es rest. walks r es rest \<and> rest \<noteq> [] \<and> parse_raw rest = None \<and> (\<forall>x \<in> set es. \<not> matching tag x))"
          using "1.IH" [OF False Some er [symmetric]] no by (simp add: matching_def)
        moreover have "walks body (e # es) rest" if "walks r es rest" for es rest
          using that Some er by (auto intro: walks_Cons)
        ultimately show ?thesis using no
          by (auto split: sum.splits option.splits) (metis Cons_eq_appendI set_ConsD)+
      qed
    qed
  qed
qed

theorem authorization_list_search_witness:
  "\<exists>es rest. walks (high_der 2 704 sample_root_of_trust) (es @ [\<lparr>rv_Class = 2, rv_Tag = 704, rv_IsCompound = True,
      rv_Bytes = sample_root_of_trust, rv_FullBytes = high_der 2 704 sample_root_of_trust\<rparr>]) rest"
proof -
  have "length sample_root_of_trust < 128" by (simp add: sample_root_of_trust_def)
  then have "find_element '''' 704 (high_der 2 704 sample_root_of_trust)
      = Ok (Some \<lparr>rv_Class = 2, rv_Tag = 704, rv_IsCompound = True,
        rv_Bytes = sample_root_of_trust, rv_FullBytes = high_der 2 704 sample_root_of_trust\<rparr>)"
    by (simp add: find_element.simps parse_raw_high1)
  then show ?thesis using authorization_list_search [where msg = "''''" and tag = 704 and body = "high_der 2 704 sample_root_of_trust"] by auto
qed


end
