(* ===== verification/Issue.thy ===== *)
theory Issue
  imports Redeem Aka
begin

text \<open>
  \<^verbatim>\<open>server.go\<close>: the server around the state, its gate on concurrent requests, and the handlers of
  every route but the redemption one. A call of \<^verbatim>\<open>handleIssue\<close> comes with its readings of the clock,
  the outcomes of the file operations and the randomness of the receipt's signature; the audit
  lines it emits are part of its result.
\<close>

section \<open>The server\<close>

record Server =
  sv_state :: State
  sv_inFlight :: nat
  sv_challenges :: attestationChallengeManager
  sv_replay :: replayCache

definition NewServer :: "State \<Rightarrow> Server" where
  "NewServer s = \<lparr>sv_state = s, sv_inFlight = 0, sv_challenges = newAttestationChallengeManager,
     sv_replay = newReplayCache\<rparr>"

record issue_call =
  is_configsDisk :: disk
  is_replayNow :: time
  is_challengeNow :: time
  is_limiterNow :: time
  is_grantNow :: time
  is_sign :: bytes


section \<open>The issue handler\<close>

definition parse_issue :: "json \<Rightarrow> bytes option \<Rightarrow> http_response + IssueRequest" where
  "parse_issue J body =
     (case body of None \<Rightarrow> Err (writeIssueError 400 ''bad_request'' ''read body'')
      | Some b \<Rightarrow>
     (case js_unmarshal_issue J (take (64 * 1024) b) of
        None \<Rightarrow> Err (writeIssueError 400 ''bad_request'' ''parse json'')
      | Some req \<Rightarrow>
     if iq_V req \<noteq> 1 \<and> iq_V req \<noteq> 2
     then Err (writeIssueError 400 ''unsupported_version'' ''this server speaks v1 and v2'')
     else if iq_DevicePk req = '''' \<or> iq_RequestNonce req = '''' \<or> iq_RequestSignature req = '''' \<or> iq_ConfigID req = ''''
     then Err (writeIssueError 400 ''bad_request'' ''missing required field'')
     else Ok req))"

definition check_signature :: "crypto \<Rightarrow> IssueRequest \<Rightarrow> http_response option" where
  "check_signature C req =
     (case verifyIssueRequestSignature C req of
        Err e \<Rightarrow> Some (writeIssueError 400 ''bad_signature'' e)
      | Ok ok \<Rightarrow> if ok then None else Some (writeIssueError 401 ''bad_signature'' ''request signature did not verify''))"

definition replay_key :: "IssueRequest \<Rightarrow> string" where
  "replay_key req = iq_DevicePk req @ ''|'' @ iq_ConfigID req @ ''|'' @ iq_RequestNonce req"

definition check_replay :: "replayCache \<Rightarrow> time \<Rightarrow> IssueRequest \<Rightarrow> http_response option \<times> replayCache" where
  "check_replay c now req =
     (if 2 \<le> iq_V req then
        (case DecodeString (iq_RequestNonce req) of
           None \<Rightarrow> (Some (writeIssueError 400 ''bad_request'' ''requestNonce must be 16 bytes''), c)
         | Some nonce \<Rightarrow>
             if length nonce \<noteq> 16
             then (Some (writeIssueError 400 ''bad_request'' ''requestNonce must be 16 bytes''), c)
             else case Use c (replay_key req) now (25 * Hour) of (fresh, c') \<Rightarrow>
               (if fresh then None else Some (writeIssueError 409 ''replayed_request'' ''request nonce was already used''), c'))
      else (None, c))"

definition android_guard ::
    "env \<Rightarrow> attestationChallengeManager \<Rightarrow> time \<Rightarrow> IssueRequest \<Rightarrow> AttestationPolicy option \<Rightarrow> http_response option" where
  "android_guard E m now req policy =
     (case (armFor E policy (ab_Platform (iq_Attestation req)), policy) of
        (Some arm, Some p) \<Rightarrow>
          if arm_Verifier arm = android_key_attestation \<and> pol_Mode p = AttestationModeStrict then
            if iq_V req < 2 \<or> ab_BoundDevicePk (iq_Attestation req) \<noteq> iq_DevicePk req \<or> ab_Proof (iq_Attestation req) = ''''
            then Some (writeIssueError 401 ''attestation_failed'' ''Android attestation is not bound to this request key'')
            else if \<not> Challenge_Valid m (ab_Nonce (iq_Attestation req)) now
            then Some (writeIssueError 401 ''attestation_failed'' ''Android attestation challenge is stale or unknown'')
            else None
          else None
      | _ \<Rightarrow> None)"

definition issuance_limit :: "AttestationPolicy option \<Rightarrow> int" where
  "issuance_limit policy =
     (let pl = resolveIssuanceLimit policy in if 0 < pl then pl else defaultIssuanceLimitPerHour)"

definition limiter_key :: "IssueRequest \<Rightarrow> string" where
  "limiter_key req = iq_DevicePk req @ ''|'' @ iq_ConfigID req"

definition check_issue_limit ::
    "rateLimiter \<Rightarrow> time \<Rightarrow> IssueRequest \<Rightarrow> AttestationPolicy option \<Rightarrow> rateLimitDecision \<times> rateLimiter" where
  "check_issue_limit l now req policy =
     (if 0 < issuance_limit policy then Allow l now (limiter_key req) (issuance_limit policy) (1 * Hour)
      else (\<lparr>Allowed = True, RetryAfter = 0\<rparr>, l))"

definition policy_mode :: "AttestationPolicy option \<Rightarrow> string" where
  "policy_mode policy = (case policy of None \<Rightarrow> '''' | Some p \<Rightarrow> pol_Mode p)"

definition issue_audit ::
    "crypto \<Rightarrow> State \<Rightarrow> string \<Rightarrow> IssueRequest \<Rightarrow> AttestationPolicy option \<Rightarrow> int \<Rightarrow> audit_line \<Rightarrow> audit_line" where
  "issue_audit C s event req policy ttlSec extras =
     auditEmit C (st_AuditSalt s) event (iq_DevicePk req) (shortBase64 (iq_ConfigID req)) (policy_mode policy)
       (ab_Platform (iq_Attestation req)) (ab_Token (iq_Attestation req) \<noteq> '''') ttlSec extras"

definition verdict_extras :: "Verdict option \<Rightarrow> audit_line" where
  "verdict_extras v =
     (case v of None \<Rightarrow> []
      | Some v \<Rightarrow> [(''verdictSecurityLevel'', Text (vd_SecurityLevel v)),
          (''verdictHardwareBacked'', Flag (vd_HardwareBacked v)),
          (''verdictTrustedRoot'', Flag (vd_TrustedRoot v)),
          (''verdictVerifiedBootState'', Text (vd_VerifiedBootState v)),
          (''verdictDeviceLocked'', Flag (vd_DeviceLocked v))])"

text \<open>The three endings of a request that reached the policy.\<close>

definition issue_limited ::
    "crypto \<Rightarrow> State \<Rightarrow> IssueRequest \<Rightarrow> AttestationPolicy option \<Rightarrow> duration \<Rightarrow> http_response \<times> audit_line list" where
  "issue_limited C s req policy retry =
     (rate_limited ''issuance rate limit exceeded for this device + config'' retry,
      [issue_audit C s ''issue.rate_limited'' req policy 0
        [(''retryAfterSec'', Number (retry_seconds retry)), (''limit'', Number (issuance_limit policy))]])"

definition issue_rejected ::
    "crypto \<Rightarrow> State \<Rightarrow> IssueRequest \<Rightarrow> AttestationPolicy option \<Rightarrow> attestationDecision \<Rightarrow> http_response \<times> audit_line list" where
  "issue_rejected C s req policy decision =
     (let why = ad_rejectReason decision in
      (writeIssueError 401 ''attestation_failed''
         (if why \<noteq> '''' then why else ''this config requires attestation; client sent none''),
       [issue_audit C s ''issue.attestation_rejected'' req policy 0
         ((if why \<noteq> '''' then [(''rejectReason'', Text why)] else []) @ verdict_extras (ad_verdict decision))]))"

definition issue_granted ::
    "world \<Rightarrow> issue_call \<Rightarrow> State \<Rightarrow> IssueRequest \<Rightarrow> ConfigEntry \<Rightarrow> attestationDecision \<Rightarrow> http_response \<times> audit_line list" where
  "issue_granted W ic s req entry decision =
     (let C = wo_crypto W;
          policy = ce_AttestationPolicy entry;
          ttlSec = whole_seconds (ad_ttl decision);
          observed = (if ad_logAttestation decision
            then [issue_audit C s ''issue.attestation_observed'' req policy ttlSec []] else []);
          expiresAt = env_format_time (wo_env W) (time_add (is_grantNow ic) (ad_ttl decision));
          resp = \<lparr>ir_ConfigB64 = EncodeToString (ce_Config entry), ir_ExpiresAt = expiresAt, ir_ReceiptSig = ''''\<rparr>
      in case signReceipt C (is_sign ic) (st_CreatorSigningKey s) (iq_DevicePk req) (iq_RequestNonce req) resp of
        Err e \<Rightarrow> (writeIssueError 500 ''server_error'' (''sign receipt: '' @ e), observed)
      | Ok receiptSig \<Rightarrow>
          (writeJSON 200 (Issue_Body (resp\<lparr>ir_ReceiptSig := receiptSig\<rparr>)),
           observed @ [issue_audit C s ''issue.granted'' req policy ttlSec [(''expiresAt'', Text expiresAt)]]))"

definition handleIssue ::
    "world \<Rightarrow> issue_call \<Rightarrow> Server \<Rightarrow> fsys \<Rightarrow> http_request \<Rightarrow> (http_response \<times> audit_line list) \<times> Server \<times> fsys" where
  "handleIssue W ic sv fs r =
     (let (_, s1, fs1) = ReloadConfigsIfChanged (wo_env W) (wo_json W) (wo_verifiers W) (is_configsDisk ic) (sv_state sv) fs;
          sv1 = sv\<lparr>sv_state := s1\<rparr> in
      case parse_issue (wo_json W) (hr_Body r) of Err e \<Rightarrow> ((e, []), sv1, fs1)
      | Ok req \<Rightarrow>
      (case check_signature (wo_crypto W) req of Some e \<Rightarrow> ((e, []), sv1, fs1)
      | None \<Rightarrow>
      let (refused, cache) = check_replay (sv_replay sv1) (is_replayNow ic) req; sv2 = sv1\<lparr>sv_replay := cache\<rparr> in
      (case refused of Some e \<Rightarrow> ((e, []), sv2, fs1)
      | None \<Rightarrow>
      (case ConfigByID s1 (iq_ConfigID req) of
        None \<Rightarrow> ((writeIssueError 404 ''config_not_found'' ''this issuer does not know about that configId'', []), sv2, fs1)
      | Some entry \<Rightarrow>
      let policy = ce_AttestationPolicy entry; baseTtl = resolveConfigTtl (Some entry) in
      (case android_guard (wo_env W) (sv_challenges sv2) (is_challengeNow ic) req policy of Some e \<Rightarrow> ((e, []), sv2, fs1)
      | None \<Rightarrow>
      let (allowed, limiter) = check_issue_limit (st_issuanceLimiter s1) (is_limiterNow ic) req policy;
          s3 = s1\<lparr>st_issuanceLimiter := limiter\<rparr>; sv3 = sv2\<lparr>sv_state := s3\<rparr> in
      if \<not> Allowed allowed then (issue_limited (wo_crypto W) s3 req policy (RetryAfter allowed), sv3, fs1)
      else (case evaluateAttestationPolicy (wo_env W) policy (iq_Attestation req) (Verifier_Lookup (wo_env W) (wo_verifiers W)) baseTtl of
        Err e \<Rightarrow> ((writeIssueError 500 ''server_error'' (''resolve verifier: '' @ e), []), sv3, fs1)
      | Ok decision \<Rightarrow>
          (if ad_reject decision then issue_rejected (wo_crypto W) s3 req policy decision
           else issue_granted W ic s3 req entry decision, sv3, fs1)))))))"


section \<open>What the handler does\<close>

text \<open>An error answer: a code in the body, and a time to wait exactly with a 429.\<close>

definition error_answer :: "http_response \<Rightarrow> bool" where
  "error_answer resp =
     ((\<exists>e. hs_Body resp = Error_Body e \<and> er_Error e \<noteq> '''' \<and> (er_RetryAfter e \<noteq> 0 \<longleftrightarrow> hs_Status resp = 429)) \<and>
      (case hs_RetryAfter resp of None \<Rightarrow> hs_Status resp \<noteq> 429 | Some n \<Rightarrow> hs_Status resp = 429 \<and> 1 \<le> n))"

lemma error_answer_writeIssueError [simp]: "c \<noteq> 429 \<Longrightarrow> e \<noteq> '''' \<Longrightarrow> error_answer (writeIssueError c e d)"
  by (simp add: error_answer_def writeIssueError_def error_response_def)

lemma error_answer_rate_limited [simp]: "error_answer (rate_limited d t)"
  using rate_limited_retry(2) [of t] by (auto simp: error_answer_def rate_limited_def)

lemma parse_issue_Err: "parse_issue J b = Err e \<Longrightarrow> hs_Status e = 400 \<and> error_answer e"
  by (auto simp: parse_issue_def split: option.splits if_splits)

lemma check_signature_Some: "check_signature C req = Some e \<Longrightarrow> hs_Status e \<in> {400, 401} \<and> error_answer e"
  by (auto simp: check_signature_def split: sum.splits if_splits)

lemma check_signature_None: "check_signature C req = None \<longleftrightarrow> verifyIssueRequestSignature C req = Ok True"
  by (auto simp: check_signature_def split: sum.splits if_splits)

lemma check_replay_Some: "check_replay c now req = (Some e, c') \<Longrightarrow> hs_Status e \<in> {400, 409} \<and> error_answer e"
  by (auto simp: check_replay_def split: option.splits if_splits prod.splits)

lemma android_guard_Some: "android_guard E m now req p = Some e \<Longrightarrow> hs_Status e = 401 \<and> error_answer e"
  by (auto simp: android_guard_def split: option.splits if_splits)

lemma issuance_limit_pos: "0 < issuance_limit p"
  by (simp add: issuance_limit_def defaultIssuanceLimitPerHour_def Let_def)

lemma check_issue_limit_Allow:
  "check_issue_limit l now req p = Allow l now (limiter_key req) (issuance_limit p) (1 * Hour)"
  by (simp add: check_issue_limit_def issuance_limit_pos)

lemma line_issue_audit [simp]: "line_event (issue_audit C s ev req p ttl ex) = ev"
  by (simp add: issue_audit_def)

lemma issue_limited_facts:
  "hs_Status (fst (issue_limited C s req p d)) = 429" "''issue.granted'' \<notin> line_event ` set (snd (issue_limited C s req p d))"
  by (simp_all add: issue_limited_def rate_limited_def)

lemma issue_rejected_facts:
  "hs_Status (fst (issue_rejected C s req p d)) = 401" "''issue.granted'' \<notin> line_event ` set (snd (issue_rejected C s req p d))"
  by (simp_all add: issue_rejected_def Let_def)

text \<open>Either the request was turned away, and no grant is logged, or every check passed.\<close>

lemma handleIssue_cases:
  assumes h: "handleIssue W ic sv fs r = ((resp, log), sv', fs')"
    and re: "ReloadConfigsIfChanged (wo_env W) (wo_json W) (wo_verifiers W) (is_configsDisk ic) (sv_state sv) fs = (err, s1, fs1)"
  obtains
    (refused) l cache where "hs_Status resp \<in> {400, 401, 404, 409, 429, 500}" "error_answer resp" "''issue.granted'' \<notin> line_event ` set log"
      "sv' = sv\<lparr>sv_state := s1\<lparr>st_issuanceLimiter := l\<rparr>, sv_replay := cache\<rparr>" "fs' = fs1"
  | (granted) req cache entry dec l d where "parse_issue (wo_json W) (hr_Body r) = Ok req"
      "verifyIssueRequestSignature (wo_crypto W) req = Ok True"
      "check_replay (sv_replay sv) (is_replayNow ic) req = (None, cache)"
      "ConfigByID s1 (iq_ConfigID req) = Some entry"
      "android_guard (wo_env W) (sv_challenges sv) (is_challengeNow ic) req (ce_AttestationPolicy entry) = None"
      "Allow (st_issuanceLimiter s1) (is_limiterNow ic) (limiter_key req) (issuance_limit (ce_AttestationPolicy entry)) (1 * Hour) = (dec, l)"
      "Allowed dec"
      "evaluateAttestationPolicy (wo_env W) (ce_AttestationPolicy entry) (iq_Attestation req)
         (Verifier_Lookup (wo_env W) (wo_verifiers W)) (resolveConfigTtl (Some entry)) = Ok d"
      "\<not> ad_reject d" "(resp, log) = issue_granted W ic (s1\<lparr>st_issuanceLimiter := l\<rparr>) req entry d"
      "sv' = sv\<lparr>sv_state := s1\<lparr>st_issuanceLimiter := l\<rparr>, sv_replay := cache\<rparr>" "fs' = fs1"
proof -
  note H = h [unfolded handleIssue_def re Let_def prod.case check_issue_limit_Allow]
  let ?L = "st_issuanceLimiter s1"
  show ?thesis
  proof (cases "parse_issue (wo_json W) (hr_Body r)")
    case (Inl e)
    show ?thesis by (rule refused [of "sv_replay sv" ?L]) (use H Inl parse_issue_Err [OF Inl] in auto)
  next
    case p: (Inr req)
    note Hp = H [unfolded p sum.case]
    show ?thesis
    proof (cases "check_signature (wo_crypto W) req")
      case (Some e)
      show ?thesis by (rule refused [of "sv_replay sv" ?L]) (use Hp Some check_signature_Some [OF Some] in auto)
    next
      case sg: None
      obtain rf cache where rp: "check_replay (sv_replay sv) (is_replayNow ic) req = (rf, cache)" by fastforce
      have rp': "check_replay (sv_replay (sv\<lparr>sv_state := s1\<rparr>)) (is_replayNow ic) req = (rf, cache)" using rp by simp
      note Hs = Hp [unfolded sg option.case rp' prod.case]
      show ?thesis
      proof (cases rf)
        case (Some e)
        show ?thesis
          by (rule refused [of cache ?L]) (use Hs Some check_replay_Some [OF rp [unfolded Some]] in auto)
      next
        case rf: None
        note Hr = Hs [unfolded rf option.case]
        show ?thesis
        proof (cases "ConfigByID s1 (iq_ConfigID req)")
          case None
          show ?thesis by (rule refused [of cache ?L]) (use Hr None in auto)
        next
          case en: (Some entry)
          note He = Hr [unfolded en option.case]
          show ?thesis
          proof (cases "android_guard (wo_env W) (sv_challenges sv) (is_challengeNow ic) req (ce_AttestationPolicy entry)")
            case (Some e)
            show ?thesis by (rule refused [of cache ?L]) (use He Some android_guard_Some [OF Some] in auto)
          next
            case ag: None
            then have ag': "android_guard (wo_env W) (sv_challenges (sv\<lparr>sv_state := s1, sv_replay := cache\<rparr>)) (is_challengeNow ic) req
              (ce_AttestationPolicy entry) = None" by simp
            obtain dec l where al: "Allow ?L (is_limiterNow ic) (limiter_key req)
                (issuance_limit (ce_AttestationPolicy entry)) (1 * Hour) = (dec, l)" by fastforce
            note Ha = He [unfolded ag' option.case al prod.case]
            show ?thesis
            proof (cases "Allowed dec")
              case False
              show ?thesis by (rule refused [of cache l]) (use Ha False issue_limited_facts in \<open>auto simp: issue_limited_def rate_limited_retry\<close>)
            next
              case ok: True
              show ?thesis
              proof (cases "evaluateAttestationPolicy (wo_env W) (ce_AttestationPolicy entry) (iq_Attestation req)
                  (Verifier_Lookup (wo_env W) (wo_verifiers W)) (resolveConfigTtl (Some entry))")
                case (Inl e)
                show ?thesis by (rule refused [of cache l]) (use Ha ok Inl in auto)
              next
                case ev: (Inr d)
                note Hd = Ha [unfolded ev sum.case]
                show ?thesis
                proof (cases "ad_reject d")
                  case True
                  show ?thesis by (rule refused [of cache l]) (use Hd ok True in \<open>auto simp: issue_rejected_def Let_def\<close>)
                next
                  case False
                  show ?thesis using Hd ok False sg rp rf
                    by (intro granted [OF p _ _ en ag al ok ev False]) (auto simp: check_signature_None)
                qed
              qed
            qed
          qed
        qed
      qed
    qed
  qed
qed

lemma signReceipt_Ok:
  assumes "ecdsa_correct C priv" "signReceipt C rnd priv pk n resp = Ok receipt"
  obtains sig where "DecodeString receipt = Some sig" "verifyP1363Signature C (sk_Public priv) (issueReceiptSigningInput pk n resp) sig"
proof -
  obtain r s where "ecdsa_Sign C rnd priv (sha256 C (issueReceiptSigningInput pk n resp)) = Some (r, s)"
    using assms(2) by (auto simp: signReceipt_def Let_def split: option.splits)
  from signP1363_verifies [OF assms(1) this] obtain sig where
    "signP1363 C rnd priv (issueReceiptSigningInput pk n resp) = Ok sig"
    "verifyP1363Signature C (sk_Public priv) (issueReceiptSigningInput pk n resp) sig" by blast
  then show ?thesis using assms(2) by (intro that) (auto simp: signReceipt_signP1363 Decode_Encode)
qed

lemma issue_granted_200:
  assumes "(resp, log) = issue_granted W ic s req entry d" "hs_Status resp = 200"
  obtains body where "hs_Body resp = Issue_Body body" "ir_ConfigB64 body = EncodeToString (ce_Config entry)"
    "ir_ExpiresAt body = env_format_time (wo_env W) (time_add (is_grantNow ic) (ad_ttl d))"
    "signReceipt (wo_crypto W) (is_sign ic) (st_CreatorSigningKey s) (iq_DevicePk req) (iq_RequestNonce req)
       (body\<lparr>ir_ReceiptSig := ''''\<rparr>) = Ok (ir_ReceiptSig body)"
    "count_list (map line_event log) ''issue.granted'' = 1"
  using assms by (auto simp: issue_granted_def Let_def split: sum.splits if_splits)


lemma receipt_input_body: "issueReceiptSigningInput pk n (body\<lparr>ir_ReceiptSig := x\<rparr>) = issueReceiptSigningInput pk n body"
  by (simp add: issueReceiptSigningInput_def)

lemma verify_request_Ok:
  assumes "verifyIssueRequestSignature C req = Ok True"
  obtains pk raw where "decodeP256Compressed C (iq_DevicePk req) = Ok pk" "DecodeString (iq_RequestSignature req) = Some raw"
    "verifyP1363Signature C pk (issueRequestSigningInput req) raw"
  using assms by (auto simp: verifyIssueRequestSignature_def split: sum.splits option.splits)


lemma handleIssue_accepts:
  assumes "ReloadConfigsIfChanged (wo_env W) (wo_json W) (wo_verifiers W) (is_configsDisk ic) (sv_state sv) fs = (err, s1, fs1)"
    and "parse_issue (wo_json W) (hr_Body r) = Ok req" "verifyIssueRequestSignature (wo_crypto W) req = Ok True"
    and "check_replay (sv_replay sv) (is_replayNow ic) req = (None, cache)" "ConfigByID s1 (iq_ConfigID req) = Some entry"
    and "android_guard (wo_env W) (sv_challenges sv) (is_challengeNow ic) req (ce_AttestationPolicy entry) = None"
    and "Allow (st_issuanceLimiter s1) (is_limiterNow ic) (limiter_key req) (issuance_limit (ce_AttestationPolicy entry)) (1 * Hour) = (dec, l)"
    and "Allowed dec" "evaluateAttestationPolicy (wo_env W) (ce_AttestationPolicy entry) (iq_Attestation req)
         (Verifier_Lookup (wo_env W) (wo_verifiers W)) (resolveConfigTtl (Some entry)) = Ok d" "\<not> ad_reject d"
  shows "handleIssue W ic sv fs r = (issue_granted W ic (s1\<lparr>st_issuanceLimiter := l\<rparr>) req entry d,
      sv\<lparr>sv_state := s1\<lparr>st_issuanceLimiter := l\<rparr>, sv_replay := cache\<rparr>, fs1)"
  using assms by (simp add: handleIssue_def check_issue_limit_Allow check_signature_None [THEN iffD2] Let_def)

lemma check_replay_fresh:
  assumes "2 \<le> iq_V req \<Longrightarrow> (\<exists>n. DecodeString (iq_RequestNonce req) = Some n \<and> length n = 16) \<and>
      fst (Use c (replay_key req) now (25 * Hour))"
  obtains cache where "check_replay c now req = (None, cache)"
  using assms
  by (cases "2 \<le> iq_V req"; cases "Use c (replay_key req) now (25 * Hour)") (auto simp: check_replay_def)

lemma issue_granted_signs:
  assumes "ecdsa_correct (wo_crypto W) (st_CreatorSigningKey s)" "\<And>h. ecdsa_Sign (wo_crypto W) (is_sign ic) (st_CreatorSigningKey s) h \<noteq> None"
  shows "hs_Status (fst (issue_granted W ic s req entry d)) = 200"
proof -
  let ?body = "\<lparr>ir_ConfigB64 = EncodeToString (ce_Config entry),
    ir_ExpiresAt = env_format_time (wo_env W) (time_add (is_grantNow ic) (ad_ttl d)), ir_ReceiptSig = ''''\<rparr>"
  obtain r' s' where sg: "ecdsa_Sign (wo_crypto W) (is_sign ic) (st_CreatorSigningKey s)
    (sha256 (wo_crypto W) (issueReceiptSigningInput (iq_DevicePk req) (iq_RequestNonce req) ?body)) = Some (r', s')"
    using assms(2) by (metis not_None_eq prod.exhaust)
  from signP1363_verifies [OF assms(1) sg] obtain sig where
    "signP1363 (wo_crypto W) (is_sign ic) (st_CreatorSigningKey s)
      (issueReceiptSigningInput (iq_DevicePk req) (iq_RequestNonce req) ?body) = Ok sig" by blast
  then have "signReceipt (wo_crypto W) (is_sign ic) (st_CreatorSigningKey s) (iq_DevicePk req) (iq_RequestNonce req) ?body
      = Ok (EncodeToString sig)" by (simp only: signReceipt_signP1363 sum.case)
  then show ?thesis by (simp add: issue_granted_def Let_def)
qed


section \<open>A sample request\<close>

definition sample_config :: string where "sample_config = EncodeToString (replicate 16 1)"

definition sample_issue :: IssueRequest where
  "sample_issue = \<lparr>iq_V = 2, iq_DevicePk = sample_device, iq_Attestation = sample_android, iq_ConfigID = sample_config,
     iq_RequestNonce = EncodeToString (replicate 16 3),
     iq_RequestSignature = EncodeToString (replicate 31 0 @ [1] @ replicate 31 0 @ [2])\<rparr>"

definition sample_issue_world :: world where
  "sample_issue_world = (sample_world undefined '''')\<lparr>
     wo_json := (sample_json [])\<lparr>js_unmarshal_issue := (\<lambda>d. Some sample_issue)\<rparr>,
     wo_verifiers := newVerifierRegistryWithRoots sample_aka\<rparr>"

definition sample_issue_call :: issue_call where
  "sample_issue_call = \<lparr>is_configsDisk = quiet_disk True (good_io 3), is_replayNow = 5, is_challengeNow = 5,
     is_limiterNow = 5, is_grantNow = 5, is_sign = []\<rparr>"

definition sample_issue_server :: Server where
  "sample_issue_server = \<lparr>sv_state = (sample_state Map.empty)\<lparr>st_configs :=
       Some [sample_config \<mapsto> sample_entry (Some (strictDeviceAttestationPolicy ''''))]\<rparr>, sv_inFlight = 0,
     sv_challenges = \<lparr>current = [9], expiresAt = 10\<rparr>, sv_replay = newReplayCache\<rparr>"

definition sample_android_arm :: AttestationArm where
  "sample_android_arm = zero_arm\<lparr>arm_Verifier := android_key_attestation,
     arm_RequireHardwareBacked := True, arm_RequireTrustedRoot := True, arm_RequireVerifiedBoot := True,
     arm_AndroidPackageName := defaultAndroidPackageName, arm_AndroidSigningCertSHA256 := defaultAndroidSigningCertSHA256\<rparr>"

lemma sample_issue_reload: "ReloadConfigsIfChanged (wo_env sample_issue_world) (wo_json sample_issue_world) (wo_verifiers sample_issue_world)
    (is_configsDisk sample_issue_call) (sv_state sample_issue_server) fs = (None, sv_state sample_issue_server, fs)"
  by (simp add: ReloadConfigsIfChanged_def sample_issue_server_def sample_state_def Let_def)

lemma sample_issue_parse: "parse_issue (wo_json sample_issue_world) (hr_Body sample_http) = Ok sample_issue"
  by (simp add: parse_issue_def sample_issue_world_def sample_http_def sample_issue_def sample_device_def sample_config_def)

lemma sample_issue_signed: "verifyIssueRequestSignature (wo_crypto sample_issue_world) sample_issue = Ok True"
proof -
  have "decodeP256Compressed sample_crypto sample_device = Ok \<lparr>pk_Curve = P256, pk_X = SetBytes (replicate 32 0), pk_Y = 0\<rparr>"
    by (simp add: decodeP256Compressed_def sample_device_def Decode_Encode sample_crypto_def)
  moreover have "verifyP1363Signature sample_crypto pk m (word_bytes 32 1 @ word_bytes 32 2)" for pk m
    by (simp add: verifyP1363Signature_def sample_crypto_def)
  moreover have "word_bytes 32 1 @ word_bytes 32 2 = replicate 31 0 @ [1] @ replicate 31 0 @ [2]"
    by code_simp
  ultimately show ?thesis
    by (simp add: verifyIssueRequestSignature_def sample_issue_def sample_issue_world_def sample_world_def Decode_Encode)
qed

lemma sample_issue_fresh: "(\<exists>n. DecodeString (iq_RequestNonce sample_issue) = Some n \<and> length n = 16) \<and>
    fst (Use (sv_replay sample_issue_server) (replay_key sample_issue) (is_replayNow sample_issue_call) (25 * Hour))"
  by (simp add: sample_issue_def Decode_Encode Use_def sample_issue_server_def newReplayCache_def Let_def)

lemma sample_issue_entry: "ConfigByID (sv_state sample_issue_server) (iq_ConfigID sample_issue) = Some (sample_entry (Some (strictDeviceAttestationPolicy '''')))"
  by (simp add: ConfigByID_def sample_issue_server_def sample_issue_def)

lemma sample_issue_arm: "armFor (wo_env sample_issue_world) (Some (strictDeviceAttestationPolicy '''')) (ab_Platform (iq_Attestation sample_issue))
    = Some sample_android_arm"
  by (simp add: armFor_def strictDeviceAttestationPolicy_def sample_issue_def sample_android_def sample_android_arm_def
      sample_issue_world_def sample_world_def ToUpper_ANDROID)

lemma sample_issue_guard: "android_guard (wo_env sample_issue_world) (sv_challenges sample_issue_server) (is_challengeNow sample_issue_call)
    sample_issue (ce_AttestationPolicy (sample_entry (Some (strictDeviceAttestationPolicy '''')))) = None"
  using sample_issue_arm
  by (simp add: android_guard_def sample_entry_def Challenge_Valid_def sample_issue_server_def sample_issue_call_def)
    (simp add: sample_issue_def sample_android_def sample_device_def Decode_Encode Before_def)

lemma sample_issue_lookup: "Verifier_Lookup (wo_env sample_issue_world) (wo_verifiers sample_issue_world) android_key_attestation
    = Ok (Some (OtherVerifier sample_aka))"
  by (simp add: Verifier_Lookup_def sample_issue_world_def android_key_attestation_def newVerifierRegistryWithRoots_def)

lemma sample_issue_evaluate: "evaluateAttestationPolicy (wo_env sample_issue_world)
    (ce_AttestationPolicy (sample_entry (Some (strictDeviceAttestationPolicy '''')))) (iq_Attestation sample_issue)
    (Verifier_Lookup (wo_env sample_issue_world) (wo_verifiers sample_issue_world)) ttl = Ok (allow_decision ttl (Some sample_aka_verdict))"
proof -
  have arm: "arm_Verifier sample_android_arm = android_key_attestation" "android_key_attestation \<noteq> ''''"
    by (simp_all add: sample_android_arm_def android_key_attestation_def)
  have run: "run_verifier (Some (OtherVerifier sample_aka)) (Some sample_android_arm) (iq_Attestation sample_issue) = Some sample_aka_verdict"
    using sample_aka_runs sample_android_token by (simp add: run_verifier_def sample_issue_def)
  have att: "verdict_attested (wo_env sample_issue_world) sample_android_arm sample_aka_verdict"
    by (simp add: verdict_attested_iff sample_android_arm_def expectedPackage_def expectedDigest_def defaultAndroidPackageName_def
        defaultAndroidSigningCertSHA256_def EqualFold_def is_ascii_def sample_aka_verdict_facts zero_arm_def)
  have "pol_Mode (strictDeviceAttestationPolicy '''') = AttestationModeStrict" by (simp add: strictDeviceAttestationPolicy_def)
  then show ?thesis
    by (simp add: evaluateAttestationPolicy_def sample_entry_def sample_issue_arm arm sample_issue_lookup run att Let_def)
qed

lemma sample_issue_limit: "int (length (live_bucket Hour (st_issuanceLimiter (sv_state sample_issue_server)) (is_limiterNow sample_issue_call) k))
    < issuance_limit p"
  using issuance_limit_pos [of p]
  by (simp add: live_bucket_def bucket_of_def sample_issue_server_def sample_state_def newRateLimiter_def)

lemma sample_issue_signer: "ecdsa_correct (wo_crypto sample_issue_world) k" "ecdsa_Sign (wo_crypto sample_issue_world) rnd k h \<noteq> None"
  using sample_ecdsa_correct by (simp_all add: sample_issue_world_def sample_world_def sample_crypto_def)

lemma sample_issue_runs:
  obtains resp log sv' where "handleIssue sample_issue_world sample_issue_call sample_issue_server fs sample_http = ((resp, log), sv', fs)"
    "hs_Status resp = 200"
proof -
  let ?W = sample_issue_world and ?p = "ce_AttestationPolicy (sample_entry (Some (strictDeviceAttestationPolicy '''')))"
  obtain cache where c: "check_replay (sv_replay sample_issue_server) (is_replayNow sample_issue_call) sample_issue = (None, cache)"
    using check_replay_fresh sample_issue_fresh by blast
  obtain dec l where al: "Allow (st_issuanceLimiter (sv_state sample_issue_server)) (is_limiterNow sample_issue_call) (limiter_key sample_issue)
      (issuance_limit ?p) (1 * Hour) = (dec, l)" by fastforce
  have "Allowed (fst (Allow (st_issuanceLimiter (sv_state sample_issue_server)) (is_limiterNow sample_issue_call) (limiter_key sample_issue)
      (issuance_limit ?p) Hour))"
    using Allow_allowed [of Hour, OF _ issuance_limit_pos] sample_issue_limit by simp
  with al have ok: "Allowed dec" by simp
  have nr: "\<not> ad_reject (allow_decision ttl (Some sample_aka_verdict))" for ttl by (simp add: allow_decision_def)
  note H = handleIssue_accepts [OF sample_issue_reload sample_issue_parse sample_issue_signed c sample_issue_entry sample_issue_guard al ok
      sample_issue_evaluate nr]
  have "hs_Status (fst (issue_granted ?W sample_issue_call ((sv_state sample_issue_server)\<lparr>st_issuanceLimiter := l\<rparr>) sample_issue
      (sample_entry (Some (strictDeviceAttestationPolicy ''''))) d)) = 200" for d
    by (rule issue_granted_signs) (rule sample_issue_signer)+
  then show ?thesis using H by (metis prod.collapse that)
qed


section \<open>Properties of the issue handler\<close>

text \<open>C2. A configuration is handed out only to a request that passed every check, and the answer is
  authentic: when the handler answers 200, the request parsed, its signature verifies under the
  device key it names, its configuration is registered, the policy of that configuration did not
  reject it; and the body decodes to that configuration, carries the expiry the policy granted, and
  its receipt verifies under the creator's key over this device, nonce, expiry and payload.\<close>

theorem issue_grants_vetted:
  assumes h: "handleIssue W ic sv fs r = ((resp, log), sv', fs')" and ok: "hs_Status resp = 200"
    and re: "ReloadConfigsIfChanged (wo_env W) (wo_json W) (wo_verifiers W) (is_configsDisk ic) (sv_state sv) fs = (err, s1, fs1)"
    and C: "ecdsa_correct (wo_crypto W) (st_CreatorSigningKey s1)"
  shows "\<exists>req pk raw entry d body sig. parse_issue (wo_json W) (hr_Body r) = Ok req \<and>
    decodeP256Compressed (wo_crypto W) (iq_DevicePk req) = Ok pk \<and> DecodeString (iq_RequestSignature req) = Some raw \<and>
    verifyP1363Signature (wo_crypto W) pk (issueRequestSigningInput req) raw \<and>
    ConfigByID s1 (iq_ConfigID req) = Some entry \<and>
    evaluateAttestationPolicy (wo_env W) (ce_AttestationPolicy entry) (iq_Attestation req)
       (Verifier_Lookup (wo_env W) (wo_verifiers W)) (resolveConfigTtl (Some entry)) = Ok d \<and> \<not> ad_reject d \<and>
    hs_Body resp = Issue_Body body \<and> DecodeString (ir_ConfigB64 body) = Some (ce_Config entry) \<and>
    ir_ExpiresAt body = env_format_time (wo_env W) (time_add (is_grantNow ic) (ad_ttl d)) \<and>
    DecodeString (ir_ReceiptSig body) = Some sig \<and>
    verifyP1363Signature (wo_crypto W) (sk_Public (st_CreatorSigningKey s1))
      (issueReceiptSigningInput (iq_DevicePk req) (iq_RequestNonce req) body) sig"
  using h re
proof (cases rule: handleIssue_cases)
  case refused
  then show ?thesis using ok by auto
next
  case (granted req cache entry dec l d)
  obtain body where b: "hs_Body resp = Issue_Body body" "ir_ConfigB64 body = EncodeToString (ce_Config entry)"
    "ir_ExpiresAt body = env_format_time (wo_env W) (time_add (is_grantNow ic) (ad_ttl d))"
    and sg: "signReceipt (wo_crypto W) (is_sign ic) (st_CreatorSigningKey s1) (iq_DevicePk req) (iq_RequestNonce req)
       (body\<lparr>ir_ReceiptSig := ''''\<rparr>) = Ok (ir_ReceiptSig body)"
    using issue_granted_200 [OF granted(10) ok] by auto
  obtain sig where "DecodeString (ir_ReceiptSig body) = Some sig"
    "verifyP1363Signature (wo_crypto W) (sk_Public (st_CreatorSigningKey s1))
      (issueReceiptSigningInput (iq_DevicePk req) (iq_RequestNonce req) body) sig"
    using signReceipt_Ok [OF C sg] unfolding receipt_input_body by blast
  moreover obtain pk raw where "decodeP256Compressed (wo_crypto W) (iq_DevicePk req) = Ok pk"
    "DecodeString (iq_RequestSignature req) = Some raw"
    "verifyP1363Signature (wo_crypto W) pk (issueRequestSigningInput req) raw"
    using verify_request_Ok [OF granted(2)] by blast
  moreover have "DecodeString (ir_ConfigB64 body) = Some (ce_Config entry)" by (simp add: b(2) Decode_Encode)
  ultimately show ?thesis using granted(1,4,8,9) b(1,3) by blast
qed

theorem issue_grants_vetted_witness:
  "\<exists>resp log sv' body sig. handleIssue sample_issue_world sample_issue_call sample_issue_server sample_fs sample_http
      = ((resp, log), sv', sample_fs) \<and> hs_Body resp = Issue_Body body \<and>
    DecodeString (ir_ConfigB64 body) = Some [123, 125] \<and> DecodeString (ir_ReceiptSig body) = Some sig \<and>
    verifyP1363Signature sample_crypto (sk_Public sample_key)
      (issueReceiptSigningInput sample_device (EncodeToString (replicate 16 3)) body) sig"
proof -
  obtain resp log sv' where h: "handleIssue sample_issue_world sample_issue_call sample_issue_server sample_fs sample_http = ((resp, log), sv', sample_fs)"
    "hs_Status resp = 200" by (rule sample_issue_runs)
  obtain req entry body sig where f: "parse_issue (wo_json sample_issue_world) (hr_Body sample_http) = Ok req"
    "ConfigByID (sv_state sample_issue_server) (iq_ConfigID req) = Some entry" "hs_Body resp = Issue_Body body"
    "DecodeString (ir_ConfigB64 body) = Some (ce_Config entry)" "DecodeString (ir_ReceiptSig body) = Some sig"
    "verifyP1363Signature (wo_crypto sample_issue_world) (sk_Public (st_CreatorSigningKey (sv_state sample_issue_server)))
      (issueReceiptSigningInput (iq_DevicePk req) (iq_RequestNonce req) body) sig"
    using issue_grants_vetted [OF h sample_issue_reload sample_issue_signer(1)] by blast
  have "req = sample_issue" using f(1) sample_issue_parse by simp
  with f(2) have "ce_Config entry = [123, 125]" by (auto simp: sample_issue_entry sample_entry_def)
  moreover have "verifyP1363Signature sample_crypto (sk_Public sample_key)
      (issueReceiptSigningInput sample_device (EncodeToString (replicate 16 3)) body) sig"
    using f(6) \<open>req = sample_issue\<close>
    by (simp add: sample_issue_def sample_issue_world_def sample_world_def sample_issue_server_def sample_state_def)
  ultimately show ?thesis using h(1) f(3-5) by auto
qed

text \<open>C20. An honest request is served: when the request parses, its signature verifies, its
  configuration is registered, its nonce (for version 2) is sixteen fresh bytes, it passes the guard and
  the policy, fewer requests than the limit were admitted for this device and configuration within the
  hour, and the signer works, the answer is 200 and exactly one grant is logged.\<close>

theorem honest_issue_served:
  assumes "ReloadConfigsIfChanged (wo_env W) (wo_json W) (wo_verifiers W) (is_configsDisk ic) (sv_state sv) fs = (err, s1, fs1)"
    and "parse_issue (wo_json W) (hr_Body r) = Ok req" "verifyIssueRequestSignature (wo_crypto W) req = Ok True"
    and "2 \<le> iq_V req \<Longrightarrow> (\<exists>n. DecodeString (iq_RequestNonce req) = Some n \<and> length n = 16) \<and>
      fst (Use (sv_replay sv) (replay_key req) (is_replayNow ic) (25 * Hour))"
    and "ConfigByID s1 (iq_ConfigID req) = Some entry"
    and "android_guard (wo_env W) (sv_challenges sv) (is_challengeNow ic) req (ce_AttestationPolicy entry) = None"
    and "int (length (live_bucket Hour (st_issuanceLimiter s1) (is_limiterNow ic) (limiter_key req)))
      < issuance_limit (ce_AttestationPolicy entry)"
    and "evaluateAttestationPolicy (wo_env W) (ce_AttestationPolicy entry) (iq_Attestation req)
         (Verifier_Lookup (wo_env W) (wo_verifiers W)) (resolveConfigTtl (Some entry)) = Ok d" "\<not> ad_reject d"
    and "ecdsa_correct (wo_crypto W) (st_CreatorSigningKey s1)"
    and "\<And>h. ecdsa_Sign (wo_crypto W) (is_sign ic) (st_CreatorSigningKey s1) h \<noteq> None"
  shows "\<exists>resp log sv' fs'. handleIssue W ic sv fs r = ((resp, log), sv', fs') \<and> hs_Status resp = 200 \<and>
    count_list (map line_event log) ''issue.granted'' = 1"
proof -
  obtain cache where c: "check_replay (sv_replay sv) (is_replayNow ic) req = (None, cache)"
    using check_replay_fresh assms(4) by blast
  obtain dec l where al: "Allow (st_issuanceLimiter s1) (is_limiterNow ic) (limiter_key req)
      (issuance_limit (ce_AttestationPolicy entry)) (1 * Hour) = (dec, l)" by fastforce
  have "Allowed (fst (Allow (st_issuanceLimiter s1) (is_limiterNow ic) (limiter_key req)
      (issuance_limit (ce_AttestationPolicy entry)) Hour))"
    using assms(7) Allow_allowed [of Hour, OF _ issuance_limit_pos] by simp
  with al have "Allowed dec" by simp
  note H = handleIssue_accepts [OF assms(1,2,3) c assms(5,6) al this assms(8,9)]
  let ?s = "s1\<lparr>st_issuanceLimiter := l\<rparr>"
  have ok: "hs_Status (fst (issue_granted W ic ?s req entry d)) = 200"
    using assms(10,11) by (intro issue_granted_signs) simp_all
  moreover have "count_list (map line_event (snd (issue_granted W ic ?s req entry d))) ''issue.granted'' = 1"
    using issue_granted_200 [of "fst (issue_granted W ic ?s req entry d)" "snd (issue_granted W ic ?s req entry d)"] ok
    by (metis prod.collapse)
  ultimately show ?thesis using H by (metis prod.collapse)
qed

theorem honest_issue_served_witness:
  "\<exists>resp log sv' fs'. handleIssue sample_issue_world sample_issue_call sample_issue_server sample_fs sample_http
      = ((resp, log), sv', fs') \<and> hs_Status resp = 200 \<and> count_list (map line_event log) ''issue.granted'' = 1"
  by (rule honest_issue_served [OF sample_issue_reload sample_issue_parse sample_issue_signed sample_issue_fresh sample_issue_entry
        sample_issue_guard sample_issue_limit sample_issue_evaluate _ sample_issue_signer]) (simp add: allow_decision_def)

lemma strict_android_granted:
  assumes h: "handleIssue W ic sv fs r = ((resp, log), sv', fs')" and ok: "hs_Status resp = 200"
    and re: "ReloadConfigsIfChanged (wo_env W) (wo_json W) (wo_verifiers W) (is_configsDisk ic) (sv_state sv) fs = (err, s1, fs1)"
    and p: "parse_issue (wo_json W) (hr_Body r) = Ok req"
    and en: "ConfigByID s1 (iq_ConfigID req) = Some entry" "ce_AttestationPolicy entry = Some pol"
    and strict: "pol_Mode pol = AttestationModeStrict"
    and arm: "armFor (wo_env W) (Some pol) (ab_Platform (iq_Attestation req)) = Some arm"
    and ver: "arm_Verifier arm = android_key_attestation"
      "Verifier_Lookup (wo_env W) (wo_verifiers W) android_key_attestation = Ok (Some (OtherVerifier aka))"
  shows "iq_V req = 2 \<and> ab_BoundDevicePk (iq_Attestation req) = iq_DevicePk req \<and> ab_Proof (iq_Attestation req) \<noteq> '''' \<and>
    Challenge_Valid (sv_challenges sv) (ab_Nonce (iq_Attestation req)) (is_challengeNow ic) \<and>
    (\<exists>v. aka (iq_Attestation req) = Ok v \<and> vd_Verified v \<and>
      (arm_RequireHardwareBacked arm \<longrightarrow> vd_HardwareBacked v) \<and> (arm_RequireTrustedRoot arm \<longrightarrow> vd_TrustedRoot v) \<and>
      (arm_RequireVerifiedBoot arm \<longrightarrow> vd_VerifiedBootState v = ''verified'' \<and> vd_DeviceLocked v) \<and>
      expectedPackage arm \<in> set (vd_AppPackageNames v))"
  using h re
proof (cases rule: handleIssue_cases)
  case refused
  then show ?thesis using ok by auto
next
  case (granted req' cache entry' dec l d)
  then have e: "req' = req" "entry' = entry" using p en by auto
  have "iq_V req = 1 \<or> iq_V req = 2" using p by (auto simp: parse_issue_def split: option.splits if_splits)
  moreover have "2 \<le> iq_V req \<and> ab_BoundDevicePk (iq_Attestation req) = iq_DevicePk req \<and> ab_Proof (iq_Attestation req) \<noteq> '''' \<and>
      Challenge_Valid (sv_challenges sv) (ab_Nonce (iq_Attestation req)) (is_challengeNow ic)"
    using granted(5) arm ver(1) strict by (auto simp: e en(2) android_guard_def split: if_splits)
  moreover have "arm_Verifier arm \<noteq> ''''" "Verifier_Lookup (wo_env W) (wo_verifiers W) (arm_Verifier arm) = Ok (Some (OtherVerifier aka))"
    using ver by (simp_all add: android_key_attestation_def)
  note strict_accepted [OF granted(8) [unfolded e en(2)] strict granted(9) arm this]
  ultimately show ?thesis using ver(1) by auto
qed




end
