(* ===== verification/Routes.thy ===== *)
theory Routes
  imports Issue
begin

text \<open>
  The rest of \<^verbatim>\<open>server.go\<close>: the small handlers, the gate on concurrent requests and the router; and
  the server as a whole, as a run of requests and sweeps over one state.
\<close>

section \<open>The small handlers\<close>

definition handleAttestationChallenge :: "env \<Rightarrow> time \<Rightarrow> random_read \<Rightarrow> Server \<Rightarrow> http_response \<times> Server" where
  "handleAttestationChallenge E now rnd sv =
     (let (issued, m) = Current (sv_challenges sv) now rnd; sv' = sv\<lparr>sv_challenges := m\<rparr> in
      case issued of
        None \<Rightarrow> (writeJSON 500 (Fields_Body [(''error'', ''server_error'')]), sv')
      | Some (challenge, until) \<Rightarrow>
          (writeJSON 200 (Challenge_Body \<lparr>ac_Challenge = EncodeToString challenge, ac_ExpiresAt = env_format_time E until\<rparr>), sv'))"

text \<open>\<open>Err\<close> is a panic in the handler, which \<^verbatim>\<open>net/http\<close> turns into a closed connection.\<close>

definition handleCreatorPubKey :: "Server \<Rightarrow> string + http_response" where
  "handleCreatorPubKey sv =
     (case CreatorPubKeyCompressedB64 (st_CreatorSigningKey (sv_state sv)) of
        Err panic \<Rightarrow> Err panic
      | Ok pk \<Rightarrow> Ok (writeJSON 200 (Fields_Body [(''creatorPubkey'', pk)])))"

definition handleHealth :: "http_response" where
  "handleHealth = \<lparr>hs_Status = 200, hs_RetryAfter = None, hs_Body = Plain_Body (''ok'' @ [char_of (10 :: nat)])\<rparr>"


section \<open>The gate\<close>

definition maxInFlightRequests :: nat where "maxInFlightRequests = 256"

datatype admission = Exempt | Slot | Busy http_response

text \<open>The channel of the source is a semaphore: a send takes a slot, a receive gives it back.\<close>

definition limitInFlight :: "Server \<Rightarrow> string \<Rightarrow> admission \<times> Server" where
  "limitInFlight sv path =
     (if path = ''/healthz'' then (Exempt, sv)
      else if sv_inFlight sv < maxInFlightRequests then (Slot, sv\<lparr>sv_inFlight := Suc (sv_inFlight sv)\<rparr>)
      else (Busy \<lparr>hs_Status = 503, hs_RetryAfter = Some 1,
          hs_Body = Fields_Body [(''error'', ''server_busy''), (''detail'', ''server is at capacity; retry shortly'')]\<rparr>, sv))"

fun leaveInFlight :: "admission \<Rightarrow> Server \<Rightarrow> Server" where
  "leaveInFlight Slot sv = sv\<lparr>sv_inFlight := sv_inFlight sv - 1\<rparr>"
| "leaveInFlight Exempt sv = sv"
| "leaveInFlight (Busy r) sv = sv"


section \<open>The router\<close>

datatype route = R_Issue | R_Challenge | R_Redeem | R_CreatorPubKey | R_Health | R_NotFound | R_MethodNotAllowed

text \<open>A \<open>GET\<close> pattern of the standard multiplexer also serves \<open>HEAD\<close>.\<close>

definition get_method :: "string \<Rightarrow> bool" where
  "get_method m = (m = ''GET'' \<or> m = ''HEAD'')"

definition Router :: "string \<Rightarrow> string \<Rightarrow> route" where
  "Router method path =
     (if path = ''/v1/issue'' then (if method = ''POST'' then R_Issue else R_MethodNotAllowed)
      else if path = ''/v1/attestation-challenge'' then (if get_method method then R_Challenge else R_MethodNotAllowed)
      else if path = ''/v1/redeem'' then (if method = ''POST'' then R_Redeem else R_MethodNotAllowed)
      else if path = ''/v1/creator-pubkey'' then (if get_method method then R_CreatorPubKey else R_MethodNotAllowed)
      else if path = ''/healthz'' then (if get_method method then R_Health else R_MethodNotAllowed)
      else R_NotFound)"


section \<open>A run of the server\<close>

text \<open>
  A request whose handler runs to its end, or a sweep of the limiters (\<^verbatim>\<open>main.go\<close> runs one every
  ten minutes with a window of an hour).
\<close>

datatype server_event =
    Ev_Issue issue_call http_request
  | Ev_Challenge time random_read
  | Ev_Redeem redeem_call http_request
  | Ev_Sweep time

fun server_step :: "world \<Rightarrow> Server \<times> fsys \<Rightarrow> server_event \<Rightarrow> http_response option \<times> Server \<times> fsys" where
  "server_step W (sv, fs) (Ev_Issue ic r) =
     (let ((resp, log), sv', fs') = handleIssue W ic sv fs r in (Some resp, sv', fs'))"
| "server_step W (sv, fs) (Ev_Challenge now rnd) =
     (let (resp, sv') = handleAttestationChallenge (wo_env W) now rnd sv in (Some resp, sv', fs))"
| "server_step W (sv, fs) (Ev_Redeem rc r) =
     (let (resp, s', fs') = handleRedeem W rc (sv_state sv) fs r in (Some resp, sv\<lparr>sv_state := s'\<rparr>, fs'))"
| "server_step W (sv, fs) (Ev_Sweep now) = (None, sv\<lparr>sv_state := SweepRateLimiters (sv_state sv) now (1 * Hour)\<rparr>, fs)"

fun server_run :: "world \<Rightarrow> Server \<times> fsys \<Rightarrow> server_event list \<Rightarrow> (server_event \<times> http_response option) list" where
  "server_run W w [] = []"
| "server_run W w (e # es) = (let (resp, w') = server_step W w e in (e, resp) # server_run W w' es)"


section \<open>The gate keeps its bound\<close>

text \<open>
  The requests in progress, by a name of ours, each with what it was let in on. The handlers in
  progress may change the rest of the server at any moment, but only the gate touches its channel.
\<close>

inductive serving :: "Server \<Rightarrow> (nat \<rightharpoonup> admission) \<Rightarrow> bool" where
  start: "serving (NewServer s) Map.empty"
| refuse: "serving sv act \<Longrightarrow> limitInFlight sv path = (Busy r, sv') \<Longrightarrow> serving sv' act"
| admit: "serving sv act \<Longrightarrow> limitInFlight sv path = (a, sv') \<Longrightarrow> a = Exempt \<or> a = Slot \<Longrightarrow> act i = None \<Longrightarrow>
    serving sv' (act(i \<mapsto> a))"
| finish: "serving sv act \<Longrightarrow> act i = Some a \<Longrightarrow> serving (leaveInFlight a sv) (act(i := None))"
| handlers: "serving sv act \<Longrightarrow> sv_inFlight sv' = sv_inFlight sv \<Longrightarrow> serving sv' act"

definition slots :: "(nat \<rightharpoonup> admission) \<Rightarrow> nat set" where
  "slots act = {i. act i = Some Slot}"

lemma slots_simps [simp]:
  "slots Map.empty = {}" "slots (act(i \<mapsto> Slot)) = insert i (slots act)"
  "act i \<noteq> Some Slot \<Longrightarrow> slots (act(i := None)) = slots act"
  "act i = Some Slot \<Longrightarrow> slots (act(i := None)) = slots act - {i}"
  "act i = None \<Longrightarrow> slots (act(i \<mapsto> Exempt)) = slots act"
  by (auto simp: slots_def)

lemma in_flight_inv: "serving sv act \<Longrightarrow> finite (slots act) \<and> card (slots act) = sv_inFlight sv \<and> sv_inFlight sv \<le> maxInFlightRequests"
proof (induction rule: serving.induct)
  case (start s)
  then show ?case by (simp add: NewServer_def)
next
  case (refuse sv act path r sv')
  then show ?case by (auto simp: limitInFlight_def split: if_splits)
next
  case (admit sv act path a sv' i)
  moreover have "i \<notin> slots act" using admit by (simp add: slots_def)
  ultimately show ?case by (cases "path = ''/healthz''") (auto simp: limitInFlight_def simp del: fun_upd_apply split: if_split_asm)
next
  case (finish sv act i a)
  show ?case
  proof (cases "a = Slot")
    case True
    then have "i \<in> slots act" using finish by (simp add: slots_def)
    then show ?thesis using finish True by (simp add: card_Diff_singleton le_diff_conv del: fun_upd_apply)
  next
    case False
    then have "leaveInFlight a sv = sv" by (cases a) auto
    then show ?thesis using finish False by (simp del: fun_upd_apply)
  qed
next
  case (handlers sv act sv')
  then show ?case by simp
qed

lemma limitInFlight_busy_iff:
  "(\<exists>r. fst (limitInFlight sv path) = Busy r) \<longleftrightarrow> path \<noteq> ''/healthz'' \<and> maxInFlightRequests \<le> sv_inFlight sv"
  by (auto simp: limitInFlight_def)

text \<open>The handlers leave the channel alone, which is what \<open>handlers\<close> relies on.\<close>

lemma server_step_inFlight: "server_step W (sv, fs) e = (resp, sv', fs') \<Longrightarrow> sv_inFlight sv' = sv_inFlight sv"
proof (cases e)
  case (Ev_Issue ic r)
  assume a: "server_step W (sv, fs) e = (resp, sv', fs')"
  obtain rp log where h: "handleIssue W ic sv fs r = ((rp, log), sv', fs')"
    using a Ev_Issue by (auto split: prod.splits)
  obtain err s1 fs1 where "ReloadConfigsIfChanged (wo_env W) (wo_json W) (wo_verifiers W) (is_configsDisk ic) (sv_state sv) fs = (err, s1, fs1)"
    by (metis prod_cases3)
  with h show ?thesis by (cases rule: handleIssue_cases) auto
qed (auto simp: handleAttestationChallenge_def Let_def split: prod.splits option.splits)

text \<open>C30. The gate is exact: in every situation the server can reach, the slots taken are those of the
  requests in progress, never more than 256; a request is turned away only when 256 others hold a slot,
  the health check never is; and as soon as any of those requests ends, the next one is let in.\<close>

theorem in_flight_gate:
  assumes "serving sv act"
  shows "card (slots act) = sv_inFlight sv \<and> sv_inFlight sv \<le> 256 \<and>
    (\<forall>path. (\<exists>r. fst (limitInFlight sv path) = Busy r) \<longleftrightarrow> path \<noteq> ''/healthz'' \<and> card (slots act) = 256) \<and>
    (\<forall>i path. act i = Some Slot \<longrightarrow> (\<forall>r. fst (limitInFlight (leaveInFlight Slot sv) path) \<noteq> Busy r))"
proof -
  note I = in_flight_inv [OF assms, unfolded maxInFlightRequests_def]
  have "(\<exists>r. fst (limitInFlight sv path) = Busy r) \<longleftrightarrow> path \<noteq> ''/healthz'' \<and> card (slots act) = 256" for path
    using I by (auto simp: limitInFlight_busy_iff maxInFlightRequests_def)
  moreover have "fst (limitInFlight (leaveInFlight Slot sv) path) \<noteq> Busy r" if "act i = Some Slot" for i path r
  proof -
    have "i \<in> slots act" using that by (simp add: slots_def)
    then have "0 < sv_inFlight sv" using I by (metis card_gt_0_iff empty_iff)
    moreover have "sv_inFlight sv \<le> 256" using I by blast
    ultimately have "sv_inFlight (leaveInFlight Slot sv) < 256" by simp
    then show ?thesis
      using limitInFlight_busy_iff [of "leaveInFlight Slot sv" path] by (auto simp: maxInFlightRequests_def)
  qed
  ultimately show ?thesis using I by blast
qed

theorem in_flight_gate_witness:
  "\<exists>sv. serving sv [7 \<mapsto> Slot] \<and> card (slots [7 \<mapsto> Slot]) = sv_inFlight sv"
proof -
  let ?sv = "NewServer (sample_state Map.empty)"
  have "serving (?sv\<lparr>sv_inFlight := Suc (sv_inFlight ?sv)\<rparr>) (Map.empty(7 \<mapsto> Slot))"
    by (rule serving.admit [OF serving.start, of _ "''/v1/issue''" Slot]) (simp_all add: limitInFlight_def NewServer_def maxInFlightRequests_def)
  then show ?thesis using in_flight_gate [THEN conjunct1] by (intro exI conjI)
qed


section \<open>What the tables of the server see of a run\<close>

text \<open>The use of the replay cache that an issue request makes.\<close>

definition replay_attempt :: "world \<Rightarrow> http_request \<Rightarrow> string option" where
  "replay_attempt W r =
     (case parse_issue (wo_json W) (hr_Body r) of Err e \<Rightarrow> None
      | Ok req \<Rightarrow>
          if verifyIssueRequestSignature (wo_crypto W) req = Ok True \<and> 2 \<le> iq_V req \<and>
             (\<exists>n. DecodeString (iq_RequestNonce req) = Some n \<and> length n = 16)
          then Some (replay_key req) else None)"

lemma handleIssue_replay:
  assumes "handleIssue W ic sv fs r = ((resp, log), sv', fs')"
  shows "sv_replay sv' = (case replay_attempt W r of None \<Rightarrow> sv_replay sv
      | Some k \<Rightarrow> snd (Use (sv_replay sv) k (is_replayNow ic) (25 * Hour)))"
proof -
  obtain err s1 fs1 where re: "ReloadConfigsIfChanged (wo_env W) (wo_json W) (wo_verifiers W) (is_configsDisk ic) (sv_state sv) fs = (err, s1, fs1)"
    by (metis prod_cases3)
  show ?thesis
  proof (cases "parse_issue (wo_json W) (hr_Body r)")
    case (Inl e)
    then show ?thesis using assms re by (auto simp: handleIssue_def replay_attempt_def)
  next
    case p: (Inr req)
    show ?thesis
    proof (cases "verifyIssueRequestSignature (wo_crypto W) req = Ok True")
      case False
      then obtain e where "check_signature (wo_crypto W) req = Some e" using check_signature_None by blast
      then show ?thesis using assms re p False by (auto simp: handleIssue_def replay_attempt_def)
    next
      case True
      then have sg: "check_signature (wo_crypto W) req = None" by (simp add: check_signature_None)
      obtain rf cache where rp: "check_replay (sv_replay sv) (is_replayNow ic) req = (rf, cache)" by fastforce
      have "sv_replay sv' = cache"
        using assms by (auto simp: handleIssue_def re p sg rp Let_def split: option.splits sum.splits if_splits prod.splits)
      then show ?thesis
        using rp by (auto simp: replay_attempt_def p True check_replay_def split: if_splits option.splits prod.splits)
    qed
  qed
qed

lemma handleIssue_200_fresh:
  assumes "handleIssue W ic sv fs r = ((resp, log), sv', fs')" "hs_Status resp = 200"
    and "parse_issue (wo_json W) (hr_Body r) = Ok req" "2 \<le> iq_V req"
  shows "replay_attempt W r = Some (replay_key req) \<and> fst (Use (sv_replay sv) (replay_key req) (is_replayNow ic) (25 * Hour))"
proof -
  obtain err s1 fs1 where re: "ReloadConfigsIfChanged (wo_env W) (wo_json W) (wo_verifiers W) (is_configsDisk ic) (sv_state sv) fs = (err, s1, fs1)"
    by (metis prod_cases3)
  show ?thesis
    using assms(1) re
  proof (cases rule: handleIssue_cases)
    case refused
    then show ?thesis using assms(2) by auto
  next
    case (granted req' cache entry dec l d)
    then show ?thesis using assms(3,4)
      by (auto simp: replay_attempt_def check_replay_def split: option.splits if_splits prod.splits)
  qed
qed

text \<open>The uses of the replay cache along a run, and the version 2 configurations handed out.\<close>

fun replay_trace :: "world \<Rightarrow> server_event list \<Rightarrow> string window_event list" where
  "replay_trace W [] = []"
| "replay_trace W (Ev_Issue ic r # es) =
     (case replay_attempt W r of None \<Rightarrow> [] | Some k \<Rightarrow> [Admit (is_replayNow ic) k]) @ replay_trace W es"
| "replay_trace W (e # es) = replay_trace W es"

fun v2_grants :: "world \<Rightarrow> (server_event \<times> http_response option) list \<Rightarrow> (string \<times> time) list" where
  "v2_grants W [] = []"
| "v2_grants W ((Ev_Issue ic r, Some resp) # es) =
     (case parse_issue (wo_json W) (hr_Body r) of Err e \<Rightarrow> []
      | Ok req \<Rightarrow> if hs_Status resp = 200 \<and> iq_V req = 2 then [(replay_key req, is_replayNow ic)] else []) @ v2_grants W es"
| "v2_grants W (e # es) = v2_grants W es"

lemma window_count_cons: "window_count w (p # G) k t = window_count w [p] k t + window_count w G k t"
  using window_count_appends [of w "[p]" G k t] by simp

lemma server_step_replay: "server_step W (sv, fs) e = (resp, sv', fs') \<Longrightarrow> (\<And>ic r. e \<noteq> Ev_Issue ic r) \<Longrightarrow> sv_replay sv' = sv_replay sv"
  by (cases e) (auto simp: handleAttestationChallenge_def Let_def split: prod.splits option.splits)

lemma v2_grants_le:
  "window_count w (v2_grants W (server_run W (sv, fs) es)) k t
    \<le> window_count w (window_run (use_step replayLifetime) (\<lambda>c t. c) (sv_replay sv) (replay_trace W es)) k t"
proof (induction es arbitrary: sv fs)
  case Nil
  then show ?case by simp
next
  case (Cons e es)
  obtain resp sv' fs' where st: "server_step W (sv, fs) e = (resp, sv', fs')" by (metis prod_cases3)
  show ?case
  proof (cases "\<exists>ic r. e = Ev_Issue ic r")
    case False
    then have "v2_grants W (server_run W (sv, fs) (e # es)) = v2_grants W (server_run W (sv', fs') es)"
      "replay_trace W (e # es) = replay_trace W es" "sv_replay sv' = sv_replay sv"
      using st server_step_replay [OF st] by (cases e; simp)+
    then show ?thesis using Cons.IH [of sv' fs'] by simp
  next
    case True
    then obtain ic r where e: "e = Ev_Issue ic r" by blast
    obtain rp log where h: "handleIssue W ic sv fs r = ((rp, log), sv', fs')" and resp: "resp = Some rp"
      using st e by (auto split: prod.splits)
    let ?now = "is_replayNow ic"
    let ?G = "case parse_issue (wo_json W) (hr_Body r) of Err e \<Rightarrow> []
      | Ok req \<Rightarrow> if hs_Status rp = 200 \<and> iq_V req = 2 then [(replay_key req, ?now)] else []"
    have run: "v2_grants W (server_run W (sv, fs) (e # es)) = ?G @ v2_grants W (server_run W (sv', fs') es)"
      using st e resp by simp
    have G: "?G = [] \<or> (\<exists>key. ?G = [(key, ?now)] \<and> replay_attempt W r = Some key \<and> fst (Use (sv_replay sv) key ?now (25 * Hour)))"
      using handleIssue_200_fresh [OF h] by (auto split: sum.splits)
    have R: "sv_replay sv' = (case replay_attempt W r of None \<Rightarrow> sv_replay sv
        | Some k \<Rightarrow> snd (Use (sv_replay sv) k ?now (25 * Hour)))" by (rule handleIssue_replay [OF h])
    show ?thesis
    proof (cases "replay_attempt W r")
      case None
      then have "?G = []" using G by auto
      then show ?thesis using run Cons.IH [of sv' fs'] R None e by simp
    next
      case (Some key)
      obtain fresh c where u: "Use (sv_replay sv) key ?now (25 * Hour) = (fresh, c)" by fastforce
      have c: "sv_replay sv' = c" using R Some u by simp
      have "window_run (use_step replayLifetime) (\<lambda>c t. c) (sv_replay sv) (replay_trace W (e # es))
          = (if fresh then [(key, ?now)] else []) @ window_run (use_step replayLifetime) (\<lambda>c t. c) c (replay_trace W es)"
        using Some e u by (simp add: use_step_def replayLifetime_def)
      moreover have "?G = [] \<or> ?G = [(key, ?now)] \<and> fresh" using G Some u by auto
      moreover have "window_count w (v2_grants W (server_run W (sv', fs') es)) k t
          \<le> window_count w (window_run (use_step replayLifetime) (\<lambda>c t. c) c (replay_trace W es)) k t"
        using Cons.IH [of sv' fs'] by (simp add: c)
      ultimately show ?thesis unfolding run by (elim disjE) (simp_all add: window_count_def)
    qed
  qed
qed

text \<open>C7. A signed request is answered once: along any run of a fresh server, with requests of every
  kind and sweeps in any order and the replay clock not going back, no 25 hours hold two configurations
  handed out for one version 2 request, that is for one device key, configuration and nonce.\<close>

theorem no_replayed_grant:
  assumes "sorted (map event_time (replay_trace W es))"
  shows "window_count (sint replayLifetime) (v2_grants W (server_run W (NewServer s, fs) es)) key t \<le> 1"
proof -
  have "sv_replay (NewServer s) = newReplayCache" by (simp add: NewServer_def)
  then show ?thesis
    using order_trans [OF v2_grants_le [of "sint replayLifetime" W "NewServer s" fs es key t]] replay.run_window_bound [OF assms, of key t]
    by simp
qed

theorem no_replayed_grant_witness:
  "window_count (sint replayLifetime) (v2_grants sample_issue_world (server_run sample_issue_world
     (NewServer (sv_state sample_issue_server), sample_fs)
     [Ev_Issue sample_issue_call sample_http, Ev_Sweep 6, Ev_Issue sample_issue_call sample_http]))
     (replay_key sample_issue) 9 \<le> 1"
  by (rule no_replayed_grant) (simp split: option.split)

end
