(* ===== verification/Canonical_Json.thy ===== *)
theory Canonical_Json
  imports State_Types Utf8
begin

text \<open>
  \<^verbatim>\<open>canonical_json.go\<close>: the one serialization of a value that is signed and authenticated. The
  values are the dynamic types the writer distinguishes; a Go map is an association list in the
  order the runtime happens to enumerate it. A reader of such texts, defined here as the
  specification, recovers the value, so that a text stands for one value only.
\<close>

section \<open>Values\<close>

datatype any =
    Nil_any
  | Bool_any bool
  | String_any string
  | Number_any string
  | Int_any int
  | Int64_any int
  | Float_any
  | Slice_any "any list"
  | Map_any "(string \<times> any) list"
  | Other_any


section \<open>Strings\<close>

definition quote_char :: char where "quote_char = CHR 0x22"
definition backslash :: char where "backslash = CHR 0x5C"

definition escape_rune :: "nat \<Rightarrow> string" where
  "escape_rune r =
     (if r = 34 then [backslash, quote_char]
      else if r = 92 then [backslash, backslash]
      else if r = 8 then backslash # ''b''
      else if r = 12 then backslash # ''f''
      else if r = 10 then backslash # ''n''
      else if r = 13 then backslash # ''r''
      else if r = 9 then backslash # ''t''
      else if r < 32 then backslash # ''u00'' @ [hex_digit (r div 16), hex_digit (r mod 16)]
      else encode_rune r)"

definition writeCanonicalString :: "string \<Rightarrow> string" where
  "writeCanonicalString s = quote_char # concat (map escape_rune (runes s)) @ [quote_char]"


section \<open>The writer\<close>

text \<open>The first error of a sequence of writes, or all the texts.\<close>

fun collect :: "('e + 'a) list \<Rightarrow> 'e + 'a list" where
  "collect [] = Ok []"
| "collect (Err e # rs) = Err e"
| "collect (Ok t # rs) = (case collect rs of Err e \<Rightarrow> Err e | Ok ts \<Rightarrow> Ok (t # ts))"

lemma size_Map_any: "map_of ms k = Some v \<Longrightarrow> size v < size (Map_any ms)"
  by (induction ms) (auto split: if_splits)

function writeCanonical :: "any \<Rightarrow> string + string" where
  "writeCanonical Nil_any = Ok ''null''"
| "writeCanonical (Bool_any x) = Ok (if x then ''true'' else ''false'')"
| "writeCanonical (String_any x) = Ok (writeCanonicalString x)"
| "writeCanonical (Number_any x) = Ok x"
| "writeCanonical (Int_any x) = Ok (Itoa x)"
| "writeCanonical (Int64_any x) = Ok (Itoa x)"
| "writeCanonical Float_any = Err ''canonical JSON: float64 not supported''"
| "writeCanonical (Slice_any x) =
     (case collect (map writeCanonical x) of Err e \<Rightarrow> Err e | Ok ts \<Rightarrow> Ok (''['' @ Join '','' ts @ '']''))"
| "writeCanonical (Map_any x) =
     (let keys = sort (map fst x) in
      case collect (map (\<lambda>k. case map_of x k of None \<Rightarrow> Ok (writeCanonicalString k @ '':null'')
          | Some v \<Rightarrow> (case writeCanonical v of Err e \<Rightarrow> Err e | Ok t \<Rightarrow> Ok (writeCanonicalString k @ '':'' @ t))) keys)
      of Err e \<Rightarrow> Err e | Ok ts \<Rightarrow> Ok (''{'' @ Join '','' ts @ ''}''))"
| "writeCanonical Other_any = Err ''canonical JSON: unsupported type''"
  by pat_completeness auto
termination
  by (relation "measure size") (auto simp: less_Suc_eq_le size_list_estimation' dest!: size_Map_any)

definition canonicalJSON :: "any \<Rightarrow> string + bytes" where
  "canonicalJSON v = (case writeCanonical v of Err e \<Rightarrow> Err e | Ok t \<Rightarrow> Ok (bytes_of t))"

text \<open>
  \<open>canonicalJSONOfStruct\<close>: the struct is marshalled and decoded again with \<open>UseNumber\<close>, which
  is the function \<open>generic\<close> of the struct's type; \<open>None\<close> is an error of either.
\<close>

definition canonicalJSONOfStruct :: "('a \<Rightarrow> any option) \<Rightarrow> 'a \<Rightarrow> string + bytes" where
  "canonicalJSONOfStruct generic v =
     (case generic v of None \<Rightarrow> Err ''marshal struct'' | Some g \<Rightarrow> canonicalJSON g)"

section \<open>A reader\<close>

fun unhex :: "char \<Rightarrow> nat option" where
  "unhex c =
     (let n = code c in
      if 48 \<le> n \<and> n \<le> 57 then Some (n - 48) else if 97 \<le> n \<and> n \<le> 102 then Some (n - 87) else None)"

definition unescape :: "char \<Rightarrow> char option" where
  "unescape c =
     (if c = quote_char then Some quote_char else if c = backslash then Some backslash
      else if c = CHR ''b'' then Some (char_of (8 :: nat)) else if c = CHR ''f'' then Some (char_of (12 :: nat))
      else if c = CHR ''n'' then Some (char_of (10 :: nat)) else if c = CHR ''r'' then Some (char_of (13 :: nat))
      else if c = CHR ''t'' then Some (char_of (9 :: nat)) else None)"

text \<open>The body of a string up to its closing quote, and what follows.\<close>

definition cons_result :: "string \<Rightarrow> (string \<times> string) option \<Rightarrow> (string \<times> string) option" where
  "cons_result p r = map_option (\<lambda>(t, q). (p @ t, q)) r"

fun parse_chars :: "string \<Rightarrow> (string \<times> string) option" where
  "parse_chars [] = None"
| "parse_chars (c # s) =
     (if c = quote_char then Some ([], s)
      else if c \<noteq> backslash then cons_result [c] (parse_chars s)
      else case s of [] \<Rightarrow> None
        | e # s' \<Rightarrow>
            if e \<noteq> CHR ''u'' then (case unescape e of None \<Rightarrow> None | Some x \<Rightarrow> cons_result [x] (parse_chars s'))
            else (case s' of z # z' # h # l # s'' \<Rightarrow>
                (case (unhex h, unhex l) of (Some a, Some b) \<Rightarrow>
                   if z = CHR ''0'' \<and> z' = CHR ''0'' then cons_result [char_of (16 * a + b)] (parse_chars s'') else None
                 | _ \<Rightarrow> None)
              | _ \<Rightarrow> None))"

lemma cons_result_append: "cons_result (a @ b) r = cons_result a (cons_result b r)"
  by (cases r) (auto simp: cons_result_def)

lemma parse_plain: "list_all (\<lambda>c. c \<noteq> quote_char \<and> c \<noteq> backslash) p \<Longrightarrow> parse_chars (p @ s) = cons_result p (parse_chars s)"
proof (induction p)
  case Nil
  then show ?case by (simp add: cons_result_def option.map_ident case_prod_unfold)
next
  case (Cons c p)
  then show ?case using cons_result_append [of "[c]" p] by simp
qed

lemma special_chars: "char_of (34 :: nat) = CHR 0x22" "char_of (92 :: nat) = CHR 0x5C"
  by code_simp+

lemma char_of_special: "n < 256 \<Longrightarrow> char_of (n :: nat) = quote_char \<longleftrightarrow> n = 34" "n < 256 \<Longrightarrow> char_of (n :: nat) = backslash \<longleftrightarrow> n = 92"
proof -
  have "code CHR 0x22 = 34" "code CHR 0x5C = 92"
    using code_char_of [of 34] code_char_of [of 92] by (simp_all add: special_chars)
  moreover have "code (char_of n) = n" if "n < 256" using that by simp
  ultimately show "n < 256 \<Longrightarrow> char_of n = quote_char \<longleftrightarrow> n = 34" "n < 256 \<Longrightarrow> char_of n = backslash \<longleftrightarrow> n = 92"
    by (metis quote_char_def special_chars(1)) (metis \<open>code CHR 0x5C = 92\<close> backslash_def code_char_of special_chars(2))
qed

lemma encode_plain: "32 \<le> r \<Longrightarrow> r \<noteq> 34 \<Longrightarrow> r \<noteq> 92 \<Longrightarrow> list_all (\<lambda>c. c \<noteq> quote_char \<and> c \<noteq> backslash) (encode_rune r)"
proof -
  assume r: "32 \<le> r" "r \<noteq> 34" "r \<noteq> 92"
  show ?thesis
  proof (cases "scalar r")
    case True
    then have "r < 1114112" by (auto simp: scalar_def)
    then have "r div 262144 < 5" "r < 2048 \<Longrightarrow> r div 64 < 32" "r < 65536 \<Longrightarrow> r div 4096 < 16" by auto
    then show ?thesis using r True by (simp add: encode_rune_def Let_def char_of_special)
  next
    case False
    then show ?thesis by (simp add: encode_rune_def Let_def RuneError_def char_of_special)
  qed
qed

lemma unhex_hex_digit: "n < 16 \<Longrightarrow> unhex (hex_digit n) = Some n"
  by (auto simp: hex_digit_def)

lemma parse_escaped_ascii:
  assumes "r < 128" shows "encode_rune r = [char_of r]"
  using assms by (simp add: encode_rune_def scalar_def)

lemma parse_escape: "parse_chars (escape_rune r @ s) = cons_result (encode_rune r) (parse_chars s)"
proof -
  have esc: "parse_chars (backslash # e # s) = cons_result [x] (parse_chars s)" if "e \<noteq> CHR ''u''" "unescape e = Some x" for e x
    using that by (simp add: quote_char_def backslash_def)
  consider "r = 34" | "r = 92" | "r = 8" | "r = 12" | "r = 10" | "r = 13" | "r = 9"
    | "r < 32" "r \<notin> {34, 92, 8, 12, 10, 13, 9}" | "32 \<le> r" "r \<noteq> 34" "r \<noteq> 92" by fastforce
  then show ?thesis
  proof cases
    case 8
    then have "escape_rune r = [backslash, CHR ''u'', CHR ''0'', CHR ''0'', hex_digit (r div 16), hex_digit (r mod 16)]"
      by (simp add: escape_rune_def)
    moreover have "unhex (hex_digit (r div 16)) = Some (r div 16)" "unhex (hex_digit (r mod 16)) = Some (r mod 16)"
      using 8 by (intro unhex_hex_digit; simp)+
    ultimately show ?thesis using 8 by (simp add: parse_escaped_ascii backslash_def quote_char_def del: unhex.simps)
  next
    case 9
    then have "escape_rune r = encode_rune r" by (simp add: escape_rune_def)
    then show ?thesis using parse_plain [OF encode_plain [OF 9]] by simp
  qed (simp_all add: escape_rune_def parse_escaped_ascii esc unescape_def quote_char_def backslash_def special_chars)
qed

lemma parse_string: "parse_chars (concat (map escape_rune rs) @ quote_char # s) = Some (string_of_runes rs, s)"
proof (induction rs)
  case Nil
  then show ?case by (simp add: string_of_runes_def)
next
  case (Cons r rs)
  have "parse_chars (concat (map escape_rune (r # rs)) @ quote_char # s)
      = cons_result (encode_rune r) (parse_chars (concat (map escape_rune rs) @ quote_char # s))"
    by (simp add: parse_escape del: parse_chars.simps)
  then show ?case using Cons by (simp add: cons_result_def string_of_runes_def del: parse_chars.simps)
qed

definition num_char :: "char \<Rightarrow> bool" where
  "num_char c = (c \<in> set ''0123456789+-.eE'')"

fun parse_value :: "nat \<Rightarrow> string \<Rightarrow> (any \<times> string) option"
  and parse_items :: "nat \<Rightarrow> string \<Rightarrow> (any list \<times> string) option"
  and parse_members :: "nat \<Rightarrow> string \<Rightarrow> ((string \<times> any) list \<times> string) option" where
  "parse_value 0 s = None"
| "parse_value (Suc n) s =
     (case s of [] \<Rightarrow> None
      | c # r \<Rightarrow>
          if c = quote_char then (case parse_chars r of None \<Rightarrow> None | Some (t, q) \<Rightarrow> Some (String_any t, q))
          else if c = CHR ''['' then
            (if r \<noteq> [] \<and> hd r = CHR '']'' then Some (Slice_any [], tl r)
             else case parse_items n r of None \<Rightarrow> None | Some (vs, q) \<Rightarrow> Some (Slice_any vs, q))
          else if c = CHR ''{'' then
            (if r \<noteq> [] \<and> hd r = CHR ''}'' then Some (Map_any [], tl r)
             else case parse_members n r of None \<Rightarrow> None | Some (ms, q) \<Rightarrow> Some (Map_any ms, q))
          else if take 4 s = ''null'' then Some (Nil_any, drop 4 s)
          else if take 4 s = ''true'' then Some (Bool_any True, drop 4 s)
          else if take 5 s = ''false'' then Some (Bool_any False, drop 5 s)
          else if num_char c then Some (Number_any (takeWhile num_char s), dropWhile num_char s)
          else None)"
| "parse_items 0 s = None"
| "parse_items (Suc n) s =
     (case parse_value n s of None \<Rightarrow> None
      | Some (v, q) \<Rightarrow>
          if q = [] then None
          else if hd q = CHR '']'' then Some ([v], tl q)
          else if hd q = CHR '','' then (case parse_items n (tl q) of None \<Rightarrow> None | Some (vs, q') \<Rightarrow> Some (v # vs, q'))
          else None)"
| "parse_members 0 s = None"
| "parse_members (Suc n) s =
     (if s = [] \<or> hd s \<noteq> quote_char then None
      else case parse_chars (tl s) of None \<Rightarrow> None
      | Some (k, r) \<Rightarrow>
          if r = [] \<or> hd r \<noteq> CHR '':'' then None
          else case parse_value n (tl r) of None \<Rightarrow> None
          | Some (v, q) \<Rightarrow>
              if q = [] then None
              else if hd q = CHR ''}'' then Some ([(k, v)], tl q)
              else if hd q = CHR '','' then (case parse_members n (tl q) of None \<Rightarrow> None | Some (ms, q') \<Rightarrow> Some ((k, v) # ms, q'))
              else None)"

text \<open>A whole text.\<close>

definition parse_canonical :: "bytes \<Rightarrow> any option" where
  "parse_canonical b =
     (let s = string_of b in
      case parse_value (Suc (length s)) s of Some (v, []) \<Rightarrow> Some v | _ \<Rightarrow> None)"

text \<open>
  The value a text stands for: maps in the order of their keys, integers as the number tokens
  they are printed as, strings with their invalid bytes replaced.
\<close>

function norm_any :: "any \<Rightarrow> any" where
  "norm_any (String_any s) = String_any (valid_text s)"
| "norm_any (Int_any i) = Number_any (Itoa i)"
| "norm_any (Int64_any i) = Number_any (Itoa i)"
| "norm_any (Slice_any vs) = Slice_any (map norm_any vs)"
| "norm_any (Map_any ms) = Map_any (map (\<lambda>k. (valid_text k, case map_of ms k of None \<Rightarrow> Nil_any | Some v \<Rightarrow> norm_any v)) (sort (map fst ms)))"
| "norm_any Nil_any = Nil_any"
| "norm_any (Bool_any b) = Bool_any b"
| "norm_any (Number_any n) = Number_any n"
| "norm_any Float_any = Float_any"
| "norm_any Other_any = Other_any"
  by pat_completeness auto
termination
  by (relation "measure size") (auto simp: less_Suc_eq_le size_list_estimation' dest!: size_Map_any)

text \<open>Number tokens are those of JSON, all the rest is free.\<close>

fun wf_any :: "any \<Rightarrow> bool" where
  "wf_any (Number_any n) = (n \<noteq> [] \<and> list_all num_char n)"
| "wf_any (Slice_any vs) = list_all wf_any vs"
| "wf_any (Map_any ms) = list_all (\<lambda>p. wf_any (snd p)) ms"
| "wf_any v = True"

definition ok_rest :: "string \<Rightarrow> bool" where
  "ok_rest rest = (rest = [] \<or> \<not> num_char (hd rest))"

text \<open>A text from which the reader recovers a value, whatever comes after it.\<close>

definition reads :: "any \<Rightarrow> string \<Rightarrow> bool" where
  "reads v t = (t \<noteq> [] \<and> hd t \<noteq> CHR '']'' \<and>
     (\<forall>n rest. length t < n \<longrightarrow> ok_rest rest \<longrightarrow> parse_value n (t @ rest) = Some (v, rest)))"

lemma ok_rest_simps [simp]: "ok_rest []" "ok_rest (CHR '','' # s)" "ok_rest (CHR '']'' # s)" "ok_rest (CHR ''}'' # s)"
  by (simp_all add: ok_rest_def num_char_def)

lemma reads_number:
  assumes "t \<noteq> []" "list_all num_char t" shows "reads (Number_any t) t"
proof -
  obtain c t' where t: "t = c # t'" using assms(1) by (cases t) auto
  have c: "num_char c" using assms(2) t by simp
  have "c \<noteq> quote_char" "c \<noteq> CHR ''[''" "c \<noteq> CHR ''{''" "c \<noteq> CHR ''n''" "c \<noteq> CHR ''t''" "c \<noteq> CHR ''f''" "c \<noteq> CHR '']''"
    using c by (auto simp: num_char_def quote_char_def)
  moreover have "takeWhile num_char (t @ rest) = t \<and> dropWhile num_char (t @ rest) = rest" if "ok_rest rest" for rest
    using assms(2) that by (cases rest) (auto simp: list_all_iff ok_rest_def takeWhile_append dropWhile_append)
  ultimately show ?thesis using c t by (auto simp: reads_def gr0_conv_Suc dest!: less_imp_Suc_add)
qed

lemma reads_string: "reads (String_any (valid_text s)) (writeCanonicalString s)"
proof -
  have "parse_value n (writeCanonicalString s @ rest) = Some (String_any (valid_text s), rest)" if "length (writeCanonicalString s) < n" for n rest
    using that parse_string [of "runes s" rest]
    by (cases n) (simp_all add: writeCanonicalString_def valid_text_def del: parse_chars.simps)
  then show ?thesis by (simp add: reads_def writeCanonicalString_def quote_char_def)
qed

lemma reads_constants: "reads Nil_any ''null''" "reads (Bool_any True) ''true''" "reads (Bool_any False) ''false''"
  by (auto simp: reads_def quote_char_def gr0_conv_Suc dest!: less_imp_Suc_add)

lemma Join_two [simp]: "ts \<noteq> [] \<Longrightarrow> Join sep (t # ts) = t @ sep @ Join sep ts"
  by (cases ts) auto

lemma parse_items_reads:
  assumes "list_all2 reads vs ts" "vs \<noteq> []" "length (Join '','' ts) + 1 < n"
  shows "parse_items n (Join '','' ts @ CHR '']'' # rest) = Some (vs, rest)"
  using assms
proof (induction vs ts arbitrary: n rule: list_all2_induct)
  case Nil
  then show ?case by simp
next
  case (Cons v vs t ts)
  obtain m where n: "n = Suc m" using Cons.prems(2) by (cases n) auto
  show ?case
  proof (cases "ts = []")
    case True
    then have "vs = []" using Cons.hyps(2) by simp
    moreover have "parse_value m (t @ CHR '']'' # rest) = Some (v, CHR '']'' # rest)"
      using Cons.hyps(1) Cons.prems True n by (simp add: reads_def)
    ultimately show ?thesis using True n by simp
  next
    case False
    then have vs: "vs \<noteq> []" using Cons.hyps(2) by auto
    have "parse_value m (t @ '','' @ Join '','' ts @ CHR '']'' # rest) = Some (v, '','' @ Join '','' ts @ CHR '']'' # rest)"
      using Cons.hyps(1) Cons.prems False n by (simp add: reads_def)
    moreover have "parse_items m (Join '','' ts @ CHR '']'' # rest) = Some (vs, rest)"
      using Cons.IH [OF vs] Cons.prems False n by simp
    ultimately show ?thesis using False n by simp
  qed
qed

text \<open>A member of an object: its key, a colon and its value.\<close>

definition reads_member :: "string \<times> any \<Rightarrow> string \<Rightarrow> bool" where
  "reads_member p t = (\<exists>k tv. fst p = valid_text k \<and> t = writeCanonicalString k @ '':'' @ tv \<and> reads (snd p) tv)"

lemma parse_member_head:
  assumes "reads_member (k, v) t" "length t < m" "ok_rest rest"
  shows "\<exists>r. t @ rest \<noteq> [] \<and> hd (t @ rest) = quote_char \<and> parse_chars (tl (t @ rest)) = Some (k, CHR '':'' # r) \<and>
    parse_value m r = Some (v, rest)"
proof -
  obtain k' tv where t: "k = valid_text k'" "t = writeCanonicalString k' @ '':'' @ tv" "reads v tv"
    using assms(1) by (auto simp: reads_member_def)
  have "parse_chars (tl (t @ rest)) = Some (k, CHR '':'' # tv @ rest)"
    using parse_string [of "runes k'" "CHR '':'' # tv @ rest"] t(1,2) by (simp add: writeCanonicalString_def valid_text_def)
  moreover have "parse_value m (tv @ rest) = Some (v, rest)" using t(2,3) assms(2,3) by (simp add: reads_def)
  ultimately show ?thesis using t(2) by (auto simp: writeCanonicalString_def)
qed

lemma parse_members_reads:
  assumes "list_all2 reads_member ms ts" "ms \<noteq> []" "length (Join '','' ts) + 1 < n"
  shows "parse_members n (Join '','' ts @ CHR ''}'' # rest) = Some (ms, rest)"
  using assms
proof (induction ms ts arbitrary: n rule: list_all2_induct)
  case Nil
  then show ?case by simp
next
  case (Cons p ms t ts)
  obtain k v where p: "p = (k, v)" by fastforce
  obtain m where n: "n = Suc m" using Cons.prems(2) by (cases n) auto
  show ?case
  proof (cases "ts = []")
    case True
    then have "ms = []" using Cons.hyps(2) by simp
    moreover obtain r where "t @ CHR ''}'' # rest \<noteq> []" "hd (t @ CHR ''}'' # rest) = quote_char"
      "parse_chars (tl (t @ CHR ''}'' # rest)) = Some (k, CHR '':'' # r)" "parse_value m r = Some (v, CHR ''}'' # rest)"
      using parse_member_head [of k v t m "CHR ''}'' # rest"] Cons.hyps(1) Cons.prems True n p by auto
    ultimately show ?thesis using True n p by simp
  next
    case False
    then have ms: "ms \<noteq> []" using Cons.hyps(2) by auto
    let ?q = "'','' @ Join '','' ts @ CHR ''}'' # rest"
    obtain r where "t @ ?q \<noteq> []" "hd (t @ ?q) = quote_char"
      "parse_chars (tl (t @ ?q)) = Some (k, CHR '':'' # r)" "parse_value m r = Some (v, ?q)"
      using parse_member_head [of k v t m ?q] Cons.hyps(1) Cons.prems False n p by auto
    moreover have "parse_members m (Join '','' ts @ CHR ''}'' # rest) = Some (ms, rest)"
      using Cons.IH [OF ms] Cons.prems False n by simp
    ultimately show ?thesis using False n p by simp
  qed
qed

lemma num_digit: "n < 10 \<Longrightarrow> num_char (char_of (48 + n :: nat))"
proof -
  have "list_all (\<lambda>n. num_char (char_of (48 + n :: nat))) [0..<10]" by code_simp
  then show "n < 10 \<Longrightarrow> num_char (char_of (48 + n))" by (simp add: list_all_iff)
qed

lemma digits_num: "nat_text n \<noteq> [] \<and> list_all num_char (nat_text n)"
proof (induction n rule: nat_text.induct)
  case (1 n)
  show ?case
  proof (cases "n < 10")
    case True
    then show ?thesis using num_digit [OF True] by (simp add: nat_text.simps [of n])
  next
    case False
    then show ?thesis using 1 num_digit [of "n mod 10"] by (simp add: nat_text.simps [of n])
  qed
qed

lemma Itoa_num: "Itoa i \<noteq> [] \<and> list_all num_char (Itoa i)"
  using digits_num by (auto simp: Itoa_def num_char_def)

lemma collect_Ok: "collect (map f xs) = Ok ts \<Longrightarrow> list_all2 (\<lambda>x t. f x = Ok t) xs ts"
proof (induction xs arbitrary: ts)
  case Nil
  then show ?case by simp
next
  case (Cons x xs)
  then show ?case by (cases "f x") (auto split: sum.splits)
qed

lemma list_all2_map_mono:
  "list_all2 P xs ts \<Longrightarrow> (\<And>x t. x \<in> set xs \<Longrightarrow> P x t \<Longrightarrow> Q (f x) t) \<Longrightarrow> list_all2 Q (map f xs) ts"
  by (induction rule: list_all2_induct) auto

lemma reads_hd: "list_all2 reads vs ts \<Longrightarrow> vs \<noteq> [] \<Longrightarrow> Join '','' ts \<noteq> [] \<and> hd (Join '','' ts) \<noteq> CHR '']''"
proof (induction rule: list_all2_induct)
  case (Cons v vs t ts)
  then show ?case by (cases ts) (auto simp: reads_def)
qed simp

lemma reads_member_hd: "list_all2 reads_member ms ts \<Longrightarrow> ms \<noteq> [] \<Longrightarrow> Join '','' ts \<noteq> [] \<and> hd (Join '','' ts) = quote_char"
proof (induction rule: list_all2_induct)
  case (Cons v vs t ts)
  then show ?case by (cases ts) (auto simp: reads_member_def writeCanonicalString_def)
qed simp

lemma reads_slice:
  assumes "list_all2 reads vs ts" shows "reads (Slice_any vs) (''['' @ Join '','' ts @ '']'')"
proof (cases "vs = []")
  case True
  then show ?thesis using assms by (auto simp: reads_def quote_char_def gr0_conv_Suc dest!: less_imp_Suc_add)
next
  case False
  have "parse_value n (''['' @ Join '','' ts @ '']'' @ rest) = Some (Slice_any vs, rest)"
    if less: "length (''['' @ Join '','' ts @ '']'') < n" for n rest
  proof -
    obtain m where n: "n = Suc m" using less by (cases n) auto
    have "parse_items m (Join '','' ts @ CHR '']'' # rest) = Some (vs, rest)"
      using parse_items_reads [OF assms False] less n by simp
    then show ?thesis using reads_hd [OF assms False] n by (simp add: quote_char_def)
  qed
  then show ?thesis by (simp add: reads_def)
qed

lemma reads_map:
  assumes "list_all2 reads_member ms ts" shows "reads (Map_any ms) (''{'' @ Join '','' ts @ ''}'')"
proof (cases "ms = []")
  case True
  then show ?thesis using assms by (auto simp: reads_def quote_char_def gr0_conv_Suc dest!: less_imp_Suc_add)
next
  case False
  have "parse_value n (''{'' @ Join '','' ts @ ''}'' @ rest) = Some (Map_any ms, rest)"
    if less: "length (''{'' @ Join '','' ts @ ''}'') < n" for n rest
  proof -
    obtain m where n: "n = Suc m" using less by (cases n) auto
    have "parse_members m (Join '','' ts @ CHR ''}'' # rest) = Some (ms, rest)"
      using parse_members_reads [OF assms False] less n by simp
    then show ?thesis using reads_member_hd [OF assms False] n by (simp add: quote_char_def)
  qed
  then show ?thesis by (simp add: reads_def)
qed

lemma writeCanonical_reads: "writeCanonical v = Ok t \<Longrightarrow> wf_any v \<Longrightarrow> reads (norm_any v) t"
proof (induction v arbitrary: t rule: writeCanonical.induct)
  case (4 x)
  then show ?case using reads_number by simp
next
  case (5 x)
  then show ?case using reads_number [OF conjunct1 [OF Itoa_num] conjunct2 [OF Itoa_num]] by auto
next
  case (6 x)
  then show ?case using reads_number [OF conjunct1 [OF Itoa_num] conjunct2 [OF Itoa_num]] by auto
next
  case (8 x)
  obtain ts where ts: "collect (map writeCanonical x) = Ok ts" "t = ''['' @ Join '','' ts @ '']''"
    using 8(2) by (auto split: sum.splits)
  have "list_all2 reads (map norm_any x) ts"
    using collect_Ok [OF ts(1)] by (rule list_all2_map_mono) (use 8(1,3) in \<open>auto simp: list_all_iff\<close>)
  then show ?case using reads_slice ts(2) by simp
next
  case (9 x)
  let ?member = "\<lambda>k. case map_of x k of None \<Rightarrow> Ok (writeCanonicalString k @ '':null'')
          | Some v \<Rightarrow> (case writeCanonical v of Err e \<Rightarrow> Err e | Ok t \<Rightarrow> Ok (writeCanonicalString k @ '':'' @ t))"
  obtain ts where ts: "collect (map ?member (sort (map fst x))) = Ok ts" "t = ''{'' @ Join '','' ts @ ''}''"
    using 9(2) by (auto simp: Let_def split: sum.splits)
  have "reads_member (valid_text k, case map_of x k of None \<Rightarrow> Nil_any | Some v \<Rightarrow> norm_any v) t"
    if k: "k \<in> set (sort (map fst x))" "?member k = Ok t" for k t
  proof (cases "map_of x k")
    case None
    then show ?thesis using k(2) reads_constants(1) by (auto simp: reads_member_def)
  next
    case (Some v)
    then obtain tv where tv: "writeCanonical v = Ok tv" "t = writeCanonicalString k @ '':'' @ tv"
      using k(2) by (auto split: sum.splits)
    have "wf_any v" using 9(3) map_of_SomeD [OF Some] by (auto simp: list_all_iff)
    then have "reads (norm_any v) tv" using 9(1) [OF refl k(1) Some tv(1)] by blast
    then show ?thesis using tv(2) Some by (auto simp: reads_member_def)
  qed
  then have "list_all2 reads_member (map (\<lambda>k. (valid_text k, case map_of x k of None \<Rightarrow> Nil_any | Some v \<Rightarrow> norm_any v)) (sort (map fst x))) ts"
    by (rule list_all2_map_mono [OF collect_Ok [OF ts(1)]])
  then show ?case using reads_map ts(2) by simp
qed (auto simp: reads_string reads_constants split: if_splits)

section \<open>One text for one value\<close>

lemma canonical_reads:
  assumes "canonicalJSON v = Ok b" "wf_any v" shows "parse_canonical b = Some (norm_any v)"
proof -
  obtain t where t: "writeCanonical v = Ok t" "b = bytes_of t" using assms(1) by (auto simp: canonicalJSON_def split: sum.splits)
  have "parse_value (Suc (length t)) (t @ []) = Some (norm_any v, [])"
    using writeCanonical_reads [OF t(1) assms(2)] unfolding reads_def by (metis lessI ok_rest_simps(1))
  then show ?thesis by (simp add: parse_canonical_def t(2) del: parse_value.simps)
qed

text \<open>
  Values as a JSON decoder makes them: the keys of a map are distinct, and every text is
  valid UTF-8.
\<close>

fun decoded_any :: "any \<Rightarrow> bool" where
  "decoded_any (String_any s) = (valid_text s = s)"
| "decoded_any (Slice_any vs) = list_all decoded_any vs"
| "decoded_any (Map_any ms) = (distinct (map fst ms) \<and> list_all (\<lambda>p. valid_text (fst p) = fst p \<and> decoded_any (snd p)) ms)"
| "decoded_any v = True"

lemma map_of_map_keys: "k \<in> set ks \<Longrightarrow> map_of (map (\<lambda>k. (k, f k)) ks) k = Some (f k)"
  by (induction ks) auto

lemma writeCanonical_norm: "decoded_any v \<Longrightarrow> writeCanonical (norm_any v) = writeCanonical v"
proof (induction v rule: writeCanonical.induct)
  case (8 x)
  then have "map writeCanonical (map norm_any x) = map writeCanonical x" by (auto simp: list_all_iff)
  then show ?case by (simp del: map_map)
next
  case (9 x)
  let ?K = "sort (map fst x)" and ?g = "\<lambda>k. case map_of x k of None \<Rightarrow> Nil_any | Some v \<Rightarrow> norm_any v"
  have keys: "map (\<lambda>k. (valid_text k, ?g k)) ?K = map (\<lambda>k. (k, ?g k)) ?K"
    using 9(2) by (auto simp: list_all_iff)
  have "writeCanonical (?g k) = writeCanonical v" if "k \<in> set ?K" "map_of x k = Some v" for k v
    using 9(1) [OF refl that] map_of_SomeD [OF that(2)] 9(2) that(2) by (auto simp: list_all_iff)
  moreover have "\<exists>v. map_of x k = Some v" if "k \<in> set ?K" for k
    using that by (metis set_sort map_of_eq_None_iff option.exhaust set_map)
  ultimately have A: "map (\<lambda>k. case map_of (map (\<lambda>k. (k, ?g k)) ?K) k of None \<Rightarrow> Ok (writeCanonicalString k @ '':null'')
          | Some v \<Rightarrow> (case writeCanonical v of Err e \<Rightarrow> Err e | Ok t \<Rightarrow> Ok (writeCanonicalString k @ '':'' @ t))) ?K
      = map (\<lambda>k. case map_of x k of None \<Rightarrow> Ok (writeCanonicalString k @ '':null'')
          | Some v \<Rightarrow> (case writeCanonical v of Err e \<Rightarrow> Err e | Ok t \<Rightarrow> Ok (writeCanonicalString k @ '':'' @ t))) ?K"
    by (intro map_cong refl) (fastforce simp: map_of_map_keys)
  have B: "sort (map fst (map (\<lambda>k. (k, ?g k)) ?K)) = ?K" by (simp add: comp_def sort_key_id_if_sorted)
  show ?case by (simp only: norm_any.simps keys writeCanonical.simps Let_def A B)
qed auto

text \<open>C31. The bytes identify the value: two values as decoders make them, with JSON number tokens, have the
  same canonical text exactly when they are the same up to the order of the members of objects and to
  the type an integer is held in. Hence the text does not depend on the order in which a map is
  enumerated, and no two different headers share the bytes that are signed.\<close>

theorem canonical_bytes_identify:
  assumes "canonicalJSON v = Ok b" "canonicalJSON w = Ok c"
    and "wf_any v" "wf_any w" "decoded_any v" "decoded_any w"
  shows "b = c \<longleftrightarrow> norm_any v = norm_any w"
proof
  assume "b = c"
  then show "norm_any v = norm_any w" using canonical_reads assms by (metis option.inject)
next
  assume "norm_any v = norm_any w"
  then have "writeCanonical v = writeCanonical w" using writeCanonical_norm assms(5,6) by metis
  then show "b = c" using assms(1,2) by (simp add: canonicalJSON_def)
qed

theorem canonical_bytes_identify_witness:
  "canonicalJSON (Map_any [(''b'', Int_any 1), (''a'', Slice_any [Nil_any, Bool_any True])])
     = canonicalJSON (Map_any [(''a'', Slice_any [Nil_any, Bool_any True]), (''b'', Number_any ''1'')])"
proof -
  let ?v = "Map_any [(''b'', Int_any 1), (''a'', Slice_any [Nil_any, Bool_any True])]"
  let ?w = "Map_any [(''a'', Slice_any [Nil_any, Bool_any True]), (''b'', Number_any ''1'')]"
  have ascii: "valid_text ''a'' = ''a''" "valid_text ''b'' = ''b''" by (intro valid_text_ascii; simp add: code_def)+
  have "Itoa 1 = ''1''" by code_simp
  then have n: "norm_any ?v = norm_any ?w" by (simp add: ascii)
  have d: "decoded_any ?v" "decoded_any ?w" by (simp_all add: ascii)
  have wf: "wf_any ?v" "wf_any ?w" by (simp_all add: num_char_def)
  obtain b c where "canonicalJSON ?v = Ok b" "canonicalJSON ?w = Ok c" by (simp add: canonicalJSON_def)
  with canonical_bytes_identify [OF this wf d] n show ?thesis by simp
qed

text \<open>The writer fails only on a float or a value that is not of JSON.\<close>

fun writable_any :: "any \<Rightarrow> bool" where
  "writable_any (Slice_any vs) = list_all writable_any vs"
| "writable_any (Map_any ms) = list_all (\<lambda>p. writable_any (snd p)) ms"
| "writable_any Float_any = False"
| "writable_any Other_any = False"
| "writable_any v = True"

lemma collect_total: "(\<And>x. x \<in> set xs \<Longrightarrow> \<exists>t. f x = Ok t) \<Longrightarrow> \<exists>ts. collect (map f xs) = Ok ts"
proof (induction xs)
  case (Cons x xs)
  obtain t where "f x = Ok t" using Cons.prems [of x] by auto
  moreover obtain ts where "collect (map f xs) = Ok ts" using Cons by auto
  ultimately show ?case by simp
qed simp

lemma writeCanonical_total: "writable_any v \<Longrightarrow> \<exists>t. writeCanonical v = Ok t"
proof (induction v rule: writeCanonical.induct)
  case (8 x)
  then have "\<exists>ts. collect (map writeCanonical x) = Ok ts" by (intro collect_total) (auto simp: list_all_iff)
  then show ?case by auto
next
  case (9 x)
  let ?f = "\<lambda>k. (case map_of x k of None \<Rightarrow> Ok (writeCanonicalString k @ '':null'')
          | Some v \<Rightarrow> (case writeCanonical v of Err e \<Rightarrow> Err e | Ok t \<Rightarrow> Ok (writeCanonicalString k @ '':'' @ t))) :: string + string"
  have "\<exists>t. ?f k = Ok t" if k: "k \<in> set (sort (map fst x))" for k
  proof (cases "map_of x k")
    case (Some v)
    have "writable_any v" using 9(2) map_of_SomeD [OF Some] by (auto simp: list_all_iff)
    then show ?thesis using 9(1) [OF refl k Some] Some by auto
  qed simp
  then obtain ts where "collect (map ?f (sort (map fst x))) = Ok ts" using collect_total [of _ ?f] by blast
  then show ?case by (simp add: Let_def)
qed auto

end
