(* ===== verification/Header_Text.thy ===== *)
theory Header_Text
  imports Envelope Canonical_Json
begin

text \<open>
  The header of an envelope as canonical JSON: the members that the struct tags of
  \<^verbatim>\<open>envelope.go\<close> give it, and a reader for them. The canonical text of a header is read back as
  that header, which is the law the envelope's properties ask of the JSON texts.
\<close>

section \<open>The header as a value\<close>

text \<open>\<open>json.Marshal\<close> replaces invalid bytes of a text; the decoder that follows gives number tokens.\<close>

definition str :: "string \<Rightarrow> any" where "str s = String_any (valid_text s)"

definition creator_generic :: "envelopeCreatorRef \<Rightarrow> any" where
  "creator_generic c = Map_any [(''fp'', str (cf_Fp c)), (''pk'', str (cf_Pk c))]"

definition policy_generic :: "envelopePolicy \<Rightarrow> any" where
  "policy_generic p = Map_any
     [(''onlyMobileNetwork'', Bool_any (ep_OnlyMobileNetwork p)), (''attestationLevel'', str (ep_AttestationLevel p)),
      (''expiresAt'', case ep_ExpiresAt p of None \<Rightarrow> Nil_any | Some s \<Rightarrow> str s),
      (''displayMessage'', str (ep_DisplayMessage p)), (''customServerMessage'', str (ep_CustomServerMessage p))]"

definition recipient_generic :: "envelopeRecipient \<Rightarrow> any" where
  "recipient_generic r = Map_any [(''fp'', str (rc_Fp r)), (''wrap'', str (rc_Wrap r))]"

definition header_generic :: "envelopeHeader \<Rightarrow> any option" where
  "header_generic h = Some (Map_any
     [(''v'', Number_any (Itoa (eh_V h))), (''configId'', str (eh_ConfigID h)), (''issuedAt'', str (eh_IssuedAt h)),
      (''creator'', creator_generic (eh_Creator h)), (''policy'', policy_generic (eh_Policy h)),
      (''recipients'', Slice_any (map recipient_generic (eh_Recipients h)))])"


section \<open>Reading it back\<close>

fun as_string :: "any option \<Rightarrow> string option" where
  "as_string (Some (String_any s)) = Some s" | "as_string _ = None"

fun as_bool :: "any option \<Rightarrow> bool option" where
  "as_bool (Some (Bool_any b)) = Some b" | "as_bool _ = None"

fun as_members :: "any option \<Rightarrow> (string \<times> any) list option" where
  "as_members (Some (Map_any ms)) = Some ms" | "as_members _ = None"

fun as_items :: "any option \<Rightarrow> any list option" where
  "as_items (Some (Slice_any vs)) = Some vs" | "as_items _ = None"

definition as_int :: "any option \<Rightarrow> int option" where
  "as_int v = (case v of Some (Number_any n) \<Rightarrow>
       Some (if n \<noteq> [] \<and> hd n = CHR ''-'' then - int (digits_value (tl n)) else int (digits_value n))
     | _ \<Rightarrow> None)"

definition as_optional :: "any option \<Rightarrow> string option option" where
  "as_optional v = (case v of Some Nil_any \<Rightarrow> Some None | _ \<Rightarrow> map_option Some (as_string v))"

definition read_creator :: "any option \<Rightarrow> envelopeCreatorRef option" where
  "read_creator v = (case as_members v of None \<Rightarrow> None | Some ms \<Rightarrow>
     (case (as_string (map_of ms ''fp''), as_string (map_of ms ''pk'')) of
        (Some f, Some p) \<Rightarrow> Some \<lparr>cf_Fp = f, cf_Pk = p\<rparr> | _ \<Rightarrow> None))"

definition read_recipient :: "any option \<Rightarrow> envelopeRecipient option" where
  "read_recipient v = (case as_members v of None \<Rightarrow> None | Some ms \<Rightarrow>
     (case (as_string (map_of ms ''fp''), as_string (map_of ms ''wrap'')) of
        (Some f, Some w) \<Rightarrow> Some \<lparr>rc_Fp = f, rc_Wrap = w\<rparr> | _ \<Rightarrow> None))"

definition read_policy :: "any option \<Rightarrow> envelopePolicy option" where
  "read_policy v = (case as_members v of None \<Rightarrow> None | Some ms \<Rightarrow>
     (case (as_bool (map_of ms ''onlyMobileNetwork''), as_string (map_of ms ''attestationLevel''),
            as_optional (map_of ms ''expiresAt''), as_string (map_of ms ''displayMessage''),
            as_string (map_of ms ''customServerMessage'')) of
        (Some m, Some l, Some e, Some d, Some c) \<Rightarrow> Some \<lparr>ep_OnlyMobileNetwork = m, ep_AttestationLevel = l,
          ep_ExpiresAt = e, ep_DisplayMessage = d, ep_CustomServerMessage = c\<rparr> | _ \<Rightarrow> None))"

definition read_header :: "any option \<Rightarrow> envelopeHeader option" where
  "read_header v = (case as_members v of None \<Rightarrow> None | Some ms \<Rightarrow>
     (case (as_int (map_of ms ''v''), as_string (map_of ms ''configId''), as_string (map_of ms ''issuedAt''),
            read_creator (map_of ms ''creator''), read_policy (map_of ms ''policy''),
            Option.bind (as_items (map_of ms ''recipients'')) (\<lambda>vs. those (map (\<lambda>v. read_recipient (Some v)) vs))) of
        (Some n, Some c, Some i, Some r, Some p, Some rs) \<Rightarrow> Some \<lparr>eh_V = n, eh_ConfigID = c, eh_IssuedAt = i,
          eh_Creator = r, eh_Policy = p, eh_Recipients = rs\<rparr> | _ \<Rightarrow> None))"

lemma hd_digits: "hd (nat_text n) \<noteq> CHR ''-''"
proof (induction n rule: nat_text.induct)
  case (1 n)
  have "list_all (\<lambda>n. char_of (48 + n :: nat) \<noteq> CHR ''-'') [0..<10]" by code_simp
  then have d: "n < 10 \<Longrightarrow> char_of (48 + n) \<noteq> CHR ''-''" by (simp add: list_all_iff)
  show ?case
  proof (cases "n < 10")
    case True
    then show ?thesis using d by (simp add: nat_text.simps [of n])
  next
    case False
    then show ?thesis using 1 digits_num [of "n div 10"] by (simp add: nat_text.simps [of n])
  qed
qed

lemma as_int_Itoa: "as_int (Some (Number_any (Itoa i))) = Some i"
  using digits_value_nat_text hd_digits [of "nat i"] digits_num [of "nat i"] by (auto simp: as_int_def Itoa_def)

text \<open>Sorting the members does not matter to a lookup when their keys are distinct.\<close>

lemma norm_lookup:
  assumes "\<And>k. k \<in> set (map fst ms) \<Longrightarrow> valid_text k = k" "map_of ms k = Some v"
  shows "map_of (map (\<lambda>k. (valid_text k, case map_of ms k of None \<Rightarrow> Nil_any | Some v \<Rightarrow> norm_any v)) (sort (map fst ms))) k
    = Some (norm_any v)"
proof -
  let ?g = "\<lambda>k. case map_of ms k of None \<Rightarrow> Nil_any | Some v \<Rightarrow> norm_any v"
  have e: "map (\<lambda>k. (valid_text k, ?g k)) (sort (map fst ms)) = map (\<lambda>k. (k, ?g k)) (sort (map fst ms))"
    using assms(1) by auto
  have "k \<in> set (sort (map fst ms))" using map_of_SomeD [OF assms(2)] by force
  from map_of_map_keys [OF this, of ?g] show ?thesis unfolding e by (simp only: assms(2) option.case)
qed

lemma norm_str [simp]: "norm_any (str s) = str s"
  by (simp add: str_def)

lemma ascii_key: "list_all (\<lambda>c. code c < 128) k \<Longrightarrow> valid_text k = k"
  by (rule valid_text_ascii)

lemma header_keys [simp]:
  "valid_text ''fp'' = ''fp''" "valid_text ''pk'' = ''pk''" "valid_text ''wrap'' = ''wrap''"
  "valid_text ''onlyMobileNetwork'' = ''onlyMobileNetwork''" "valid_text ''attestationLevel'' = ''attestationLevel''"
  "valid_text ''expiresAt'' = ''expiresAt''" "valid_text ''displayMessage'' = ''displayMessage''"
  "valid_text ''customServerMessage'' = ''customServerMessage''" "valid_text ''v'' = ''v''"
  "valid_text ''configId'' = ''configId''" "valid_text ''issuedAt'' = ''issuedAt''" "valid_text ''creator'' = ''creator''"
  "valid_text ''policy'' = ''policy''" "valid_text ''recipients'' = ''recipients''"
  by (rule ascii_key, simp add: code_def)+

lemma as_members_norm: "as_members (Some (norm_any (Map_any ms))) =
    Some (map (\<lambda>k. (valid_text k, case map_of ms k of None \<Rightarrow> Nil_any | Some v \<Rightarrow> norm_any v)) (sort (map fst ms)))"
  by simp

lemma read_creator_norm:
  assumes "valid_text (cf_Fp c) = cf_Fp c" "valid_text (cf_Pk c) = cf_Pk c"
  shows "read_creator (Some (norm_any (creator_generic c))) = Some c"
  using assms norm_lookup [of "[(''fp'', str (cf_Fp c)), (''pk'', str (cf_Pk c))]" "''fp''"]
    norm_lookup [of "[(''fp'', str (cf_Fp c)), (''pk'', str (cf_Pk c))]" "''pk''"]
  unfolding read_creator_def creator_generic_def as_members_norm option.case
  by (simp add: str_def)

lemma read_recipient_norm:
  assumes "valid_text (rc_Fp c) = rc_Fp c" "valid_text (rc_Wrap c) = rc_Wrap c"
  shows "read_recipient (Some (norm_any (recipient_generic c))) = Some c"
  using assms norm_lookup [of "[(''fp'', str (rc_Fp c)), (''wrap'', str (rc_Wrap c))]" "''fp''"]
    norm_lookup [of "[(''fp'', str (rc_Fp c)), (''wrap'', str (rc_Wrap c))]" "''wrap''"]
  unfolding read_recipient_def recipient_generic_def as_members_norm option.case
  by (simp add: str_def)

lemma read_policy_norm:
  assumes "policy_utf8 p"
  shows "read_policy (Some (norm_any (policy_generic p))) = Some p"
proof -
  let ?ms = "[(''onlyMobileNetwork'', Bool_any (ep_OnlyMobileNetwork p)), (''attestationLevel'', str (ep_AttestationLevel p)),
      (''expiresAt'', case ep_ExpiresAt p of None \<Rightarrow> Nil_any | Some s \<Rightarrow> str s),
      (''displayMessage'', str (ep_DisplayMessage p)), (''customServerMessage'', str (ep_CustomServerMessage p))]"
  have keys: "\<And>k. k \<in> set (map fst ?ms) \<Longrightarrow> valid_text k = k" by auto
  note L = norm_lookup [of ?ms, OF keys]
  show ?thesis
    unfolding read_policy_def policy_generic_def as_members_norm option.case
    using assms
    by (cases p) (auto simp: L as_optional_def policy_utf8_def str_def split: option.splits)
qed

lemma those_map_Some: "those (map Some xs) = Some xs"
  by (induction xs) auto

lemma read_header_norm:
  assumes "header_utf8 h" "header_generic h = Some v"
  shows "read_header (Some (norm_any v)) = Some h"
proof -
  let ?ms = "[(''v'', Number_any (Itoa (eh_V h))), (''configId'', str (eh_ConfigID h)), (''issuedAt'', str (eh_IssuedAt h)),
      (''creator'', creator_generic (eh_Creator h)), (''policy'', policy_generic (eh_Policy h)),
      (''recipients'', Slice_any (map recipient_generic (eh_Recipients h)))]"
  have v: "v = Map_any ?ms" using assms(2) by (simp add: header_generic_def)
  have keys: "\<And>k. k \<in> set (map fst ?ms) \<Longrightarrow> valid_text k = k" by auto
  note L = norm_lookup [of ?ms, OF keys]
  have c: "read_creator (Some (norm_any (creator_generic (eh_Creator h)))) = Some (eh_Creator h)"
    using assms(1) by (intro read_creator_norm) (simp_all add: header_utf8_def)
  have p: "read_policy (Some (norm_any (policy_generic (eh_Policy h)))) = Some (eh_Policy h)"
    using assms(1) by (intro read_policy_norm) (simp add: header_utf8_def)
  have "map (\<lambda>r. read_recipient (Some (norm_any (recipient_generic r)))) (eh_Recipients h) = map Some (eh_Recipients h)"
    using assms(1) by (intro map_cong refl read_recipient_norm) (auto simp: header_utf8_def list_all_iff)
  then have r: "those (map (\<lambda>r. read_recipient (Some (norm_any (recipient_generic r)))) (eh_Recipients h)) = Some (eh_Recipients h)"
    by (simp only: those_map_Some)
  show ?thesis
    unfolding read_header_def v as_members_norm option.case
    using assms(1) c p r as_int_Itoa [of "eh_V h"]
    by (simp add: L comp_def header_utf8_def) (simp add: str_def)
qed

lemma wf_header: "header_generic h = Some v \<Longrightarrow> wf_any v"
  using Itoa_num
  by (auto simp: header_generic_def creator_generic_def policy_generic_def recipient_generic_def str_def list_all_iff split: option.split)


section \<open>The texts of an envelope\<close>

definition header_texts :: "(issuerBody \<Rightarrow> bytes option) \<Rightarrow> (time \<Rightarrow> string) \<Rightarrow> texts" where
  "header_texts marshal_body format_issued = \<lparr>tx_canonical = canonicalJSONOfStruct header_generic,
     tx_unmarshal_header = (\<lambda>b. read_header (parse_canonical b)), tx_marshal_body = marshal_body,
     tx_format_issued = format_issued\<rparr>"

lemma writeCanonical_header: "\<exists>b. canonicalJSONOfStruct header_generic h = Ok b"
proof -
  obtain v where v: "header_generic h = Some v" by (simp add: header_generic_def)
  have "writable_any v"
    using v by (auto simp: header_generic_def creator_generic_def policy_generic_def recipient_generic_def str_def list_all_iff split: option.split)
  then show ?thesis using writeCanonical_total v by (fastforce simp: canonicalJSONOfStruct_def canonicalJSON_def)
qed

lemma header_roundtrip:
  assumes "header_utf8 h"
  shows "\<exists>b. canonicalJSONOfStruct header_generic h = Ok b \<and> read_header (parse_canonical b) = Some h"
proof -
  obtain v where v: "header_generic h = Some v" by (simp add: header_generic_def)
  obtain b where b: "canonicalJSONOfStruct header_generic h = Ok b" using writeCanonical_header by blast
  then have "canonicalJSON v = Ok b" using v by (simp add: canonicalJSONOfStruct_def)
  then show ?thesis
    using canonical_reads [OF _ wf_header [OF v]] read_header_norm [OF assms v] b by simp
qed

lemma header_texts_correct:
  assumes "\<And>t. valid_text (ff t) = ff t" shows "header_text_correct (header_texts mb ff)"
  using header_roundtrip assms by (fastforce simp: header_text_correct_def header_texts_def)

text \<open>The signed header is what was meant: serializing a header never fails, and its canonical bytes
  are read back as exactly that header, so that the law asked of the JSON texts by the envelope's
  properties holds of the code's own serialization.\<close>

theorem canonical_header_roundtrip:
  assumes "header_utf8 h"
  shows "\<exists>b. canonicalJSONOfStruct header_generic h = Ok b \<and> read_header (parse_canonical b) = Some h"
  using assms by (rule header_roundtrip)

theorem canonical_header_roundtrip_witness:
  "\<exists>b. canonicalJSONOfStruct header_generic (mint_header sample_crypto (header_texts (\<lambda>b. None) (\<lambda>t. EncodeToString []))
       (sample_mint []) sample_random [] [] []) = Ok b"
proof -
  have "valid_text '''' = ''''" by (rule valid_text_ascii) simp
  then have "header_utf8 (mint_header sample_crypto (header_texts (\<lambda>b. None) (\<lambda>t. EncodeToString [])) (sample_mint []) sample_random [] [] [])"
    using valid_text_NONE by (simp add: header_utf8_def mint_header_def header_texts_def sample_mint_def)
  from canonical_header_roundtrip [OF this] show ?thesis by blast
qed

end
