(* ===== verification/App_Attest.thy ===== *)
theory App_Attest
  imports Aka
begin

text \<open>
  The App Attest verifier of \<^verbatim>\<open>app_attest.go\<close>: the attestation object (whose CBOR decoder is an
  argument), the nonce of the leaf's extension, the authenticator data and the verdict. The point
  encoding \<^verbatim>\<open>marshalUncompressed\<close> is in the theory of the keys.
\<close>

section \<open>Parts of an attestation\<close>

record appAttestObject =
  aa_Fmt :: string
  aa_X5c :: "bytes list"
  aa_Receipt :: bytes
  aa_AuthData :: bytes

record appAttestAuthData =
  au_rpIDHash :: bytes
  au_flags :: byte
  au_signCounter :: nat
  au_aaguid :: bytes
  au_credentialID :: bytes

definition appleAppAttestOID :: "nat list" where
  "appleAppAttestOID = [1, 2, 840, 113635, 100, 8, 2]"

definition aaguidProd :: bytes where "aaguidProd = bytes_of ''appattest'' @ replicate 7 0"
definition aaguidDev :: bytes where "aaguidDev = bytes_of ''appattestdevelop''"

definition bytesEqualConstantTime :: "bytes \<Rightarrow> bytes \<Rightarrow> bool" where
  "bytesEqualConstantTime a b =
     (if length a \<noteq> length b then False
      else let diff = foldl (\<lambda>diff (x, y). diff OR (x XOR y)) 0 (zip a b) in diff = 0)"

definition extractAppAttestNonce :: "Certificate \<Rightarrow> string + bytes" where
  "extractAppAttestNonce leaf =
     (case find_extension appleAppAttestOID (crt_Extensions leaf) of
        None \<Rightarrow> Err ''leaf cert missing App Attest credCert extension''
      | Some val \<Rightarrow>
          (case parse_raw val of
             None \<Rightarrow> Err ''unmarshal outer SEQUENCE''
           | Some (outer, rest) \<Rightarrow>
               if rest \<noteq> [] then Err ''trailing bytes after credCert SEQUENCE''
               else if rv_Tag outer \<noteq> TagSequence \<or> rv_Class outer \<noteq> 0 then
                 Err (''expected outer SEQUENCE, got tag='' @ nat_text (rv_Tag outer) @ '' class='' @ nat_text (rv_Class outer))
               else (case find_element ''iterate credCert body'' 1 (rv_Bytes outer) of
                   Err e \<Rightarrow> Err e
                 | Ok None \<Rightarrow> Err ''credCert SEQUENCE missing [1] tagged nonce''
                 | Ok (Some elem) \<Rightarrow>
                     (case parse_octets (rv_Bytes elem) of
                        None \<Rightarrow> Err ''unmarshal nonce OCTET STRING''
                      | Some (nonce, _) \<Rightarrow> Ok nonce))))"

definition parseAppAttestAuthData :: "bytes \<Rightarrow> string + appAttestAuthData" where
  "parseAppAttestAuthData raw =
     (if length raw < 55 then Err (''authData too short ('' @ nat_text (length raw) @ '' bytes; need >= 55)'')
      else
        let flags = raw ! 32; signCounter = SetBytes (take 4 (drop 33 raw));
            credIDLen = SetBytes (take 2 (drop 53 raw)) in
        if length raw < 55 + credIDLen then
          Err (''credentialId truncated: declared '' @ nat_text credIDLen @ '' bytes, '' @ nat_text (length raw - 55) @ '' remaining'')
        else if flags AND 64 = 0 then Err ''authData flags missing AT bit (attestation flag)''
        else if signCounter \<noteq> 0 then
          Err (''authData signCounter must be 0 for App Attest attestation, got '' @ nat_text signCounter)
        else Ok \<lparr>au_rpIDHash = take 32 raw, au_flags = flags, au_signCounter = signCounter,
          au_aaguid = take 16 (drop 37 raw), au_credentialID = take credIDLen (drop 55 raw)\<rparr>)"

text \<open>The certificates of \<open>x5c\<close>, leaf first.\<close>

fun parse_x5c :: "x509 \<Rightarrow> nat \<Rightarrow> bytes list \<Rightarrow> string + Certificate list" where
  "parse_x5c X i [] = Ok []"
| "parse_x5c X i (d # ds) =
     (case ParseCertificate X d of
        Err e \<Rightarrow> Err (''parse cert '' @ nat_text i @ '': '' @ e)
      | Ok c \<Rightarrow> (case parse_x5c X (Suc i) ds of Err e \<Rightarrow> Err e | Ok cs \<Rightarrow> Ok (c # cs)))"


section \<open>The verdict\<close>

text \<open>\<open>Verify\<close> without the application identity never accepts.\<close>

definition appleAppAttest_Verify :: "AttestationBlob \<Rightarrow> string + Verdict" where
  "appleAppAttest_Verify blob = Ok (rejected False ''apple-app-attest requires appId from policy; use verifyWithAppID'')"

text \<open>The end of \<open>verifyWithAppID\<close>: the authenticator data against the application and the leaf's key.\<close>

definition check_authData ::
    "crypto \<Rightarrow> string \<Rightarrow> bytes \<Rightarrow> Certificate \<Rightarrow> string option \<Rightarrow> string + Verdict" where
  "check_authData C appID authData leaf verifyErr =
     (let trustedRoot = (verifyErr = None) in
      case parseAppAttestAuthData authData of
        Err e \<Rightarrow> Ok ((rejected trustedRoot (''parse authData: '' @ e))\<lparr>vd_Verified := trustedRoot\<rparr>)
      | Ok ad \<Rightarrow>
          if \<not> bytesEqualConstantTime (au_rpIDHash ad) (sha256 C (bytes_of appID)) then
            Ok (rejected trustedRoot ''rpIdHash does not match SHA256(policy.appId)'')
          else (case crt_PublicKey leaf of
              OtherKey \<Rightarrow> Ok (rejected False ''leaf cert public key is not ECDSA'')
            | EcdsaKey pub bitSize \<Rightarrow>
                (case marshalUncompressed pub ((bitSize + 7) div 8) of
                   Err e \<Rightarrow> Err e
                 | Ok pubUncompressed \<Rightarrow>
                     if \<not> bytesEqualConstantTime (au_credentialID ad) (sha256 C pubUncompressed) then
                       Ok (rejected trustedRoot ''credentialId does not match SHA256(leaf pubkey)'')
                     else if \<not> bytesEqualConstantTime (au_aaguid ad) aaguidProd \<and> \<not> bytesEqualConstantTime (au_aaguid ad) aaguidDev then
                       Ok (rejected trustedRoot (''aaguid is not an Apple App Attest value: '' @ hex_EncodeToString (au_aaguid ad)))
                     else Ok (zero_verdict\<lparr>vd_Verified := trustedRoot, vd_TrustedRoot := trustedRoot,
                         vd_SecurityLevel := ''strongbox'', vd_HardwareBacked := True,
                         vd_Reason := (case verifyErr of
                             None \<Rightarrow> ''App Attest chain verified against Apple root; aaguid=''
                               @ (if bytesEqualConstantTime (au_aaguid ad) aaguidProd then ''prod'' else ''dev'')
                           | Some e \<Rightarrow> ''chain does not anchor at Apple App Attest root: '' @ e)\<rparr>))))"

definition verifyWithAppID ::
    "x509 \<Rightarrow> crypto \<Rightarrow> (bytes \<Rightarrow> string + appAttestObject) \<Rightarrow> Certificate list option \<Rightarrow> time
     \<Rightarrow> AttestationBlob \<Rightarrow> string \<Rightarrow> string + Verdict" where
  "verifyWithAppID X C decodeAppAttestObject v_roots now blob appID =
     (if ab_Platform blob \<noteq> ''IOS'' then Ok (rejected False ''non-iOS platform'')
      else if ab_Token blob = '''' then Ok (rejected False ''empty token'')
      else case v_roots of
        None \<Rightarrow> Ok (rejected False ''verifier has no roots pool configured'')
      | Some roots \<Rightarrow>
      if appID = '''' then Ok (rejected False ''apple-app-attest requires policy.appId (TEAMID.bundle.id); none configured'')
      else (case DecodeString (ab_Token blob) of
        None \<Rightarrow> Err ''decode token base64''
      | Some tokenBytes \<Rightarrow>
      (case DecodeString (ab_Nonce blob) of
        None \<Rightarrow> Err ''decode nonce base64''
      | Some challengeBytes \<Rightarrow>
      (case decodeAppAttestObject tokenBytes of
        Err e \<Rightarrow> Err (''decode CBOR attestation: '' @ e)
      | Ok att \<Rightarrow>
      if aa_Fmt att \<noteq> ''apple-appattest'' then Ok (rejected False (''unexpected fmt: '' @ aa_Fmt att))
      else if aa_X5c att = [] then Ok (rejected False ''empty x5c chain'')
      else (case parse_x5c X 0 (aa_X5c att) of
        Err e \<Rightarrow> Err e
      | Ok chain \<Rightarrow>
      (case bad_link X 0 chain of
        Some (i, err) \<Rightarrow> Ok (rejected False (link_reason i err))
      | None \<Rightarrow>
          let leaf = hd chain; verifyErr = Certificate_Verify X roots (tl chain) now leaf; trustedRoot = (verifyErr = None);
              clientDataHash = sha256 C challengeBytes;
              expectedNonce = sha256 C (aa_AuthData att @ clientDataHash) in
          (case extractAppAttestNonce leaf of
             Err e \<Rightarrow> Ok (rejected False (''extract credCert nonce: '' @ e))
           | Ok extractedNonce \<Rightarrow>
               if \<not> bytesEqualConstantTime expectedNonce extractedNonce then
                 Ok (rejected trustedRoot ''credCert nonce mismatch (challenge does not match attestation)'')
               else check_authData C appID (aa_AuthData att) leaf verifyErr)))))))"

section \<open>What the parts do\<close>

lemma xor_eq_zero: "(x :: byte) XOR y = 0 \<longleftrightarrow> x = y"
  by (metis xor.assoc xor.right_neutral xor_self_eq)

lemma diff_zero:
  "length a = length b \<Longrightarrow> foldl (\<lambda>diff (x, y). diff OR (x XOR y)) d (zip a b) = (0 :: byte) \<longleftrightarrow> d = 0 \<and> a = b"
  by (induction a b arbitrary: d rule: list_induct2) (auto simp: or_eq_0_iff xor_eq_zero)

lemma bytesEqual_iff [simp]: "bytesEqualConstantTime a b \<longleftrightarrow> a = b"
  by (auto simp: bytesEqualConstantTime_def diff_zero)

lemma parse_x5c_iff: "parse_x5c X i ds = Ok chain \<longleftrightarrow> list_all2 (\<lambda>d c. ParseCertificate X d = Ok c) ds chain"
  by (induction X i ds arbitrary: chain rule: parse_x5c.induct) (auto simp: list_all2_Cons1 split: sum.splits)

text \<open>The layout of authenticator data; bytes after the credential identifier are ignored.\<close>

definition authData_layout :: "appAttestAuthData \<Rightarrow> bytes \<Rightarrow> bytes" where
  "authData_layout ad extra =
     au_rpIDHash ad @ au_flags ad # word_bytes 4 (au_signCounter ad) @ au_aaguid ad
       @ word_bytes 2 (length (au_credentialID ad)) @ au_credentialID ad @ extra"

definition authData_wf :: "appAttestAuthData \<Rightarrow> bool" where
  "authData_wf ad \<longleftrightarrow> length (au_rpIDHash ad) = 32 \<and> au_flags ad AND 64 \<noteq> 0 \<and> au_signCounter ad = 0 \<and>
     length (au_aaguid ad) = 16 \<and> length (au_credentialID ad) < 65536"

lemma drop_split: "drop i raw = take k (drop i raw) @ drop (i + k) raw"
  by (metis add.commute append_take_drop_id drop_drop)

lemma authData_split:
  assumes "55 \<le> length raw"
  shows "raw = take 32 raw @ raw ! 32 # take 4 (drop 33 raw) @ take 16 (drop 37 raw)
      @ take 2 (drop 53 raw) @ take n (drop 55 raw) @ drop (55 + n) raw"
proof -
  have "drop 32 raw = raw ! 32 # drop 33 raw" using assms by (simp add: Cons_nth_drop_Suc [symmetric])
  then show ?thesis
    using drop_split [of 0 raw 32] drop_split [of 33 raw 4] drop_split [of 37 raw 16] drop_split [of 53 raw 2] drop_split [of 55 raw n]
    by simp
qed

text \<open>The parser accepts exactly the inputs of this layout.\<close>

lemma parse_authData_iff:
  "parseAppAttestAuthData raw = Ok ad \<longleftrightarrow> authData_wf ad \<and> (\<exists>extra. raw = authData_layout ad extra)"
proof
  assume h: "parseAppAttestAuthData raw = Ok ad"
  define n where "n = SetBytes (take 2 (drop 53 raw))"
  have l: "55 + n \<le> length raw" and f: "raw ! 32 AND 64 \<noteq> 0" and c: "SetBytes (take 4 (drop 33 raw)) = 0"
    and ad: "ad = \<lparr>au_rpIDHash = take 32 raw, au_flags = raw ! 32, au_signCounter = 0,
          au_aaguid = take 16 (drop 37 raw), au_credentialID = take n (drop 55 raw)\<rparr>"
    using h by (auto simp: parseAppAttestAuthData_def Let_def n_def split: if_splits)
  have "n < 65536" using SetBytes_less [of "take 2 (drop 53 raw)"] l by (simp add: n_def)
  then have "authData_wf ad" using l f by (simp add: authData_wf_def ad)
  moreover have "word_bytes 4 0 = take 4 (drop 33 raw)" using word_bytes_SetBytes [of "take 4 (drop 33 raw)" 4] c l by simp
  moreover have "word_bytes 2 n = take 2 (drop 53 raw)" using word_bytes_SetBytes [of "take 2 (drop 53 raw)" 2] l by (simp add: n_def)
  moreover have "length (take n (drop 55 raw)) = n" using l by simp
  ultimately have "authData_wf ad \<and> raw = authData_layout ad (drop (55 + n) raw)"
    using authData_split [of raw n] l unfolding authData_layout_def ad by simp
  then show "authData_wf ad \<and> (\<exists>extra. raw = authData_layout ad extra)" by blast
next
  assume "authData_wf ad \<and> (\<exists>extra. raw = authData_layout ad extra)"
  then obtain extra where wf: "length (au_rpIDHash ad) = 32" "au_flags ad AND 64 \<noteq> 0" "au_signCounter ad = 0"
      "length (au_aaguid ad) = 16" "length (au_credentialID ad) < 65536" and raw: "raw = authData_layout ad extra"
    by (auto simp: authData_wf_def)
  let ?n = "length (au_credentialID ad)"
  have w: "length (word_bytes 4 0) = 4" "length (word_bytes 2 ?n) = 2" using wf(5) by simp_all
  have "take 32 raw = au_rpIDHash ad" "raw ! 32 = au_flags ad" "take 4 (drop 33 raw) = word_bytes 4 0"
    "take 16 (drop 37 raw) = au_aaguid ad" "take 2 (drop 53 raw) = word_bytes 2 ?n" "take ?n (drop 55 raw) = au_credentialID ad"
    "length raw = 55 + ?n + length extra"
    using wf w by (simp_all add: raw authData_layout_def nth_append drop_Cons')
  then show "parseAppAttestAuthData raw = Ok ad" using wf
    by (simp add: parseAppAttestAuthData_def Let_def)
qed

section \<open>What a verdict is worth\<close>

text \<open>Everything the verifier establishes before it looks at the authenticator data.\<close>

definition anchored_for ::
    "x509 \<Rightarrow> crypto \<Rightarrow> (bytes \<Rightarrow> string + appAttestObject) \<Rightarrow> Certificate list option \<Rightarrow> time \<Rightarrow> AttestationBlob
     \<Rightarrow> appAttestObject \<Rightarrow> Certificate \<Rightarrow> bool" where
  "anchored_for X C dec v_roots now blob att leaf \<longleftrightarrow>
     ab_Platform blob = ''IOS'' \<and> ab_Token blob \<noteq> '''' \<and>
     (\<exists>roots tok chal parents.
        v_roots = Some roots \<and> DecodeString (ab_Token blob) = Some tok \<and> DecodeString (ab_Nonce blob) = Some chal \<and>
        dec tok = Ok att \<and> aa_Fmt att = ''apple-appattest'' \<and>
        list_all2 (\<lambda>d c. ParseCertificate X d = Ok c) (aa_X5c att) (leaf # parents) \<and>
        chain_linked X (leaf # parents) \<and> chain_anchored X roots now (leaf # parents) \<and>
        extractAppAttestNonce leaf = Ok (sha256 C (aa_AuthData att @ sha256 C chal)))"

text \<open>The authenticator data names this application and the leaf's key.\<close>

definition app_bound :: "crypto \<Rightarrow> string \<Rightarrow> Certificate \<Rightarrow> appAttestAuthData \<Rightarrow> bool" where
  "app_bound C appID leaf ad \<longleftrightarrow>
     au_rpIDHash ad = sha256 C (bytes_of appID) \<and> (au_aaguid ad = aaguidProd \<or> au_aaguid ad = aaguidDev) \<and>
     (\<exists>pub bitSize u. crt_PublicKey leaf = EcdsaKey pub bitSize \<and> marshalUncompressed pub ((bitSize + 7) div 8) = Ok u \<and>
        au_credentialID ad = sha256 C u)"

lemma check_authData_verified:
  "check_authData C appID authData leaf verifyErr = Ok v \<and> vd_Verified v \<longleftrightarrow>
   verifyErr = None \<and>
   (case parseAppAttestAuthData authData of
      Err e \<Rightarrow> v = (rejected True (''parse authData: '' @ e))\<lparr>vd_Verified := True\<rparr>
    | Ok ad \<Rightarrow> app_bound C appID leaf ad \<and>
        v = zero_verdict\<lparr>vd_Verified := True, vd_TrustedRoot := True, vd_SecurityLevel := ''strongbox'', vd_HardwareBacked := True,
          vd_Reason := ''App Attest chain verified against Apple root; aaguid=''
            @ (if au_aaguid ad = aaguidProd then ''prod'' else ''dev'')\<rparr>)"
  unfolding check_authData_def app_bound_def Let_def bytesEqual_iff
  by (cases "verifyErr"; cases "parseAppAttestAuthData authData"; cases "crt_PublicKey leaf")
    (auto simp: rejected_def zero_verdict_def split: sum.splits)

lemma verifyWithAppID_verified:
  "verifyWithAppID X C dec v_roots now blob appID = Ok v \<and> vd_Verified v \<longleftrightarrow>
   appID \<noteq> '''' \<and> (\<exists>att leaf. anchored_for X C dec v_roots now blob att leaf \<and>
     check_authData C appID (aa_AuthData att) leaf None = Ok v \<and> vd_Verified v)"
  (is "?l \<longleftrightarrow> ?r")
proof
  assume l: ?l
  then have p: "ab_Platform blob = ''IOS''" "ab_Token blob \<noteq> ''''" "appID \<noteq> ''''"
    by (auto simp: verifyWithAppID_def rejected_def zero_verdict_def split: if_splits option.splits)
  then obtain roots tok chal att where 1: "v_roots = Some roots" "DecodeString (ab_Token blob) = Some tok"
      "DecodeString (ab_Nonce blob) = Some chal" "dec tok = Ok att"
    using l by (auto simp: verifyWithAppID_def rejected_def zero_verdict_def split: option.splits sum.splits)
  then obtain chain where 2: "aa_Fmt att = ''apple-appattest''" "aa_X5c att \<noteq> []" "parse_x5c X 0 (aa_X5c att) = Ok chain"
      "bad_link X 0 chain = None"
    using l p by (auto simp: verifyWithAppID_def rejected_def zero_verdict_def split: if_splits option.splits sum.splits)
  then obtain leaf parents where c: "chain = leaf # parents" by (cases chain) (auto simp: parse_x5c_iff)
  have 3: "extractAppAttestNonce leaf = Ok (sha256 C (aa_AuthData att @ sha256 C chal))"
      "check_authData C appID (aa_AuthData att) leaf (Certificate_Verify X roots parents now leaf) = Ok v"
    using l p 1 2 c by (auto simp: verifyWithAppID_def rejected_def zero_verdict_def Let_def simp del: bad_link.simps
      split: if_splits sum.splits)
  have "Certificate_Verify X roots parents now leaf = None"
    using 3(2) l by (simp add: check_authData_verified [of C appID _ _ _ v, THEN iffD1])
  moreover from this have "anchored_for X C dec v_roots now blob att leaf"
    unfolding anchored_for_def using p 1 2 3 c by (auto simp: chain_anchored_def bad_link_None parse_x5c_iff)
  ultimately show ?r using p 3 l by auto
next
  assume r: ?r
  then obtain att leaf roots tok chal parents where 1: "ab_Platform blob = ''IOS''" "ab_Token blob \<noteq> ''''" "appID \<noteq> ''''"
      "v_roots = Some roots" "DecodeString (ab_Token blob) = Some tok" "DecodeString (ab_Nonce blob) = Some chal" "dec tok = Ok att"
      "aa_Fmt att = ''apple-appattest''" "parse_x5c X 0 (aa_X5c att) = Ok (leaf # parents)" "bad_link X 0 (leaf # parents) = None"
      "Certificate_Verify X roots parents now leaf = None" "extractAppAttestNonce leaf = Ok (sha256 C (aa_AuthData att @ sha256 C chal))"
      "check_authData C appID (aa_AuthData att) leaf None = Ok v" "vd_Verified v"
    by (auto simp: anchored_for_def parse_x5c_iff bad_link_None chain_anchored_def)
  moreover have "aa_X5c att \<noteq> []" using 1(9) by auto
  ultimately show ?l by (simp add: verifyWithAppID_def Let_def del: bad_link.simps)
qed

section \<open>A sample attestation\<close>

definition sample_app_id :: string where "sample_app_id = ''TEAM.app''"

definition sample_app_key :: PublicKey where
  "sample_app_key = \<lparr>pk_Curve = P256, pk_X = 7, pk_Y = 1\<rparr>"

definition sample_authData :: appAttestAuthData where
  "sample_authData = \<lparr>au_rpIDHash = sha256 sample_crypto (bytes_of sample_app_id), au_flags = 64, au_signCounter = 0,
     au_aaguid = aaguidProd, au_credentialID = sha256 sample_crypto (4 # word_bytes 32 7 @ word_bytes 32 1)\<rparr>"

definition sample_attestation :: "bytes \<Rightarrow> appAttestObject" where
  "sample_attestation authData = \<lparr>aa_Fmt = ''apple-appattest'', aa_X5c = [[7]], aa_Receipt = [], aa_AuthData = authData\<rparr>"

definition sample_app_leaf :: "bytes \<Rightarrow> Certificate" where
  "sample_app_leaf authData = \<lparr>crt_Extensions = [(appleAppAttestOID, der 0 True 16 (der 2 True 1 (der 0 False 4
       (sha256 sample_crypto (authData @ sha256 sample_crypto [9])))))],
     crt_PublicKey = EcdsaKey sample_app_key 256\<rparr>"

definition sample_ios :: AttestationBlob where
  "sample_ios = \<lparr>ab_Platform = ''IOS'', ab_Token = EncodeToString [0, 1, 7], ab_Nonce = EncodeToString [9],
     ab_BoundDevicePk = '''', ab_Proof = ''''\<rparr>"

lemma length_sample_sha [simp]: "length (sha256 sample_crypto m) = 32"
  by (simp add: sample_crypto_def)

lemma sample_ios_anchored:
  "anchored_for (sample_x509 [7] (sample_app_leaf a)) sample_crypto (\<lambda>d. Ok (sample_attestation a)) (Some []) 5 sample_ios
     (sample_attestation a) (sample_app_leaf a)"
proof -
  let ?n = "sha256 sample_crypto (a @ sha256 sample_crypto [9])"
  have "extractAppAttestNonce (sample_app_leaf a) = Ok ?n"
    by (simp add: extractAppAttestNonce_def sample_app_leaf_def parse_raw_der1 TagSequence_def find_element.simps parse_octets_der)
  moreover have "ab_Token sample_ios \<noteq> ''''" using sample_android_token by (simp add: sample_ios_def sample_android_def)
  ultimately show ?thesis
    unfolding anchored_for_def
    by (intro conjI exI [of _ "[]"] exI [of _ "[0, 1, 7]"] exI [of _ "[9]"])
      (simp_all add: sample_ios_def Decode_Encode sample_attestation_def chain_linked_def chain_anchored_def sample_x509_def)
qed

lemma sample_authData_wf: "authData_wf sample_authData"
  by (simp add: authData_wf_def sample_authData_def aaguidProd_def)

lemma sample_app_bound: "app_bound sample_crypto sample_app_id (sample_app_leaf a) sample_authData"
proof -
  have "marshalUncompressed sample_app_key 32 = Ok (4 # word_bytes 32 7 @ word_bytes 32 1)"
    using marshalUncompressed_Ok [of sample_app_key 32] by (simp add: sample_app_key_def)
  then show ?thesis by (simp add: app_bound_def sample_authData_def sample_app_leaf_def)
qed


section \<open>Properties of the verifier\<close>

text \<open>The comparison whose time does not depend on the position of a difference is equality.\<close>

theorem constant_time_comparison_is_equality:
  "bytesEqualConstantTime a b \<longleftrightarrow> a = b"
  by (rule bytesEqual_iff)

text \<open>Authenticator data is accepted exactly when it has the fixed layout - a hash of 32 bytes, flags with
  the attested-credential bit, a counter of zero, an AAGUID of 16 bytes, a credential identifier with
  its length - and the fields are the parts of that layout; the bytes after it are ignored.\<close>

theorem authData_layout_exact:
  "parseAppAttestAuthData raw = Ok ad \<longleftrightarrow> authData_wf ad \<and> (\<exists>extra. raw = authData_layout ad extra)"
  by (rule parse_authData_iff)

text \<open>C23. A verdict of App Attest is verified and hardware-backed exactly when the chain of the attestation is
  signed link by link and anchored at the configured roots, the nonce in the leaf binds the
  authenticator data to the challenge of this request, and that data names the configured
  application, the key of the leaf and an AAGUID of Apple's.\<close>

theorem app_attest_hardware_exactly:
  "verifyWithAppID X C dec v_roots now blob appID = Ok v \<and> vd_Verified v \<and> vd_HardwareBacked v \<longleftrightarrow>
   appID \<noteq> '''' \<and>
   (\<exists>att leaf ad. anchored_for X C dec v_roots now blob att leaf \<and> parseAppAttestAuthData (aa_AuthData att) = Ok ad \<and>
      app_bound C appID leaf ad \<and>
      v = zero_verdict\<lparr>vd_Verified := True, vd_TrustedRoot := True, vd_SecurityLevel := ''strongbox'', vd_HardwareBacked := True,
        vd_Reason := ''App Attest chain verified against Apple root; aaguid=''
          @ (if au_aaguid ad = aaguidProd then ''prod'' else ''dev'')\<rparr>)"
  (is "?l \<longleftrightarrow> ?r")
proof
  assume ?l
  then obtain att leaf where "appID \<noteq> ''''" "anchored_for X C dec v_roots now blob att leaf"
    "check_authData C appID (aa_AuthData att) leaf None = Ok v \<and> vd_Verified v" "vd_HardwareBacked v"
    using verifyWithAppID_verified [of X C dec v_roots now blob appID v] by blast
  then show ?r unfolding check_authData_verified
    by (auto simp: rejected_def zero_verdict_def split: sum.splits)
next
  assume ?r
  then obtain att leaf where "appID \<noteq> ''''" "anchored_for X C dec v_roots now blob att leaf"
    "check_authData C appID (aa_AuthData att) leaf None = Ok v \<and> vd_Verified v" "vd_HardwareBacked v"
    unfolding check_authData_verified by auto
  then show ?l using verifyWithAppID_verified [of X C dec v_roots now blob appID v] by blast
qed

theorem app_attest_hardware_exactly_witness:
  "\<exists>v. verifyWithAppID (sample_x509 [7] (sample_app_leaf (authData_layout sample_authData []))) sample_crypto
      (\<lambda>d. Ok (sample_attestation (authData_layout sample_authData []))) (Some []) 5 sample_ios sample_app_id = Ok v
      \<and> vd_Verified v \<and> vd_HardwareBacked v"
proof -
  let ?a = "authData_layout sample_authData []"
  have "parseAppAttestAuthData (aa_AuthData (sample_attestation ?a)) = Ok sample_authData"
    using sample_authData_wf by (auto simp: sample_attestation_def parse_authData_iff)
  moreover have "sample_app_id \<noteq> ''''" by (simp add: sample_app_id_def)
  ultimately show ?thesis
    using app_attest_hardware_exactly [THEN iffD2] sample_ios_anchored [of ?a] sample_app_bound [of ?a] by blast
qed

text \<open>Authenticator data that does not parse is not a refusal: an attestation whose chain is anchored and
  whose nonce matches is then verified, at a trusted root, for every application identity, which is
  never compared. Only the missing hardware flag tells it from a complete one.\<close>

theorem app_attest_unparsed_data_verified:
  assumes "anchored_for X C dec v_roots now blob att leaf" "parseAppAttestAuthData (aa_AuthData att) = Err e" "appID \<noteq> ''''"
  shows "\<exists>v. verifyWithAppID X C dec v_roots now blob appID = Ok v \<and> vd_Verified v \<and> vd_TrustedRoot v \<and> \<not> vd_HardwareBacked v"
proof -
  let ?v = "(rejected True (''parse authData: '' @ e))\<lparr>vd_Verified := True\<rparr>"
  have "check_authData C appID (aa_AuthData att) leaf None = Ok ?v \<and> vd_Verified ?v"
    unfolding check_authData_verified by (simp add: assms(2))
  then have "verifyWithAppID X C dec v_roots now blob appID = Ok ?v \<and> vd_Verified ?v"
    unfolding verifyWithAppID_verified using assms by blast
  moreover have "vd_TrustedRoot ?v" "\<not> vd_HardwareBacked ?v" by (simp_all add: rejected_def zero_verdict_def)
  ultimately show ?thesis by blast
qed

theorem app_attest_unparsed_data_verified_witness:
  "\<exists>v. verifyWithAppID (sample_x509 [7] (sample_app_leaf [])) sample_crypto (\<lambda>d. Ok (sample_attestation [])) (Some []) 5 sample_ios
      ''OTHER.app'' = Ok v \<and> vd_Verified v"
proof -
  have "parseAppAttestAuthData (aa_AuthData (sample_attestation [])) = Err (''authData too short ('' @ nat_text 0 @ '' bytes; need >= 55)'')"
    by (simp add: parseAppAttestAuthData_def sample_attestation_def)
  from app_attest_unparsed_data_verified [OF sample_ios_anchored this, of "''OTHER.app''"] show ?thesis by auto
qed

end
