(* ===== verification/Service.thy ===== *)
theory Service
  imports Go_Text
begin

text \<open>
  \<^verbatim>\<open>service.go\<close>: the options of a deployment, the systemd unit that is rendered from them and read
  back by the console and the upgrade repair, the status \<^verbatim>\<open>systemctl show\<close> reports, and the
  operations on the service. The service manager and the operating system are arguments.
\<close>

section \<open>White space and lines\<close>

definition newline :: char where "newline = CHR 0x0A"
definition backslash_text :: string where "backslash_text = [CHR 0x5C]"

text \<open>\<open>strings.Fields\<close> and \<open>strings.Cut\<close> at one character.\<close>

function fields_from :: "string \<Rightarrow> string \<Rightarrow> string list" where
  "fields_from word s =
     (case drop_space unicode_spaces s of
        Some s' \<Rightarrow> (if word = [] then fields_from [] s' else word # fields_from [] s')
      | None \<Rightarrow> (case s of [] \<Rightarrow> (if word = [] then [] else [word]) | c # cs \<Rightarrow> fields_from (word @ [c]) cs))"
  by pat_completeness auto
termination by (relation "measure (\<lambda>(word, s). length s)") (auto dest: drop_space_shorter)

declare fields_from.simps [simp del]

definition Fields :: "string \<Rightarrow> string list" where
  "Fields s = fields_from [] s"

fun Cut :: "char \<Rightarrow> string \<Rightarrow> (string \<times> string) option" where
  "Cut c [] = None"
| "Cut c (x # xs) = (if x = c then Some ([], xs) else map_option (\<lambda>(a, b). (x # a, b)) (Cut c xs))"

lemma Cut_None: "c \<notin> set s \<Longrightarrow> Cut c s = None"
  by (induction s) auto

lemma Cut_append: "c \<notin> set s \<Longrightarrow> Cut c (s @ c # t) = Some (s, t)"
  by (induction s) auto


section \<open>Deployment options\<close>

datatype TLSMode = TLSModeBuiltin | TLSModeProxy

definition TLSMode_String :: "TLSMode \<Rightarrow> string" where
  "TLSMode_String m = (if m = TLSModeProxy then ''proxy'' else ''builtin'')"

definition parseTLSMode :: "(string \<Rightarrow> string \<Rightarrow> bool) \<Rightarrow> string \<Rightarrow> TLSMode" where
  "parseTLSMode uni s = (if EqualFold uni (TrimSpace s) ''proxy'' then TLSModeProxy else TLSModeBuiltin)"

record DeployOpts =
  do_BinPath :: string
  do_StateDir :: string
  do_Mode :: TLSMode
  do_Domain :: string
  do_AcmeEmail :: string
  do_Addr :: string

definition zero_opts :: DeployOpts where
  "zero_opts = \<lparr>do_BinPath = '''', do_StateDir = '''', do_Mode = TLSModeBuiltin, do_Domain = '''', do_AcmeEmail = '''', do_Addr = ''''\<rparr>"

definition serviceName :: string where "serviceName = ''creator-server''"
definition serviceUnitPath :: string where "serviceUnitPath = ''/etc/systemd/system/creator-server.service''"
definition serviceUser :: string where "serviceUser = ''creator''"
definition defaultBinPath :: string where "defaultBinPath = ''/usr/local/bin/creator-server''"
definition defaultProxyAddr :: string where "defaultProxyAddr = ''127.0.0.1:8443''"
definition defaultConsoleStateDir :: string where "defaultConsoleStateDir = ''/var/lib/creator-server''"

definition withDefaults :: "DeployOpts \<Rightarrow> DeployOpts" where
  "withDefaults o1 =
     (let o2 = (if do_BinPath o1 = '''' then o1\<lparr>do_BinPath := defaultBinPath\<rparr> else o1);
          o3 = (if do_StateDir o2 = '''' then o2\<lparr>do_StateDir := defaultConsoleStateDir\<rparr> else o2)
      in if do_Mode o3 = TLSModeProxy \<and> do_Addr o3 = '''' then o3\<lparr>do_Addr := defaultProxyAddr\<rparr> else o3)"

definition PublicURL :: "DeployOpts \<Rightarrow> string" where
  "PublicURL d = (if do_Domain d = '''' then '''' else ''https://'' @ do_Domain d)"

definition IssuerURL :: "DeployOpts \<Rightarrow> string" where
  "IssuerURL d = (if do_Domain d = '''' then '''' else PublicURL d @ ''/v1/issue'')"

definition RedeemURL :: "DeployOpts \<Rightarrow> string" where
  "RedeemURL d = (if do_Domain d = '''' then '''' else PublicURL d @ ''/v1/redeem'')"


section \<open>The unit file\<close>

definition execStartLine :: "DeployOpts \<Rightarrow> string" where
  "execStartLine d0 =
     (let d = withDefaults d0 in
      case do_Mode d of
        TLSModeProxy \<Rightarrow> do_BinPath d @ '' -addr '' @ do_Addr d @ '' -state-dir '' @ do_StateDir d
          @ '' -public-issuer-url '' @ IssuerURL d
      | TLSModeBuiltin \<Rightarrow>
          let line = do_BinPath d @ '' -state-dir '' @ do_StateDir d @ '' -domain '' @ do_Domain d
          in if do_AcmeEmail d \<noteq> '''' then line @ '' -acme-email '' @ do_AcmeEmail d else line)"

text \<open>The lines of the template; the comment has a dash that takes three bytes.\<close>

definition unit_lines :: "string \<Rightarrow> string \<Rightarrow> string \<Rightarrow> string \<Rightarrow> string list" where
  "unit_lines execStart stateDir capBounding capAmbient =
     [''[Unit]'',
      ''Description=NpvTunnel creator-server (issuer + share-link redemption)'',
      ''After=network-online.target'',
      ''Wants=network-online.target'',
      '''',
      ''[Service]'',
      ''Type=simple'',
      ''User='' @ serviceUser,
      ''Group='' @ serviceUser,
      ''ExecStart='' @ execStart,
      ''Restart=on-failure'',
      ''RestartSec=2'',
      '''',
      ''# Hardening '' @ map (\<lambda>n. char_of (n :: nat)) [226, 128, 148] @ '' the process only needs to read/write its state dir.'',
      ''NoNewPrivileges=true'',
      ''ProtectSystem=strict'',
      ''ProtectHome=true'',
      ''PrivateTmp=true'',
      ''PrivateDevices=true'',
      ''ProtectKernelTunables=true'',
      ''ProtectControlGroups=true'',
      ''RestrictAddressFamilies=AF_INET AF_INET6'',
      ''ReadWritePaths='' @ stateDir,
      ''CapabilityBoundingSet='' @ capBounding,
      ''AmbientCapabilities='' @ capAmbient,
      '''',
      ''[Install]'',
      ''WantedBy=multi-user.target'']"

definition lines_text :: "string list \<Rightarrow> string" where
  "lines_text ls = concat (map (\<lambda>l. l @ [newline]) ls)"

definition renderUnitFileWithExecStart :: "DeployOpts \<Rightarrow> string \<Rightarrow> string" where
  "renderUnitFileWithExecStart d0 execStart =
     (let d = withDefaults d0;
          cap = (if do_Mode d = TLSModeBuiltin then ''CAP_NET_BIND_SERVICE'' else '''')
      in lines_text (unit_lines execStart (do_StateDir d) cap cap))"

definition renderUnitFile :: "DeployOpts \<Rightarrow> string" where
  "renderUnitFile d0 = (let d = withDefaults d0 in renderUnitFileWithExecStart d (execStartLine d))"


section \<open>Reading a unit back\<close>

text \<open>The inner loop of \<open>extractExecStartLine\<close>: lines are joined while the command ends with a backslash.\<close>

fun join_continuations :: "string \<Rightarrow> string list \<Rightarrow> string" where
  "join_continuations cmd [] =
     (if HasSuffix (TrimSpace cmd) backslash_text then TrimSuffix (TrimSpace cmd) backslash_text else cmd)"
| "join_continuations cmd (l # ls) =
     (if HasSuffix (TrimSpace cmd) backslash_text
      then join_continuations (TrimSuffix (TrimSpace cmd) backslash_text @ '' '' @ TrimSpace l) ls
      else cmd)"

fun find_exec :: "string list \<Rightarrow> string" where
  "find_exec [] = ''''"
| "find_exec (l # ls) =
     (let trimmed = TrimSpace l in
      if \<not> HasPrefix trimmed ''ExecStart='' then find_exec ls
      else Join '' '' (Fields (join_continuations (TrimPrefix trimmed ''ExecStart='') ls)))"

definition extractExecStartLine :: "string \<Rightarrow> string" where
  "extractExecStartLine unitText = find_exec (Split newline unitText)"

fun normalizeFlagTokens :: "string list \<Rightarrow> string list" where
  "normalizeFlagTokens [] = []"
| "normalizeFlagTokens (tok # toks) =
     (if HasPrefix tok ''-'' then
        (case Cut (CHR ''='') tok of
           Some (k, v) \<Rightarrow> k # v # normalizeFlagTokens toks
         | None \<Rightarrow> tok # normalizeFlagTokens toks)
      else tok # normalizeFlagTokens toks)"

definition domainFromURL :: "string \<Rightarrow> string" where
  "domainFromURL u0 =
     (let u1 = TrimPrefix u0 ''https://''; u2 = TrimPrefix u1 ''http://''
      in takeWhile (\<lambda>c. c \<noteq> CHR ''/'') u2)"

text \<open>The value of a flag: the next token, if there is one.\<close>

fun flag_val :: "string list \<Rightarrow> string \<times> string list" where
  "flag_val [] = ('''', [])"
| "flag_val (v # vs) = (v, vs)"

lemma flag_val_shorter: "length (snd (flag_val fs)) \<le> length fs"
  by (cases fs) auto

function parse_flags :: "DeployOpts \<Rightarrow> bool \<Rightarrow> string list \<Rightarrow> DeployOpts \<times> bool" where
  "parse_flags d sawDomain [] = (d, sawDomain)"
| "parse_flags d sawDomain (f # fs) =
     (let v = fst (flag_val fs); rest = snd (flag_val fs) in
      if f \<in> {''-domain'', ''--domain''} then parse_flags (d\<lparr>do_Domain := v\<rparr>) True rest
      else if f \<in> {''-acme-email'', ''--acme-email''} then parse_flags (d\<lparr>do_AcmeEmail := v\<rparr>) sawDomain rest
      else if f \<in> {''-state-dir'', ''--state-dir''} then parse_flags (d\<lparr>do_StateDir := v\<rparr>) sawDomain rest
      else if f \<in> {''-addr'', ''--addr''} then parse_flags (d\<lparr>do_Addr := v\<rparr>) sawDomain rest
      else if f \<in> {''-public-issuer-url'', ''--public-issuer-url''} then
        parse_flags (if do_Domain d = '''' then d\<lparr>do_Domain := domainFromURL v\<rparr> else d) sawDomain rest
      else parse_flags d sawDomain fs)"
  by pat_completeness auto
termination
  using flag_val_shorter by (relation "measure (\<lambda>(d, saw, fs). length fs)") (auto simp: le_imp_less_Suc)

definition parseExecStart :: "string \<Rightarrow> DeployOpts" where
  "parseExecStart execStart =
     (let fields = normalizeFlagTokens (Fields execStart);
          o0 = (case fields of [] \<Rightarrow> zero_opts | b # _ \<Rightarrow> zero_opts\<lparr>do_BinPath := b\<rparr>);
          r = parse_flags o0 False (drop 1 fields)
      in withDefaults ((fst r)\<lparr>do_Mode := (if snd r then TLSModeBuiltin else TLSModeProxy)\<rparr>))"

text \<open>\<open>None\<close>: the unit cannot be read, or has no command; the argument is what reading the file gives.\<close>

definition adoptFromUnit :: "bytes option \<Rightarrow> DeployOpts option" where
  "adoptFromUnit data =
     (case data of None \<Rightarrow> None
      | Some d \<Rightarrow>
          let line = extractExecStartLine (string_of d) in
          if line = '''' then None else Some (parseExecStart line))"

section \<open>Words and lines survive\<close>

definition plain_word :: "string \<Rightarrow> bool" where
  "plain_word w \<longleftrightarrow> w \<noteq> [] \<and> list_all plain_char w \<and> CHR 0x5C \<notin> set w"

lemma fields_from_plain: "list_all plain_char w \<Longrightarrow> fields_from acc (w @ rest) = fields_from (acc @ w) rest"
proof (induction w arbitrary: acc)
  case (Cons c w)
  then have "drop_space unicode_spaces (c # w @ rest) = None"
    using drop_space_plain [of "c # w @ rest" unicode_spaces] unicode_spaces_not_plain by auto
  then show ?case using Cons by (simp add: fields_from.simps [of acc "c # w @ rest"])
qed simp

lemma fields_from_space: "word \<noteq> [] \<Longrightarrow> fields_from word (CHR '' '' # s) = word # fields_from [] s"
  by (simp add: fields_from.simps [of word "CHR '' '' # s"] drop_space_def ascii_space_def)

lemma fields_from_end: "word \<noteq> [] \<Longrightarrow> fields_from word [] = [word]"
  by (simp add: fields_from.simps [of word "[]"] drop_space_def)

lemma Fields_Join: "list_all plain_word ws \<Longrightarrow> Fields (Join '' '' ws) = ws"
proof (induction ws rule: induct_list012)
  case 1
  then show ?case by (simp add: Fields_def fields_from.simps [of "[]" "[]"] drop_space_def)
next
  case (2 w)
  then show ?case using fields_from_plain [of w "[]" "[]"] by (simp add: Fields_def plain_word_def fields_from_end)
next
  case (3 w v ws)
  then have "Fields (Join '' '' (w # v # ws)) = fields_from w (CHR '' '' # Join '' '' (v # ws))"
    using fields_from_plain [of w "[]" "CHR '' '' # Join '' '' (v # ws)"] by (simp add: Fields_def plain_word_def)
  then show ?case using 3 by (simp add: fields_from_space plain_word_def Fields_def)
qed

lemma Join_ends:
  "list_all plain_word ws \<Longrightarrow> ws \<noteq> [] \<Longrightarrow>
   Join '' '' ws \<noteq> [] \<and> plain_char (hd (Join '' '' ws)) \<and> plain_char (last (Join '' '' ws)) \<and> last (Join '' '' ws) \<noteq> CHR 0x5C"
proof (induction ws rule: induct_list012)
  case (2 w)
  then have "w \<noteq> []" "\<forall>c \<in> set w. plain_char c \<and> c \<noteq> CHR 0x5C" by (auto simp: plain_word_def list_all_iff)
  then show ?case using hd_in_set [of w] last_in_set [of w] by auto
next
  case (3 w v ws)
  then show ?case by (cases w) (auto simp: plain_word_def)
qed simp

lemma not_newline_plain: "plain_char c \<Longrightarrow> c \<noteq> newline"
  by (auto simp: plain_char_def newline_def)

lemma Join_no_newline: "list_all plain_word ws \<Longrightarrow> newline \<notin> set (Join '' '' ws)"
  by (induction ws rule: induct_list012)
    (auto simp: plain_word_def list_all_iff dest: not_newline_plain, auto simp: newline_def)

lemma Split_lines_text: "\<forall>l \<in> set ls. newline \<notin> set l \<Longrightarrow> Split newline (lines_text ls) = ls @ ['''']"
  by (induction ls) (auto simp: lines_text_def Split_append_sep)

lemma HasSuffix_backslash: "HasSuffix s backslash_text \<longleftrightarrow> s \<noteq> [] \<and> last s = CHR 0x5C"
  by (cases s rule: rev_cases) (auto simp: HasSuffix_def backslash_text_def)

lemma join_continuations_end:
  assumes "cmd \<noteq> []" "plain_char (hd cmd)" "plain_char (last cmd)" "last cmd \<noteq> CHR 0x5C"
  shows "join_continuations cmd ls = cmd"
proof -
  have "TrimSpace cmd = cmd" using assms by (intro TrimSpace_plain) simp
  then show ?thesis using assms by (cases ls) (simp_all add: HasSuffix_backslash)
qed

text \<open>Lines before the command that the search passes over.\<close>

definition passed_over :: "string \<Rightarrow> bool" where
  "passed_over l \<longleftrightarrow> (l = [] \<or> plain_char (hd l) \<and> plain_char (last l)) \<and> \<not> HasPrefix l ''ExecStart=''"

lemma find_exec_skip: "list_all passed_over ls \<Longrightarrow> find_exec (ls @ rest) = find_exec rest"
proof (induction ls)
  case (Cons l ls)
  then have "TrimSpace l = l" by (intro TrimSpace_plain) (auto simp: passed_over_def)
  then show ?case using Cons by (simp add: passed_over_def)
qed simp

definition unit_head :: "string list" where
  "unit_head = take 9 (unit_lines '''' '''' '''' '''')"

lemma unit_head_passed: "list_all passed_over unit_head"
  by code_simp

lemma unit_lines_split: "unit_lines e dir a b = unit_head @ (''ExecStart='' @ e) # drop 10 (unit_lines e dir a b)"
  by (simp add: unit_head_def unit_lines_def)

lemma find_exec_command:
  assumes "list_all plain_word ws" "ws \<noteq> []"
  shows "find_exec ((''ExecStart='' @ Join '' '' ws) # ls) = Join '' '' ws"
proof -
  note e = Join_ends [OF assms]
  have "TrimSpace (''ExecStart='' @ Join '' '' ws) = ''ExecStart='' @ Join '' '' ws"
    using e by (intro TrimSpace_plain) (simp add: plain_char_def)
  moreover have "join_continuations (Join '' '' ws) ls = Join '' '' ws"
    using e by (intro join_continuations_end) auto
  ultimately show ?thesis
    by (simp only: find_exec.simps Let_def HasPrefix_append TrimPrefix_append not_True_eq_False if_False Fields_Join [OF assms(1)])
qed

lemma unit_lines_no_newline:
  assumes "newline \<notin> set e" "newline \<notin> set dir" "newline \<notin> set a" "newline \<notin> set b"
  shows "\<forall>l \<in> set (unit_lines e dir a b). newline \<notin> set l"
proof -
  have "list_all (\<lambda>l. newline \<notin> set l) (unit_lines '''' '''' '''' '''')" by code_simp
  then show ?thesis using assms by (simp add: unit_lines_def)
qed

text \<open>The command of a rendered unit is read back as it was.\<close>

lemma extract_unit_lines:
  assumes ws: "list_all plain_word ws" "ws \<noteq> []" and nl: "newline \<notin> set dir" "newline \<notin> set a" "newline \<notin> set b"
  shows "extractExecStartLine (lines_text (unit_lines (Join '' '' ws) dir a b)) = Join '' '' ws"
proof -
  let ?ls = "unit_lines (Join '' '' ws) dir a b"
  have "extractExecStartLine (lines_text ?ls) = find_exec (?ls @ [''''])"
    using unit_lines_no_newline [OF Join_no_newline [OF ws(1)] nl] by (simp add: extractExecStartLine_def Split_lines_text)
  also have "\<dots> = find_exec (unit_head @ ((''ExecStart='' @ Join '' '' ws) # drop 10 ?ls @ ['''']))"
    by (subst unit_lines_split) (simp only: append_assoc append_Cons)
  also have "\<dots> = Join '' '' ws"
    by (simp only: find_exec_skip [OF unit_head_passed] find_exec_command [OF ws])
  finally show ?thesis .
qed

section \<open>A deployment survives its unit\<close>

text \<open>Option values without white space, backslashes or a leading dash, and a domain that is a host name.\<close>

definition plain_option :: "string \<Rightarrow> bool" where
  "plain_option s \<longleftrightarrow> list_all plain_char s \<and> CHR 0x5C \<notin> set s \<and> \<not> HasPrefix s ''-''"

definition plain_opts :: "DeployOpts \<Rightarrow> bool" where
  "plain_opts d \<longleftrightarrow> plain_option (do_BinPath d) \<and> plain_option (do_StateDir d) \<and> plain_option (do_AcmeEmail d) \<and>
     plain_option (do_Addr d) \<and> plain_option (do_Domain d) \<and> do_Domain d \<noteq> '''' \<and> CHR ''/'' \<notin> set (do_Domain d)"

text \<open>A unit keeps what its mode uses: the address of a proxy, or the contact of a built-in certificate.\<close>

definition kept_opts :: "DeployOpts \<Rightarrow> DeployOpts" where
  "kept_opts d = (let e = withDefaults d in
     if do_Mode e = TLSModeBuiltin then e\<lparr>do_Addr := ''''\<rparr> else e\<lparr>do_AcmeEmail := ''''\<rparr>)"

definition command_words :: "DeployOpts \<Rightarrow> string list" where
  "command_words d = (let e = withDefaults d in
     case do_Mode e of
       TLSModeProxy \<Rightarrow> [do_BinPath e, ''-addr'', do_Addr e, ''-state-dir'', do_StateDir e, ''-public-issuer-url'', IssuerURL e]
     | TLSModeBuiltin \<Rightarrow> [do_BinPath e, ''-state-dir'', do_StateDir e, ''-domain'', do_Domain e]
         @ (if do_AcmeEmail e = '''' then [] else [''-acme-email'', do_AcmeEmail e]))"

lemma defaults_not_Nil [simp]: "defaultBinPath \<noteq> ''''" "defaultConsoleStateDir \<noteq> ''''" "defaultProxyAddr \<noteq> ''''"
  by (simp_all add: defaultBinPath_def defaultConsoleStateDir_def defaultProxyAddr_def)

lemma withDefaults_record:
  "withDefaults \<lparr>do_BinPath = b, do_StateDir = s, do_Mode = m, do_Domain = h, do_AcmeEmail = e, do_Addr = a\<rparr> =
     \<lparr>do_BinPath = (if b = '''' then defaultBinPath else b), do_StateDir = (if s = '''' then defaultConsoleStateDir else s),
      do_Mode = m, do_Domain = h, do_AcmeEmail = e, do_Addr = (if m = TLSModeProxy \<and> a = '''' then defaultProxyAddr else a)\<rparr>"
  by (simp add: withDefaults_def Let_def)

lemma withDefaults_idem [simp]: "withDefaults (withDefaults d) = withDefaults d"
  by (cases d) (simp add: withDefaults_record)

lemma withDefaults_fields [simp]:
  "do_Mode (withDefaults d) = do_Mode d" "do_Domain (withDefaults d) = do_Domain d" "do_AcmeEmail (withDefaults d) = do_AcmeEmail d"
  "do_BinPath (withDefaults d) \<noteq> ''''" "do_StateDir (withDefaults d) \<noteq> ''''"
  "do_Mode d = TLSModeProxy \<Longrightarrow> do_Addr (withDefaults d) \<noteq> ''''"
  by (cases d, simp add: withDefaults_record)+

lemma withDefaults_plain: "plain_opts d \<Longrightarrow> plain_opts (withDefaults d)"
proof -
  have "plain_option defaultBinPath" "plain_option defaultConsoleStateDir" "plain_option defaultProxyAddr" by code_simp+
  then show "plain_opts d \<Longrightarrow> plain_opts (withDefaults d)"
    by (cases d) (simp add: plain_opts_def withDefaults_record)
qed

lemma execStartLine_words: "execStartLine d = Join '' '' (command_words d)"
proof (cases "do_Mode d")
  case TLSModeBuiltin
  then show ?thesis by (cases "do_AcmeEmail d") (simp_all add: execStartLine_def command_words_def Let_def)
next
  case TLSModeProxy
  then show ?thesis by (simp add: execStartLine_def command_words_def Let_def)
qed

lemma IssuerURL_plain: "plain_opts d \<Longrightarrow> plain_option (IssuerURL d)"
proof -
  assume p: "plain_opts d"
  have "plain_option (''https://'')" "plain_option (''/v1/issue'')" by code_simp+
  then show ?thesis using p by (simp add: IssuerURL_def PublicURL_def plain_option_def plain_opts_def HasPrefix_def)
qed

lemma plain_option_word: "plain_option s \<Longrightarrow> s \<noteq> '''' \<Longrightarrow> plain_word s"
  by (simp add: plain_option_def plain_word_def)

lemma command_words_plain: "plain_opts d \<Longrightarrow> list_all plain_word (command_words d) \<and> command_words d \<noteq> []"
proof -
  assume p: "plain_opts d"
  note q = withDefaults_plain [OF p] and u = IssuerURL_plain [OF withDefaults_plain [OF p]]
  have "IssuerURL (withDefaults d) \<noteq> ''''" using p by (simp add: IssuerURL_def PublicURL_def plain_opts_def)
  moreover have "list_all plain_word [''-addr'', ''-state-dir'', ''-public-issuer-url'', ''-domain'', ''-acme-email'']" by code_simp
  moreover have "plain_word (do_BinPath (withDefaults d))" "plain_word (do_StateDir (withDefaults d))" "plain_word (do_Domain d)"
    "do_Mode d = TLSModeProxy \<Longrightarrow> plain_word (do_Addr (withDefaults d))"
    "do_AcmeEmail d \<noteq> '''' \<Longrightarrow> plain_word (do_AcmeEmail d)"
    using p q by (auto simp: plain_opts_def intro!: plain_option_word)
  ultimately show ?thesis using u
    by (auto simp: command_words_def Let_def plain_option_word split: TLSMode.split)
qed

lemma normalize_plain: "plain_option s \<Longrightarrow> normalizeFlagTokens (s # ts) = s # normalizeFlagTokens ts"
  by (simp add: plain_option_def)

lemma normalize_flag: "CHR ''='' \<notin> set f \<Longrightarrow> normalizeFlagTokens (f # ts) = f # normalizeFlagTokens ts"
  by (simp add: Cut_None)

lemma normalize_command: "plain_opts d \<Longrightarrow> normalizeFlagTokens (command_words d) = command_words d"
proof -
  assume p: "plain_opts d"
  note q = withDefaults_plain [OF p, unfolded plain_opts_def] and u = IssuerURL_plain [OF withDefaults_plain [OF p]]
  show ?thesis
    using q u by (auto simp: command_words_def Let_def normalize_plain normalize_flag simp del: normalizeFlagTokens.simps(2)
      split: TLSMode.split)
qed

lemma takeWhile_until: "c \<notin> set s \<Longrightarrow> takeWhile (\<lambda>x. x \<noteq> c) (s @ c # t) = s"
  by (induction s) auto

lemma domainFromURL_IssuerURL: "plain_opts d \<Longrightarrow> domainFromURL (IssuerURL d) = do_Domain d"
proof -
  assume p: "plain_opts d"
  then have u: "IssuerURL d = ''https://'' @ (do_Domain d @ ''/v1/issue'')" "CHR ''/'' \<notin> set (do_Domain d)"
    by (simp_all add: IssuerURL_def PublicURL_def plain_opts_def)
  have "\<not> HasPrefix (do_Domain d @ ''/v1/issue'') ''http://''"
  proof
    assume "HasPrefix (do_Domain d @ ''/v1/issue'') ''http://''"
    then obtain r where r: "do_Domain d @ ''/v1/issue'' = ''http://'' @ r"
      unfolding HasPrefix_def by (metis append_take_drop_id)
    then have "takeWhile (\<lambda>c. c \<noteq> CHR ''/'') (do_Domain d @ ''/v1/issue'') = ''http:''" by simp
    moreover have "takeWhile (\<lambda>c. c \<noteq> CHR ''/'') (do_Domain d @ ''/v1/issue'') = do_Domain d"
      using takeWhile_until [OF u(2)] by simp
    ultimately have "do_Domain d = ''http:''" by simp
    then show False using r by simp
  qed
  moreover have "TrimPrefix (IssuerURL d) ''https://'' = do_Domain d @ ''/v1/issue''" unfolding u(1) by (rule TrimPrefix_append)
  ultimately show ?thesis
    using takeWhile_until [OF u(2), of "''v1/issue''"] by (simp add: domainFromURL_def TrimPrefix_def [of "do_Domain d @ _"])
qed

lemma render_extract:
  assumes "plain_opts d"
  shows "extractExecStartLine (renderUnitFile d) = execStartLine d"
proof -
  have "list_all plain_char (do_StateDir (withDefaults d))"
    using withDefaults_plain [OF assms] by (simp add: plain_opts_def plain_option_def)
  then have nl: "newline \<notin> set (do_StateDir (withDefaults d))" using not_newline_plain by (auto simp: list_all_iff)
  have "newline \<notin> set ''CAP_NET_BIND_SERVICE''" "newline \<notin> set ''''" by (simp_all add: newline_def)
  then have cap: "newline \<notin> set (if do_Mode d = TLSModeBuiltin then ''CAP_NET_BIND_SERVICE'' else '''')" by simp
  have w: "execStartLine (withDefaults d) = Join '' '' (command_words d)" "execStartLine d = Join '' '' (command_words d)"
    by (simp_all add: execStartLine_words command_words_def)
  show ?thesis
    using extract_unit_lines [OF command_words_plain [OF assms, THEN conjunct1] command_words_plain [OF assms, THEN conjunct2] nl cap cap]
    by (simp add: renderUnitFile_def renderUnitFileWithExecStart_def w Let_def)
qed

lemma parse_command:
  assumes "plain_opts d"
  shows "parseExecStart (execStartLine d) = kept_opts d"
proof -
  let ?e = "withDefaults d"
  have f: "normalizeFlagTokens (Fields (execStartLine d)) = command_words d"
    using command_words_plain [OF assms] by (simp add: execStartLine_words Fields_Join normalize_command [OF assms])
  have u: "domainFromURL (IssuerURL ?e) = do_Domain d" using domainFromURL_IssuerURL [OF withDefaults_plain [OF assms]] by simp
  show ?thesis
  proof (cases d)
    case (fields b s m h e a)
    then show ?thesis using f u
      by (cases m; cases "e = ''''")
        (simp_all add: parseExecStart_def command_words_def kept_opts_def Let_def withDefaults_record zero_opts_def)
  qed
qed

end
