(* ===== verification/Service_Control.thy ===== *)
theory Service_Control
  imports Service Wire_Types
begin

text \<open>
  The second half of \<^verbatim>\<open>service.go\<close>: the status of the unit, the service controller as an interface and
  as the driver of \<^verbatim>\<open>systemctl\<close>, the repair of an installed unit, and the private command line the
  console reaches through sudo.
\<close>

section \<open>Status\<close>

text \<open>\<open>ss_Since\<close> is \<open>None\<close> for the zero time.\<close>

record ServiceStatus =
  ss_Loaded :: bool
  ss_Active :: bool
  ss_ActiveState :: string
  ss_SubState :: string
  ss_MainPID :: int
  ss_Since :: "time option"
  ss_Result :: string

definition Running :: "ServiceStatus \<Rightarrow> bool" where
  "Running s = (ss_Active s \<and> ss_SubState s = ''running'')"

definition Failed :: "ServiceStatus \<Rightarrow> bool" where
  "Failed s = (ss_ActiveState s = ''failed'' \<or> ss_SubState s = ''failed'')"

definition systemctlShowProps :: "string list" where
  "systemctlShowProps = [''LoadState'', ''ActiveState'', ''SubState'', ''MainPID'', ''ActiveEnterTimestamp'', ''Result'']"

text \<open>The map of the properties: later lines win, lines without \<^verbatim>\<open>=\<close> are ignored.\<close>

definition show_line :: "(string \<Rightarrow> string) \<Rightarrow> string \<Rightarrow> (string \<Rightarrow> string)" where
  "show_line kv line =
     (case Cut (CHR ''='') (TrimSpace line) of None \<Rightarrow> kv | Some (k, v) \<Rightarrow> kv(k := v))"

definition show_map :: "string \<Rightarrow> (string \<Rightarrow> string)" where
  "show_map showOutput = foldl show_line (\<lambda>k. '''') (Split newline showOutput)"

text \<open>The parser of systemd's timestamps is an argument.\<close>

definition parseServiceStatus :: "(string \<Rightarrow> time option) \<Rightarrow> string \<Rightarrow> ServiceStatus" where
  "parseServiceStatus parse_timestamp showOutput =
     (let kv = show_map showOutput; ts = TrimSpace (kv ''ActiveEnterTimestamp'') in
      \<lparr>ss_Loaded = (kv ''LoadState'' = ''loaded''), ss_Active = (kv ''ActiveState'' = ''active''),
       ss_ActiveState = kv ''ActiveState'', ss_SubState = kv ''SubState'',
       ss_MainPID = (case Atoi (TrimSpace (kv ''MainPID'')) of None \<Rightarrow> 0 | Some pid \<Rightarrow> pid),
       ss_Since = (if ts = '''' then None else parse_timestamp ts),
       ss_Result = kv ''Result''\<rparr>)"

definition formatServiceStatusLine :: "env \<Rightarrow> ServiceStatus \<Rightarrow> string" where
  "formatServiceStatusLine E s =
     (let state = (if ss_ActiveState s = '''' then ''unknown'' else ss_ActiveState s);
          l1 = (if ss_SubState s \<noteq> '''' then state @ '' ('' @ ss_SubState s @ '')'' else state);
          l2 = (case ss_Since s of
                  Some t \<Rightarrow> if Running s then l1 @ '' since '' @ env_format_time E t else l1
                | None \<Rightarrow> l1)
      in if 0 < ss_MainPID s then l2 @ '' pid '' @ Itoa (ss_MainPID s) else l2)"


section \<open>The controller\<close>

text \<open>
  The interface: every operation acts on a state of the machine \<open>'s\<close>, an error is its text.
\<close>

record 's serviceController =
  sc_UnitExists :: "'s \<Rightarrow> bool"
  sc_Install :: "string \<Rightarrow> 's \<Rightarrow> string option \<times> 's"
  sc_EnableNow :: "'s \<Rightarrow> string option \<times> 's"
  sc_Start :: "'s \<Rightarrow> string option \<times> 's"
  sc_Stop :: "'s \<Rightarrow> string option \<times> 's"
  sc_Restart :: "'s \<Rightarrow> string option \<times> 's"
  sc_Status :: "'s \<Rightarrow> string + ServiceStatus"
  sc_Logs :: "int \<Rightarrow> 's \<Rightarrow> string + string list"

text \<open>
  What the driver sees of the machine: the contents of the unit file and the commands that were
  run, in order. The outcomes are arguments: of writing the file (a failure leaves some contents),
  of a command (its error and output), of the queries.
\<close>

record machine =
  mc_unit :: "bytes option"
  mc_commands :: "string list list"

record system =
  sy_write :: "machine \<Rightarrow> (string \<times> bytes option) option"
  sy_run :: "string list \<Rightarrow> machine \<Rightarrow> string option"
  sy_show :: "string list \<Rightarrow> machine \<Rightarrow> string + string"
  sy_journal :: "string list \<Rightarrow> machine \<Rightarrow> string + string"

definition run_systemctl :: "system \<Rightarrow> string list \<Rightarrow> machine \<Rightarrow> string option \<times> machine" where
  "run_systemctl S args m =
     (case sy_run S args m of
        None \<Rightarrow> None
      | Some err \<Rightarrow> Some (''systemctl '' @ Join '' '' args @ '': '' @ err),
      m\<lparr>mc_commands := mc_commands m @ [args]\<rparr>)"

definition systemctl_Install :: "system \<Rightarrow> string \<Rightarrow> machine \<Rightarrow> string option \<times> machine" where
  "systemctl_Install S unit m =
     (case sy_write S m of
        Some (err, left) \<Rightarrow> (Some (''write unit '' @ serviceUnitPath @ '': '' @ err), m\<lparr>mc_unit := left\<rparr>)
      | None \<Rightarrow> run_systemctl S [''daemon-reload''] (m\<lparr>mc_unit := Some (bytes_of unit)\<rparr>))"

definition systemctl_Status :: "system \<Rightarrow> (string \<Rightarrow> time option) \<Rightarrow> machine \<Rightarrow> string + ServiceStatus" where
  "systemctl_Status S parse_timestamp m =
     (case sy_show S [''show'', serviceName, ''--property='' @ Join '','' systemctlShowProps] m of
        Err e \<Rightarrow> Err (''systemctl show '' @ serviceName @ '': '' @ e)
      | Ok out \<Rightarrow> Ok (parseServiceStatus parse_timestamp out))"

definition trim_newlines :: "string \<Rightarrow> string" where
  "trim_newlines s = rev (dropWhile (\<lambda>c. c = newline) (rev s))"

definition systemctl_Logs :: "system \<Rightarrow> int \<Rightarrow> machine \<Rightarrow> string + string list" where
  "systemctl_Logs S lines0 m =
     (let n = (if lines0 \<le> 0 then 100 else lines0) in
      case sy_journal S [''-u'', serviceName, ''-n'', Itoa n, ''--no-pager'', ''-o'', ''cat''] m of
        Err e \<Rightarrow> Err (''journalctl -u '' @ serviceName @ '': '' @ e)
      | Ok out \<Rightarrow> let trimmed = trim_newlines out in Ok (if trimmed = '''' then [] else Split newline trimmed))"

definition systemctlController :: "system \<Rightarrow> (string \<Rightarrow> time option) \<Rightarrow> machine serviceController" where
  "systemctlController S parse_timestamp = \<lparr>
     sc_UnitExists = (\<lambda>m. mc_unit m \<noteq> None),
     sc_Install = systemctl_Install S,
     sc_EnableNow = run_systemctl S [''enable'', ''--now'', serviceName],
     sc_Start = run_systemctl S [''start'', serviceName],
     sc_Stop = run_systemctl S [''stop'', serviceName],
     sc_Restart = run_systemctl S [''restart'', serviceName],
     sc_Status = systemctl_Status S parse_timestamp,
     sc_Logs = systemctl_Logs S\<rparr>"

text \<open>A verb of the console: its error, what it prints, and the machine after it.\<close>

definition dispatchServiceVerb ::
    "env \<Rightarrow> 's serviceController \<Rightarrow> string \<Rightarrow> DeployOpts \<Rightarrow> int \<Rightarrow> 's \<Rightarrow> string option \<times> string list \<times> 's" where
  "dispatchServiceVerb E ctrl verb opts logLines s =
     (if verb = ''install'' then
        (case sc_Install ctrl (renderUnitFile opts) s of
           (Some err, s') \<Rightarrow> (Some err, [], s')
         | (None, s') \<Rightarrow> (None, [''installed unit at '' @ serviceUnitPath @ '' ('' @ TLSMode_String (do_Mode opts) @ '' TLS)''], s'))
      else if verb = ''enable-now'' then (case sc_EnableNow ctrl s of (e, s') \<Rightarrow> (e, [], s'))
      else if verb = ''start'' then (case sc_Start ctrl s of (e, s') \<Rightarrow> (e, [], s'))
      else if verb = ''stop'' then (case sc_Stop ctrl s of (e, s') \<Rightarrow> (e, [], s'))
      else if verb = ''restart'' then (case sc_Restart ctrl s of (e, s') \<Rightarrow> (e, [], s'))
      else if verb = ''status'' then
        (case sc_Status ctrl s of Err e \<Rightarrow> (Some e, [], s) | Ok st \<Rightarrow> (None, [formatServiceStatusLine E st], s))
      else if verb = ''logs'' then
        (case sc_Logs ctrl logLines s of Err e \<Rightarrow> (Some e, [], s) | Ok ls \<Rightarrow> (None, ls, s))
      else (Some (''unknown verb '' @ env_quote E verb @ '' (want install|enable-now|start|stop|restart|status|logs)''), [], s))"

text \<open>The argument \<open>data\<close> is what reading the unit file gives.\<close>

definition repairServiceUnit :: "'s serviceController \<Rightarrow> string + bytes \<Rightarrow> 's \<Rightarrow> string option \<times> 's" where
  "repairServiceUnit ctrl data s =
     (case data of
        Err e \<Rightarrow> (Some (''read existing service configuration: '' @ e), s)
      | Ok d \<Rightarrow>
          let execStart = extractExecStartLine (string_of d) in
          if execStart = '''' then (Some (''cannot recover deployment settings from '' @ serviceUnitPath), s)
          else let opts = parseExecStart execStart in
            sc_Install ctrl (renderUnitFileWithExecStart opts execStart) s)"

section \<open>The private command line\<close>

record service_flags =
  sf_stateDir :: string
  sf_tls :: string
  sf_domain :: string
  sf_acmeEmail :: string
  sf_addr :: string
  sf_bin :: string
  sf_n :: int

definition default_flags :: service_flags where
  "default_flags = \<lparr>sf_stateDir = defaultConsoleStateDir, sf_tls = ''builtin'', sf_domain = '''', sf_acmeEmail = '''',
     sf_addr = defaultProxyAddr, sf_bin = defaultBinPath, sf_n = 100\<rparr>"

text \<open>
  \<open>FlagSet.Parse\<close> with these flags: tokens \<^verbatim>\<open>-name value\<close> or \<^verbatim>\<open>-name=value\<close>, up to the first that
  is no flag. The reader of the one integer flag is an argument.
\<close>

definition set_flag :: "(string \<Rightarrow> int option) \<Rightarrow> string \<Rightarrow> string \<Rightarrow> service_flags \<Rightarrow> service_flags option" where
  "set_flag parse_int name v f =
     (if name = ''state-dir'' then Some (f\<lparr>sf_stateDir := v\<rparr>)
      else if name = ''tls'' then Some (f\<lparr>sf_tls := v\<rparr>)
      else if name = ''domain'' then Some (f\<lparr>sf_domain := v\<rparr>)
      else if name = ''acme-email'' then Some (f\<lparr>sf_acmeEmail := v\<rparr>)
      else if name = ''addr'' then Some (f\<lparr>sf_addr := v\<rparr>)
      else if name = ''bin'' then Some (f\<lparr>sf_bin := v\<rparr>)
      else if name = ''n'' then map_option (\<lambda>i. f\<lparr>sf_n := i\<rparr>) (parse_int v)
      else None)"

definition flag_name :: "string \<Rightarrow> string option" where
  "flag_name tok =
     (if length tok < 2 \<or> hd tok \<noteq> CHR ''-'' \<or> tok = ''--'' then None
      else Some (drop (if tok ! 1 = CHR ''-'' then 2 else 1) tok))"

fun parse_service_flags :: "(string \<Rightarrow> int option) \<Rightarrow> service_flags \<Rightarrow> string list \<Rightarrow> service_flags option" where
  "parse_service_flags parse_int f [] = Some f"
| "parse_service_flags parse_int f [tok] =
     (case flag_name tok of
        None \<Rightarrow> Some f
      | Some name \<Rightarrow>
          if name = [] \<or> hd name \<in> {CHR ''-'', CHR ''=''} then None
          else (case Cut (CHR ''='') name of None \<Rightarrow> None | Some (k, v) \<Rightarrow> set_flag parse_int k v f))"
| "parse_service_flags parse_int f (tok # v # toks) =
     (case flag_name tok of
        None \<Rightarrow> Some f
      | Some name \<Rightarrow>
          if name = [] \<or> hd name \<in> {CHR ''-'', CHR ''=''} then None
          else (case Cut (CHR ''='') name of
              Some (k, v') \<Rightarrow>
                (case set_flag parse_int k v' f of None \<Rightarrow> None | Some f' \<Rightarrow> parse_service_flags parse_int f' (v # toks))
            | None \<Rightarrow>
                (case set_flag parse_int name v f of None \<Rightarrow> None | Some f' \<Rightarrow> parse_service_flags parse_int f' toks)))"

definition flags_opts :: "(string \<Rightarrow> string \<Rightarrow> bool) \<Rightarrow> service_flags \<Rightarrow> DeployOpts" where
  "flags_opts uni f = \<lparr>do_BinPath = sf_bin f, do_StateDir = sf_stateDir f, do_Mode = parseTLSMode uni (sf_tls f),
     do_Domain = sf_domain f, do_AcmeEmail = sf_acmeEmail f, do_Addr = sf_addr f\<rparr>"

text \<open>
  The exit code and the machine after it; \<open>root\<close> is \<^verbatim>\<open>os.Geteuid() == 0\<close>, \<open>update\<close> the outcome of
  the installer's command, \<open>data\<close> of reading the unit.
\<close>

definition runServiceSubcommand ::
    "env \<Rightarrow> 's serviceController \<Rightarrow> (string \<Rightarrow> int option) \<Rightarrow> bool \<Rightarrow> ('s \<Rightarrow> bool \<times> 's) \<Rightarrow> string + bytes
     \<Rightarrow> string list \<Rightarrow> 's \<Rightarrow> nat \<times> 's" where
  "runServiceSubcommand E ctrl parse_int root update data args s =
     (case args of
        [] \<Rightarrow> (2, s)
      | verb # rest \<Rightarrow>
          if verb = ''permission-check'' then (if root then 0 else 1, s)
          else if verb = ''update'' then
            (if \<not> root then (1, s) else (case update s of (ok, s') \<Rightarrow> (if ok then 0 else 1, s')))
          else if verb = ''repair-existing'' then
            (if \<not> root then (1, s)
             else (case repairServiceUnit ctrl data s of (None, s') \<Rightarrow> (0, s') | (Some _, s') \<Rightarrow> (1, s')))
          else (case parse_service_flags parse_int default_flags rest of
              None \<Rightarrow> (2, s)
            | Some f \<Rightarrow>
                let opts = flags_opts (env_fold E) f in
                if verb = ''install'' \<and> do_Domain opts = '''' then (2, s)
                else (case dispatchServiceVerb E ctrl verb opts (sf_n f) s of
                    (None, _, s') \<Rightarrow> (0, s') | (Some _, _, s') \<Rightarrow> (1, s'))))"

definition canManageSystemd :: "bool \<Rightarrow> bool \<Rightarrow> (string list \<Rightarrow> bool) \<Rightarrow> string \<Rightarrow> bool" where
  "canManageSystemd root sudo_found runs selfPath =
     (if root then True else if \<not> sudo_found then False
      else runs [''sudo'', ''-n'', selfPath, ''__service'', ''permission-check''])"


section \<open>The contract of a controller\<close>

text \<open>
  What the console relies on: an installed unit is the one that is read back, and no other operation
  touches it.
\<close>

locale unit_keeper =
  fixes ctrl :: "'s serviceController" and unit_of :: "'s \<Rightarrow> bytes option"
  assumes install_stores: "sc_Install ctrl u s = (None, s') \<Longrightarrow> unit_of s' = Some (bytes_of u)"
    and others_keep: "unit_of (snd (sc_EnableNow ctrl s)) = unit_of s" "unit_of (snd (sc_Start ctrl s)) = unit_of s"
      "unit_of (snd (sc_Stop ctrl s)) = unit_of s" "unit_of (snd (sc_Restart ctrl s)) = unit_of s"
begin

lemma dispatch_keeps: "verb \<noteq> ''install'' \<Longrightarrow> unit_of (snd (snd (dispatchServiceVerb E ctrl verb opts n s))) = unit_of s"
  unfolding dispatchServiceVerb_def case_prod_unfold
  by (simp only: if_distrib [of snd] if_distrib [of unit_of] snd_conv others_keep if_False if_cancel sum.case_distrib [of snd]
      sum.case_distrib [of unit_of] split: sum.split) simp

lemma dispatch_installs:
  "dispatchServiceVerb E ctrl ''install'' opts n s = (None, out, s') \<Longrightarrow> unit_of s' = Some (bytes_of (renderUnitFile opts))"
  by (auto simp: dispatchServiceVerb_def intro: install_stores split: prod.splits option.splits)

lemma repair_stores:
  "repairServiceUnit ctrl (Ok d) s = (None, s') \<Longrightarrow>
   unit_of s' = Some (bytes_of (renderUnitFileWithExecStart (parseExecStart (extractExecStartLine (string_of d)))
     (extractExecStartLine (string_of d))))"
  by (auto simp: repairServiceUnit_def Let_def intro: install_stores split: if_splits)

end

interpretation systemctl: unit_keeper "systemctlController S parse_timestamp" mc_unit
  by unfold_locales
    (auto simp: systemctlController_def systemctl_Install_def run_systemctl_def split: option.splits)



section \<open>Properties of the service\<close>

definition sample_opts :: DeployOpts where
  "sample_opts = \<lparr>do_BinPath = '''', do_StateDir = ''/srv/npv'', do_Mode = TLSModeProxy, do_Domain = ''a.example'',
     do_AcmeEmail = '''', do_Addr = ''127.0.0.1:2053''\<rparr>"

definition sample_system :: system where
  "sample_system = \<lparr>sy_write = (\<lambda>m. None), sy_run = (\<lambda>args m. None), sy_show = (\<lambda>args m. Err ''no''), sy_journal = (\<lambda>args m. Err ''no'')\<rparr>"

lemma sample_opts_plain: "plain_opts sample_opts"
  by code_simp




text \<open>Repairing an installed unit keeps its command to the letter, flags the parser does not know included,
  and puts the hardened template around it: the unit after a successful repair consists of the
  template's lines, runs as the service user, and its command is the one of the unit before.\<close>

theorem repair_keeps_command:
  assumes "repairServiceUnit (systemctlController S p) (Ok d) m = (None, m')"
    and "extractExecStartLine (string_of d) = Join '' '' ws" "list_all plain_word ws" "ws \<noteq> []"
    and "newline \<notin> set (do_StateDir (parseExecStart (Join '' '' ws)))"
  shows "\<exists>unit cap. mc_unit m' = Some (bytes_of unit) \<and>
    Split newline unit = unit_lines (Join '' '' ws) (do_StateDir (withDefaults (parseExecStart (Join '' '' ws)))) cap cap @ [''''] \<and>
    (cap = '''' \<or> cap = ''CAP_NET_BIND_SERVICE'') \<and> extractExecStartLine unit = Join '' '' ws"
proof -
  let ?o = "parseExecStart (Join '' '' ws)"
  let ?cap = "if do_Mode (withDefaults ?o) = TLSModeBuiltin then ''CAP_NET_BIND_SERVICE'' else ''''"
  let ?ls = "unit_lines (Join '' '' ws) (do_StateDir (withDefaults ?o)) ?cap ?cap"
  have dir: "newline \<notin> set (do_StateDir (withDefaults ?o))"
  proof -
    have "newline \<notin> set defaultConsoleStateDir" by code_simp
    then show ?thesis using assms(5) by (cases ?o) (simp add: withDefaults_record)
  qed
  have cap: "newline \<notin> set ?cap" by (simp add: newline_def)
  have "mc_unit m' = Some (bytes_of (lines_text ?ls))"
    using systemctl.repair_stores [OF assms(1)] assms(2) by (simp add: renderUnitFileWithExecStart_def Let_def)
  moreover have "Split newline (lines_text ?ls) = ?ls @ ['''']"
    by (rule Split_lines_text [OF unit_lines_no_newline [OF Join_no_newline [OF assms(3)] dir cap cap]])
  moreover have "extractExecStartLine (lines_text ?ls) = Join '' '' ws"
    by (rule extract_unit_lines [OF assms(3,4) dir cap cap])
  ultimately show ?thesis by (intro exI [of _ "lines_text ?ls"] exI [of _ ?cap]) simp
qed

theorem repair_keeps_command_witness:
  "let d = bytes_of (renderUnitFile sample_opts);
       m' = snd (repairServiceUnit (systemctlController sample_system (\<lambda>s. None)) (Ok d) \<lparr>mc_unit = None, mc_commands = []\<rparr>);
       line = execStartLine sample_opts in
   \<exists>unit cap. mc_unit m' = Some (bytes_of unit) \<and>
     Split newline unit = unit_lines line (do_StateDir (withDefaults (parseExecStart line))) cap cap @ [''''] \<and>
     (cap = '''' \<or> cap = ''CAP_NET_BIND_SERVICE'') \<and> extractExecStartLine unit = line"
proof -
  let ?d = "bytes_of (renderUnitFile sample_opts)"
  let ?r = "repairServiceUnit (systemctlController sample_system (\<lambda>s. None)) (Ok ?d) \<lparr>mc_unit = None, mc_commands = []\<rparr>"
  have line: "extractExecStartLine (string_of ?d) = Join '' '' (command_words sample_opts)"
    using render_extract [OF sample_opts_plain] by (simp add: execStartLine_words)
  have "execStartLine sample_opts \<noteq> ''''"
    using Join_ends [OF command_words_plain [OF sample_opts_plain, THEN conjunct1] command_words_plain [OF sample_opts_plain, THEN conjunct2]]
    by (simp add: execStartLine_words)
  then have ran: "?r = (None, snd ?r)"
    using line by (simp add: repairServiceUnit_def Let_def systemctlController_def systemctl_Install_def run_systemctl_def sample_system_def execStartLine_words)
  have dir: "newline \<notin> set (do_StateDir (parseExecStart (Join '' '' (command_words sample_opts))))"
  proof -
    have "newline \<notin> set (do_StateDir (kept_opts sample_opts))" by code_simp
    then show ?thesis using parse_command [OF sample_opts_plain] by (simp only: execStartLine_words not_False_eq_True)
  qed
  show ?thesis
    using repair_keeps_command [OF ran line command_words_plain [OF sample_opts_plain, THEN conjunct1]
      command_words_plain [OF sample_opts_plain, THEN conjunct2] dir]
    by (simp add: Let_def execStartLine_words)
qed

text \<open>The fields of a deployment go into the unit as they are: a line break in the state directory starts a
  new directive of the caller's choice, such as another user to run as. The sudo rule of the
  installer lets the service account choose these fields.\<close>

theorem state_dir_injects_directive:
  assumes "newline \<notin> set directive"
  shows "directive \<in> set (Split newline (renderUnitFile (d\<lparr>do_StateDir := dir @ newline # directive\<rparr>)))"
proof -
  let ?d = "d\<lparr>do_StateDir := dir @ newline # directive\<rparr>"
  let ?e = "execStartLine (withDefaults ?d)" and ?cap = "if do_Mode d = TLSModeBuiltin then ''CAP_NET_BIND_SERVICE'' else ''''"
  have dir: "do_StateDir (withDefaults ?d) = dir @ newline # directive" by (cases d) (simp add: withDefaults_record)
  let ?pre = "take 22 (unit_lines ?e '''' '''' '''')" and ?post = "drop 23 (unit_lines ?e '''' ?cap ?cap)"
  have "unit_lines ?e (dir @ newline # directive) ?cap ?cap = ?pre @ (''ReadWritePaths='' @ dir @ newline # directive) # ?post"
    by (simp add: unit_lines_def)
  then have "renderUnitFile ?d
      = (lines_text ?pre @ ''ReadWritePaths='' @ dir) @ newline # directive @ newline # lines_text ?post"
    by (simp add: renderUnitFile_def renderUnitFileWithExecStart_def Let_def dir lines_text_def)
  then obtain a b where "renderUnitFile ?d = a @ newline # directive @ newline # b" by blast
  then show ?thesis using assms by (simp add: Split_append Split_no_sep)
qed

theorem state_dir_injects_directive_witness:
  "''User=root'' \<in> set (Split newline (renderUnitFile (sample_opts\<lparr>do_StateDir := ''/srv'' @ newline # ''User=root''\<rparr>)))"
  by (rule state_dir_injects_directive) (simp add: newline_def)

end
