(* ===== verification/Pem.thy ===== *)
theory Pem
  imports X509
begin

text \<open>
  The two loops over PEM blocks: \<^verbatim>\<open>parseRootsPEM\<close> of \<^verbatim>\<open>aka_roots.go\<close> (which \<^verbatim>\<open>app_attest_roots.go\<close>
  uses as well) and \<^verbatim>\<open>leafNotAfter\<close> of \<^verbatim>\<open>lifecycle.go\<close>. Both go on until \<^verbatim>\<open>pem.Decode\<close> finds no
  block, so they end only because a block that was found has been consumed; until that is proved
  they are partial: \<open>None\<close> is a loop that never returns.
\<close>

record pem_block =
  pb_Type :: string
  pb_Bytes :: bytes

text \<open>\<open>pem.Decode\<close>: the next block, if there is one, and the remainder of the input.\<close>

type_synonym pem_decoder = "bytes \<Rightarrow> pem_block option \<times> bytes"

definition pem_consumes :: "pem_decoder \<Rightarrow> bool" where
  "pem_consumes dec \<longleftrightarrow> (\<forall>data b rest. dec data = (Some b, rest) \<longrightarrow> length rest < length data)"

partial_function (option) roots_loop ::
    "pem_decoder \<Rightarrow> x509 \<Rightarrow> bytes \<Rightarrow> Certificate list \<Rightarrow> (string + Certificate list) option" where
  "roots_loop dec X rest pool =
     (if rest = [] then Some (Ok pool)
      else case dec rest of
          (None, rest') \<Rightarrow> Some (Ok pool)
        | (Some block, rest') \<Rightarrow>
            if pb_Type block \<noteq> ''CERTIFICATE'' then roots_loop dec X rest' pool
            else (case ParseCertificate X (pb_Bytes block) of
                Err e \<Rightarrow> Some (Err (''parse root cert '' @ nat_text (length pool) @ '': '' @ e))
              | Ok cert \<Rightarrow> roots_loop dec X rest' (pool @ [cert])))"

definition parseRootsPEM :: "pem_decoder \<Rightarrow> x509 \<Rightarrow> bytes \<Rightarrow> (string + Certificate list) option" where
  "parseRootsPEM dec X pemBytes =
     (case roots_loop dec X pemBytes [] of
        None \<Rightarrow> None
      | Some (Err e) \<Rightarrow> Some (Err e)
      | Some (Ok pool) \<Rightarrow>
          Some (if length pool = 0 then Err ''no CERTIFICATE blocks found in roots PEM'' else Ok pool))"

text \<open>The trust anchors of the two verifiers, from the texts embedded in the binary.\<close>

definition loadGoogleAkaRoots :: "pem_decoder \<Rightarrow> x509 \<Rightarrow> bytes \<Rightarrow> (string + Certificate list) option" where
  "loadGoogleAkaRoots dec X googleAkaRootsPEM = parseRootsPEM dec X googleAkaRootsPEM"

definition loadAppleAppAttestRoots :: "pem_decoder \<Rightarrow> x509 \<Rightarrow> bytes \<Rightarrow> (string + Certificate list) option" where
  "loadAppleAppAttestRoots dec X appleAppAttestRootPEM = parseRootsPEM dec X appleAppAttestRootPEM"

text \<open>The date of the first certificate; \<open>notAfter\<close> parses a certificate and reads its \<open>NotAfter\<close>.\<close>

partial_function (option) leafNotAfter ::
    "pem_decoder \<Rightarrow> (bytes \<Rightarrow> time option) \<Rightarrow> bytes \<Rightarrow> time option option" where
  "leafNotAfter dec notAfter pemBytes =
     (case dec pemBytes of
        (None, rest) \<Rightarrow> Some None
      | (Some block, rest) \<Rightarrow>
          if pb_Type block \<noteq> ''CERTIFICATE'' then leafNotAfter dec notAfter rest
          else Some (notAfter (pb_Bytes block)))"


section \<open>The blocks of an input\<close>

text \<open>The reference: all blocks in order; the fuel bounds their number.\<close>

fun pem_blocks :: "nat \<Rightarrow> pem_decoder \<Rightarrow> bytes \<Rightarrow> pem_block list" where
  "pem_blocks 0 dec data = []"
| "pem_blocks (Suc n) dec data =
     (case dec data of (None, rest) \<Rightarrow> [] | (Some b, rest) \<Rightarrow> b # pem_blocks n dec rest)"

definition certificate_blocks :: "pem_decoder \<Rightarrow> bytes \<Rightarrow> pem_block list" where
  "certificate_blocks dec data = filter (\<lambda>b. pb_Type b = ''CERTIFICATE'') (pem_blocks (length data) dec data)"

fun parse_all :: "x509 \<Rightarrow> nat \<Rightarrow> pem_block list \<Rightarrow> string + Certificate list" where
  "parse_all X n [] = Ok []"
| "parse_all X n (b # bs) =
     (case ParseCertificate X (pb_Bytes b) of
        Err e \<Rightarrow> Err (''parse root cert '' @ nat_text n @ '': '' @ e)
      | Ok c \<Rightarrow> (case parse_all X (Suc n) bs of Err e \<Rightarrow> Err e | Ok cs \<Rightarrow> Ok (c # cs)))"

lemma consumes_Nil: "pem_consumes dec \<Longrightarrow> fst (dec []) = None"
  by (cases "dec []"; cases "fst (dec [])") (fastforce simp: pem_consumes_def)+

lemma consumes_shorter: "pem_consumes dec \<Longrightarrow> dec data = (Some b, rest) \<Longrightarrow> length rest < length data"
  by (simp add: pem_consumes_def)

lemma pem_blocks_fuel:
  "pem_consumes dec \<Longrightarrow> length data \<le> n \<Longrightarrow> length data \<le> m \<Longrightarrow> pem_blocks n dec data = pem_blocks m dec data"
proof (induction n arbitrary: data m)
  case 0
  then show ?case using consumes_Nil [of dec] by (cases m; cases "dec []") auto
next
  case (Suc n)
  show ?case
  proof (cases m)
    case 0
    then show ?thesis using Suc.prems consumes_Nil [of dec] by (cases "dec []") auto
  next
    case m: (Suc m')
    show ?thesis
    proof (cases "dec data")
      case (Pair b rest)
      show ?thesis
      proof (cases b)
        case None
        then show ?thesis using Pair m by simp
      next
        case (Some blk)
        have "length rest < length data" using consumes_shorter [OF Suc.prems(1)] Pair Some by blast
        then have "length rest \<le> n" "length rest \<le> m'" using Suc.prems(2,3) m by simp_all
        from Suc.IH [OF Suc.prems(1) this] show ?thesis using Pair Some m by simp
      qed
    qed
  qed
qed

lemma blocks_step:
  assumes "pem_consumes dec" "dec data = (Some b, rest)"
  shows "certificate_blocks dec data
    = (if pb_Type b = ''CERTIFICATE'' then b # certificate_blocks dec rest else certificate_blocks dec rest)"
proof -
  have l: "length rest < length data" by (rule consumes_shorter [OF assms])
  then obtain m where m: "length data = Suc m" "length rest \<le> m" by (cases "length data") auto
  show ?thesis using assms(2) pem_blocks_fuel [OF assms(1) m(2) order.refl] by (simp add: certificate_blocks_def m(1))
qed

lemma blocks_end: "dec data = (None, rest) \<Longrightarrow> certificate_blocks dec data = []"
  by (cases "length data") (simp_all add: certificate_blocks_def)

lemma roots_loop_returns:
  assumes "pem_consumes dec"
  shows "roots_loop dec X data pool = Some (case parse_all X (length pool) (certificate_blocks dec data) of
     Err e \<Rightarrow> Err e | Ok cs \<Rightarrow> Ok (pool @ cs))"
proof (induction data arbitrary: pool rule: length_induct)
  case (1 data)
  show ?case
  proof (cases "data = []")
    case True
    then show ?thesis using consumes_Nil [OF assms]
      by (cases "dec []") (simp add: roots_loop.simps [of dec X "[]"] blocks_end)
  next
    case False
    show ?thesis
    proof (cases "dec data")
      case (Pair b rest)
      show ?thesis
      proof (cases b)
        case None
        then show ?thesis using False Pair by (simp add: roots_loop.simps [of dec X data] blocks_end)
      next
        case (Some blk)
        then have l: "length rest < length data" and e: "dec data = (Some blk, rest)" using consumes_shorter [OF assms] Pair by auto
        note ih = 1 [rule_format, OF l]
        show ?thesis
          by (simp add: roots_loop.simps [of dec X data] e False blocks_step [OF assms e] ih split: sum.split)
      qed
    qed
  qed
qed

lemma leafNotAfter_returns:
  assumes "pem_consumes dec"
  shows "leafNotAfter dec notAfter data =
    Some (case certificate_blocks dec data of [] \<Rightarrow> None | b # _ \<Rightarrow> notAfter (pb_Bytes b))"
proof (induction data rule: length_induct)
  case (1 data)
  show ?case
  proof (cases "dec data")
    case (Pair b rest)
    show ?thesis
    proof (cases b)
      case None
      then show ?thesis using Pair by (simp add: leafNotAfter.simps [of dec notAfter data] blocks_end)
    next
      case (Some blk)
      then have l: "length rest < length data" and e: "dec data = (Some blk, rest)" using consumes_shorter [OF assms] Pair by auto
      show ?thesis using 1 [rule_format, OF l]
        by (simp add: leafNotAfter.simps [of dec notAfter data] e blocks_step [OF assms e])
    qed
  qed
qed


section \<open>Properties\<close>

text \<open>C39. Both loops over PEM data return on every input, because a decoded block is consumed: the roots are the
  certificates of all certificate blocks in order, with the error of the first that does not parse,
  and an error when there is none; the expiry is the one of the first certificate block.\<close>

theorem pem_loops_return:
  assumes "pem_consumes dec"
  shows "parseRootsPEM dec X data = Some
      (if certificate_blocks dec data = [] then Err ''no CERTIFICATE blocks found in roots PEM''
       else parse_all X 0 (certificate_blocks dec data)) \<and>
    leafNotAfter dec notAfter data =
      Some (case certificate_blocks dec data of [] \<Rightarrow> None | b # _ \<Rightarrow> notAfter (pb_Bytes b))"
proof -
  have l: "parse_all X n bs = Ok cs \<Longrightarrow> length cs = length bs" for n bs cs
    by (induction X n bs arbitrary: cs rule: parse_all.induct) (auto split: sum.splits)
  have "parse_all X 0 (certificate_blocks dec data) = Ok cs \<Longrightarrow> length cs = 0 \<longleftrightarrow> certificate_blocks dec data = []" for cs
    using l [of 0 "certificate_blocks dec data" cs] by simp
  moreover have "\<not> (\<exists>e. parse_all X 0 [] = Err e)" by simp
  ultimately show ?thesis
    unfolding parseRootsPEM_def roots_loop_returns [OF assms] leafNotAfter_returns [OF assms]
    by (cases "parse_all X 0 (certificate_blocks dec data)") auto
qed

text \<open>A decoder for the witness: every byte is a certificate block of its own.\<close>

definition sample_pem :: pem_decoder where
  "sample_pem data = (case data of [] \<Rightarrow> (None, []) | b # bs \<Rightarrow> (Some \<lparr>pb_Type = ''CERTIFICATE'', pb_Bytes = [b]\<rparr>, bs))"

theorem pem_loops_return_witness:
  "leafNotAfter sample_pem (\<lambda>d. if d = [7] then Some 9 else None) [7, 8] = Some (Some 9)"
proof -
  have "pem_consumes sample_pem" by (auto simp: pem_consumes_def sample_pem_def split: list.splits)
  from pem_loops_return [OF this, of undefined "[7, 8]" "\<lambda>d. if d = [7] then Some 9 else None"]
  show ?thesis by (simp add: certificate_blocks_def sample_pem_def numeral_2_eq_2)
qed

end
