(* ===== verification/Lifecycle.thy ===== *)
theory Lifecycle
  imports Service_Control Pem State_Types
begin

text \<open>
  \<^verbatim>\<open>lifecycle.go\<close>: the probes behind the server screen, the snapshot they are collected into, and
  its rendering. The network and the system are arguments.
\<close>

section \<open>Probes\<close>

text \<open>An HTTP request with a time limit: the status, if there is an answer, and the latency.\<close>

definition httpHealthz :: "(duration \<Rightarrow> string \<Rightarrow> nat option \<times> duration) \<Rightarrow> duration \<Rightarrow> string \<Rightarrow> bool \<times> duration" where
  "httpHealthz get timeout url =
     (let to = (if sint timeout \<le> 0 then 3 * Second else timeout) in
      case get to url of (None, lat) \<Rightarrow> (False, lat) | (Some status, lat) \<Rightarrow> (status = 200, lat))"

definition dialReachable :: "(duration \<Rightarrow> string \<Rightarrow> bool) \<Rightarrow> duration \<Rightarrow> string \<Rightarrow> bool" where
  "dialReachable dial timeout hostport =
     (let to = (if sint timeout \<le> 0 then 2 * Second else timeout) in dial to hostport)"

text \<open>The outer option is that of the loop over PEM blocks.\<close>

definition autocertExpiry ::
    "pem_decoder \<Rightarrow> (bytes \<Rightarrow> time option) \<Rightarrow> disk \<Rightarrow> fsys \<Rightarrow> string \<Rightarrow> string \<Rightarrow> time option option" where
  "autocertExpiry dec notAfter dk fs acmeCacheDir domain =
     (if acmeCacheDir = '''' \<or> domain = '''' then Some None
      else (case os_ReadFile dk fs (acmeCacheDir @ ''/'' @ domain) of
          Read_Data data \<Rightarrow> leafNotAfter dec notAfter data
        | _ \<Rightarrow> Some None))"

record probes =
  pr_Healthz :: "string \<Rightarrow> bool \<times> duration"
  pr_Reachable :: "string \<Rightarrow> bool"
  pr_Expiry :: "string \<Rightarrow> string \<Rightarrow> time option"

definition healthURL :: "DeployOpts \<Rightarrow> string" where
  "healthURL d =
     (case do_Mode d of
        TLSModeProxy \<Rightarrow> ''http://'' @ (if do_Addr d = '''' then defaultProxyAddr else do_Addr d) @ ''/healthz''
      | TLSModeBuiltin \<Rightarrow> if do_Domain d = '''' then '''' else PublicURL d @ ''/healthz'')"


section \<open>The snapshot\<close>

text \<open>An unknown expiry is \<open>None\<close>.\<close>

record LifecycleSnapshot =
  ls_Mode :: TLSMode
  ls_Configured :: bool
  ls_Svc :: "string + ServiceStatus"
  ls_Health :: bool
  ls_HealthURL :: string
  ls_HealthLatency :: duration
  ls_PublicHealth :: bool
  ls_PublicHealthURL :: string
  ls_PublicHealthLatency :: duration
  ls_PublicURL :: string
  ls_CertExpiry :: "time option"
  ls_CheckPorts :: bool
  ls_Port80 :: bool
  ls_Port443 :: bool
  ls_Version :: string

definition collectLifecycle ::
    "string \<Rightarrow> string + ServiceStatus \<Rightarrow> probes \<Rightarrow> DeployOpts \<Rightarrow> string \<Rightarrow> LifecycleSnapshot" where
  "collectLifecycle version status P d acmeCacheDir =
     (let url = healthURL d;
          health = (if url \<noteq> '''' then pr_Healthz P url else (False, 0));
          publicURL = (if do_Mode d = TLSModeProxy \<and> do_Domain d \<noteq> '''' then PublicURL d @ ''/healthz'' else '''');
          publicHealth = (if do_Mode d = TLSModeProxy \<and> do_Domain d \<noteq> '''' then pr_Healthz P publicURL else (False, 0));
          builtin = (do_Mode d = TLSModeBuiltin \<and> do_Domain d \<noteq> '''')
      in \<lparr>ls_Mode = do_Mode d, ls_Configured = (do_Domain d \<noteq> ''''), ls_Svc = status,
          ls_Health = fst health, ls_HealthURL = url, ls_HealthLatency = snd health,
          ls_PublicHealth = fst publicHealth, ls_PublicHealthURL = publicURL, ls_PublicHealthLatency = snd publicHealth,
          ls_PublicURL = PublicURL d,
          ls_CertExpiry = (if builtin then pr_Expiry P acmeCacheDir (do_Domain d) else None),
          ls_CheckPorts = builtin, ls_Port80 = (builtin \<and> pr_Reachable P ''127.0.0.1:80''),
          ls_Port443 = (builtin \<and> pr_Reachable P ''127.0.0.1:443''), ls_Version = version\<rparr>)"


section \<open>Rendering\<close>

text \<open>Characters beyond ASCII, as their bytes.\<close>

definition utf8 :: "nat list \<Rightarrow> string" where
  "utf8 bs = map char_of bs"

definition bullet :: string where "bullet = utf8 [226, 151, 143]"
definition circle :: string where "circle = utf8 [226, 151, 139]"
definition cross :: string where "cross = utf8 [226, 156, 149]"
definition middot :: string where "middot = utf8 [194, 183]"
definition emdash :: string where "emdash = utf8 [226, 128, 148]"

definition checkMark :: "bool \<Rightarrow> string" where
  "checkMark ok = (if ok then utf8 [226, 156, 147] else utf8 [226, 156, 151])"

definition tlsModeLabel :: "TLSMode \<Rightarrow> string" where
  "tlsModeLabel m = (if m = TLSModeProxy then ''reverse proxy'' else ''built-in Let's Encrypt'')"

text \<open>\<open>d.Round(time.Minute)\<close> for a duration that is not negative: half a minute rounds up, and the
  addition saturates.\<close>

definition max_duration :: duration where "max_duration = 2 ^ 63 - 1"

definition round_minute :: "duration \<Rightarrow> duration" where
  "round_minute d =
     (let r = sint d mod sint Minute in
      if r + r < sint Minute then d - word_of_int r
      else let d1 = d + Minute - word_of_int r in if dur_less d d1 then d1 else max_duration)"

text \<open>The float64 hours and minutes of the rounded duration truncate to the exact quotients.\<close>

definition humanizeDuration :: "duration \<Rightarrow> string" where
  "humanizeDuration d0 =
     (let d = round_minute (if dur_less d0 0 then 0 else d0);
          h = quot (sint d) (sint Hour);
          m = rem (quot (sint d) (sint Minute)) 60
      in if 24 \<le> h then Itoa (quot h 24) @ ''d'' @ Itoa (rem h 24) @ ''h''
         else if 0 < h then Itoa h @ ''h'' @ Itoa m @ ''m''
         else Itoa m @ ''m'')"

definition service_text :: "string + ServiceStatus \<Rightarrow> time \<Rightarrow> string" where
  "service_text status now =
     (case status of Err e \<Rightarrow> ''? unknown''
      | Ok svc \<Rightarrow>
          if Running svc then
            bullet @ '' active (running)'' @
            (case ss_Since svc of None \<Rightarrow> '''' | Some since \<Rightarrow> ''   uptime '' @ humanizeDuration (time_sub now since))
          else if Failed svc then cross @ '' failed''
          else if ss_ActiveState svc \<noteq> '''' then
            circle @ '' '' @ ss_ActiveState svc @ (if ss_SubState svc \<noteq> '''' then '' ('' @ ss_SubState svc @ '')'' else '''')
          else circle @ '' not installed'')"

definition health_text :: "bool \<Rightarrow> string" where
  "health_text ok = (if ok then ''ok'' else ''unreachable'')"

text \<open>\<open>day\<close> formats a date and \<open>days\<close> is \<^verbatim>\<open>int(d.Hours()/24)\<close>, as in the token table.\<close>

definition formatLifecycle :: "(time \<Rightarrow> string) \<Rightarrow> (duration \<Rightarrow> int) \<Rightarrow> LifecycleSnapshot \<Rightarrow> time \<Rightarrow> string" where
  "formatLifecycle day days snap now = lines_text (
     [''  Service    '' @ service_text (ls_Svc snap) now] @
     (if ls_HealthURL snap \<noteq> ''''
      then [''  '' @ (if ls_Mode snap = TLSModeProxy then ''Origin'' else ''Health'') @ ''     '' @ health_text (ls_Health snap)
             @ ''   '' @ ls_HealthURL snap]
      else [''  Health     '' @ health_text (ls_Health snap)]) @
     (if ls_PublicHealthURL snap \<noteq> ''''
      then [''  Public     '' @ health_text (ls_PublicHealth snap) @ ''   '' @ ls_PublicHealthURL snap] else []) @
     (if ls_PublicURL snap \<noteq> ''''
      then [''  Address    '' @ ls_PublicURL snap @ ''   '' @ tlsModeLabel (ls_Mode snap)]
      else [''  Address    (not configured)'']) @
     [(if ls_Mode snap \<noteq> TLSModeBuiltin then ''  TLS cert   reverse proxy '' @ emdash @ '' verify off-box''
       else (case ls_CertExpiry snap of
           Some expiry \<Rightarrow> ''  TLS cert   valid '' @ middot @ '' expires '' @ day expiry @ '' ('' @ Itoa (days (time_sub expiry now)) @ ''d)''
         | None \<Rightarrow> ''  TLS cert   issuing'' @ ellipsis @ '' (no cert cached yet)''))] @
     (if ls_CheckPorts snap then [''  Ports      :80 '' @ checkMark (ls_Port80 snap) @ ''   :443 '' @ checkMark (ls_Port443 snap)] else []) @
     [''  Version    '' @ ls_Version snap])"


section \<open>What the screen shows\<close>

lemma Minute_word: "sint Minute = 60000000000" "uint Minute = 60000000000"
  by (simp_all add: duration_consts)

text \<open>Rounding stays within half a minute, except where the result would not be representable.\<close>

lemma sint_word_of_int_small: "0 \<le> i \<Longrightarrow> i < 2 ^ 63 \<Longrightarrow> sint (word_of_int i :: duration) = i"
  by (simp add: sint_sbintrunc' signed_take_bit_int_eq_self_iff)

lemma round_minute_value:
  assumes "0 \<le> sint d" "sint d + 30000000000 < 2 ^ 63 - 1"
  shows "sint (round_minute d) = (sint d + 30000000000) div 60000000000 * 60000000000"
proof -
  define r where "r = sint d mod 60000000000"
  have r: "0 \<le> r" "r < 60000000000" by (simp_all add: r_def)
  have q: "sint d = sint d div 60000000000 * 60000000000 + r" by (simp add: r_def)
  have d: "d = word_of_int (sint d)" by simp
  show ?thesis
  proof (cases "r + r < 60000000000")
    case True
    have "d - word_of_int r = word_of_int (sint d - r)" by (subst d) (simp only: wi_hom_sub)
    moreover have "sint d - r < 2 ^ 63" using assms r by simp
    moreover have "0 \<le> sint d - r" using zmod_le_nonneg_dividend [OF assms(1), of 60000000000] by (simp add: r_def)
    ultimately have "sint (d - word_of_int r) = sint d - r" by (simp only: sint_word_of_int_small)
    moreover have "(sint d + 30000000000) div 60000000000 = sint d div 60000000000" using True r q by linarith
    ultimately show ?thesis using True q by (simp add: round_minute_def Minute_word r_def [symmetric])
  next
    case False
    have m: "Minute = word_of_int 60000000000" by (simp add: duration_consts)
    have "d + Minute - word_of_int r = word_of_int (sint d + 60000000000 - r)"
      by (subst d) (simp only: m wi_hom_add wi_hom_sub)
    moreover have "sint d + 60000000000 - r < 2 ^ 63" "0 \<le> sint d + 60000000000 - r" using assms False r by simp_all
    ultimately have s: "sint (d + Minute - word_of_int r) = sint d + 60000000000 - r" by (simp only: sint_word_of_int_small)
    moreover have "(sint d + 30000000000) div 60000000000 = sint d div 60000000000 + 1" using False r q by linarith
    ultimately show ?thesis using False q r by (simp add: round_minute_def Minute_word Let_def dur_less_def r_def [symmetric])
  qed
qed

end
