(* ===== verification/Dispatch.thy ===== *)
theory Dispatch
  imports AtomicFile
begin

text \<open>
  The beginning of \<^verbatim>\<open>main.go\<close>: which of its programs the binary is, by the name it was called with, the
  arguments and the terminal.
\<close>

section \<open>Which program\<close>

datatype program = Menu "string list" | Service_command "string list" | Show_version | Refuse | Serve "string list"

definition invokedAsCreatorMenu :: "string \<Rightarrow> bool" where
  "invokedAsCreatorMenu program = (Base program = ''npv-creator'')"

text \<open>\<open>None\<close>: not handled, the arguments are the server's.\<close>

definition dispatchCommand :: "string list \<Rightarrow> program option" where
  "dispatchCommand args =
     (case args of [] \<Rightarrow> None
      | a # rest \<Rightarrow>
          if a = ''__dashboard'' then Some (Menu rest)
          else if a = ''__service'' then Some (Service_command rest)
          else if a = ''version'' \<or> a = ''-v'' \<or> a = ''--version'' then Some Show_version
          else if a = ''-h'' \<or> a = ''--help'' then None
          else if HasPrefix a ''-'' then None
          else Some Refuse)"

definition main_program :: "bool \<Rightarrow> string \<Rightarrow> string list \<Rightarrow> program" where
  "main_program stdinIsTTY program args =
     (if invokedAsCreatorMenu program then Menu args
      else if args = [] \<and> stdinIsTTY then Menu []
      else (case dispatchCommand args of Some p \<Rightarrow> p | None \<Rightarrow> Serve args))"

text \<open>
  The private commands are reached whatever the terminal, unless the binary is called by the
  name of the dashboard.
\<close>

lemma service_reached:
  "\<not> invokedAsCreatorMenu program \<Longrightarrow> main_program tty program (''__service'' # args) = Service_command args"
  by (simp add: main_program_def dispatchCommand_def)

end
