(* ===== verification/Setup.thy ===== *)
theory Setup
  imports Lifecycle Dispatch
begin

text \<open>
  The console's settings (\<^verbatim>\<open>menu.go\<close>) and the setup of the server (\<^verbatim>\<open>setup.go\<close>): what the console
  remembers of a deployment, how it finds one, and the installation it runs through the
  private command line, up to the wait for the server to answer.
\<close>

section \<open>Settings\<close>

record deployment =
  dp_SetupComplete :: bool
  dp_Domain :: string
  dp_TLSMode :: string
  dp_Addr :: string
  dp_AcmeEmail :: string

record consoleSettings =
  cs_RedemptionURL :: string
  cs_Deployment :: "deployment option"

definition zero_settings :: consoleSettings where
  "zero_settings = \<lparr>cs_RedemptionURL = '''', cs_Deployment = None\<rparr>"

text \<open>
  \<open>json.MarshalIndent\<close> and \<open>json.Unmarshal\<close> of the settings; the latter's error is ignored, so it gives
  what it filled in.
\<close>

record settings_json =
  sj_marshal :: "consoleSettings \<Rightarrow> bytes option"
  sj_unmarshal :: "bytes \<Rightarrow> consoleSettings"

definition console_path :: "string \<Rightarrow> string" where
  "console_path dir = dir @ ''/console.json''"

definition loadConsoleSettings :: "settings_json \<Rightarrow> disk \<Rightarrow> fsys \<Rightarrow> string \<Rightarrow> consoleSettings" where
  "loadConsoleSettings S dk fs dir =
     (case os_ReadFile dk fs (console_path dir) of
        Read_Data data \<Rightarrow> sj_unmarshal S data
      | _ \<Rightarrow> zero_settings)"

definition saveSettings :: "settings_json \<Rightarrow> disk \<Rightarrow> fsys \<Rightarrow> string \<Rightarrow> consoleSettings \<Rightarrow> fsys" where
  "saveSettings S dk fs dir settings =
     (case sj_marshal S settings of
        None \<Rightarrow> fs
      | Some data \<Rightarrow> snd (atomicWriteFile (dk_io dk) fs (console_path dir) data 384))"

text \<open>The deployment to act on; \<open>unit\<close> is what reading the unit file gives.\<close>

definition deploy :: "env \<Rightarrow> string \<Rightarrow> consoleSettings \<Rightarrow> bytes option \<Rightarrow> DeployOpts" where
  "deploy E stateDir settings unit =
     (case (case cs_Deployment settings of
              None \<Rightarrow> None
            | Some d \<Rightarrow> if dp_SetupComplete d \<or> dp_Domain d \<noteq> '''' then Some d else None) of
        Some d \<Rightarrow> withDefaults \<lparr>do_BinPath = defaultBinPath, do_StateDir = stateDir, do_Mode = parseTLSMode (env_fold E) (dp_TLSMode d),
          do_Domain = dp_Domain d, do_AcmeEmail = dp_AcmeEmail d, do_Addr = dp_Addr d\<rparr>
      | None \<Rightarrow>
          (case adoptFromUnit unit of
             Some o1 \<Rightarrow> withDefaults (o1\<lparr>do_StateDir := stateDir\<rparr>)
           | None \<Rightarrow> withDefaults (zero_opts\<lparr>do_StateDir := stateDir\<rparr>)))"

text \<open>The redemption URL the mint form starts with.\<close>

definition mint_url :: "env \<Rightarrow> string \<Rightarrow> consoleSettings \<Rightarrow> bytes option \<Rightarrow> string" where
  "mint_url E stateDir settings unit =
     (if cs_RedemptionURL settings = '''' then RedeemURL (deploy E stateDir settings unit) else cs_RedemptionURL settings)"


section \<open>What state the setup is in\<close>

datatype setupState = setupFirstRun | setupAdopt | setupConfigured

definition detectSetupState :: "consoleSettings \<Rightarrow> bool \<Rightarrow> setupState" where
  "detectSetupState settings unitExists =
     (case cs_Deployment settings of
        Some d \<Rightarrow> if dp_SetupComplete d then setupConfigured else if unitExists then setupAdopt else setupFirstRun
      | None \<Rightarrow> if unitExists then setupAdopt else setupFirstRun)"

definition deploymentFromOpts :: "DeployOpts \<Rightarrow> deployment" where
  "deploymentFromOpts d = \<lparr>dp_SetupComplete = True, dp_Domain = do_Domain d, dp_TLSMode = TLSMode_String (do_Mode d),
     dp_Addr = do_Addr d, dp_AcmeEmail = do_AcmeEmail d\<rparr>"

definition adoptDeployment ::
    "settings_json \<Rightarrow> disk \<Rightarrow> fsys \<Rightarrow> string \<Rightarrow> consoleSettings \<Rightarrow> bytes option \<Rightarrow> consoleSettings \<times> fsys" where
  "adoptDeployment S dk fs stateDir settings unit =
     (case adoptFromUnit unit of
        None \<Rightarrow> (settings, fs)
      | Some o1 \<Rightarrow>
          let settings' = settings\<lparr>cs_Deployment := Some (deploymentFromOpts (withDefaults (o1\<lparr>do_StateDir := stateDir\<rparr>)))\<rparr>
          in (settings', saveSettings S dk fs stateDir settings'))"

text \<open>The start of the menu: which screen comes first, and whether an installed unit is adopted.\<close>

definition menu_start ::
    "settings_json \<Rightarrow> disk \<Rightarrow> fsys \<Rightarrow> string \<Rightarrow> consoleSettings \<Rightarrow> bytes option \<Rightarrow> setupState \<times> consoleSettings \<times> fsys" where
  "menu_start S dk fs stateDir settings unit =
     (let state = detectSetupState settings (unit \<noteq> None) in
      if state = setupAdopt then (state, adoptDeployment S dk fs stateDir settings unit) else (state, settings, fs))"


section \<open>The private commands\<close>

definition selfBinPath :: "bool \<Rightarrow> string option \<Rightarrow> string" where
  "selfBinPath installed executable =
     (if installed then defaultBinPath else (case executable of Some exe \<Rightarrow> exe | None \<Rightarrow> defaultBinPath))"

definition serviceVerbCommand :: "nat \<Rightarrow> string \<Rightarrow> string \<Rightarrow> string list \<Rightarrow> string \<times> string list" where
  "serviceVerbCommand euid selfPath verb extraArgs =
     (let base = [''__service'', verb] @ extraArgs in
      if euid = 0 then (selfPath, base) else (''sudo'', selfPath # base))"

text \<open>Running a command is an argument: an error, or none, and the machine after it.\<close>

type_synonym 's runner = "string \<Rightarrow> string list \<Rightarrow> 's \<Rightarrow> string option \<times> 's"

definition execServiceVerb :: "'s runner \<Rightarrow> nat \<Rightarrow> string \<Rightarrow> string \<Rightarrow> string list \<Rightarrow> 's \<Rightarrow> string option \<times> 's" where
  "execServiceVerb run euid selfPath verb extraArgs s =
     (case serviceVerbCommand euid selfPath verb extraArgs of (name, args) \<Rightarrow> run name args s)"

definition runSetupCommands :: "'s runner \<Rightarrow> nat \<Rightarrow> string \<Rightarrow> string list \<Rightarrow> 's \<Rightarrow> string option \<times> 's" where
  "runSetupCommands run euid selfPath args s =
     (case execServiceVerb run euid selfPath ''install'' args s of
        (Some err, s') \<Rightarrow> (Some err, s')
      | (None, s') \<Rightarrow> execServiceVerb run euid selfPath ''enable-now'' [] s')"

definition installArgs :: "DeployOpts \<Rightarrow> string list" where
  "installArgs d =
     [''-bin'', do_BinPath d, ''-state-dir'', do_StateDir d, ''-tls'', TLSMode_String (do_Mode d), ''-domain'', do_Domain d]
     @ (if do_Mode d = TLSModeProxy then [''-addr'', do_Addr d] else [])
     @ (if do_AcmeEmail d \<noteq> '''' then [''-acme-email'', do_AcmeEmail d] else [])"

text \<open>
  What becomes of such a command on this machine: the same binary runs with the arguments, as root;
  sudo may refuse. What the binary does when it takes the arguments for another program is \<open>other\<close>.
\<close>

definition local_runner ::
    "env \<Rightarrow> 's serviceController \<Rightarrow> (string \<Rightarrow> int option) \<Rightarrow> bool \<Rightarrow> ('s \<Rightarrow> bool \<times> 's) \<Rightarrow> ('s \<Rightarrow> string + bytes)
     \<Rightarrow> (program \<Rightarrow> 's \<Rightarrow> string option \<times> 's) \<Rightarrow> 's runner" where
  "local_runner E ctrl parse_int sudo_ok update data other name args s =
     (if name = ''sudo'' \<and> \<not> sudo_ok then (Some ''exit status 1'', s)
      else
        let argv = (if name = ''sudo'' then args else name # args) in
        (case main_program True (hd argv) (drop 1 argv) of
          Service_command rest \<Rightarrow>
            (case runServiceSubcommand E ctrl parse_int True update (data s) rest s of
               (code, s') \<Rightarrow> (if code = 0 then None else Some (''exit status '' @ nat_text code), s'))
        | p \<Rightarrow> other p s))"


section \<open>Setting up\<close>

datatype setup_result =
    Setup_refused string
  | Setup_manual string
  | Setup_failed string
  | Setup_done DeployOpts

text \<open>What is shown when this console cannot manage the service; the options do not matter.\<close>

definition setupManualInstructions :: "DeployOpts \<Rightarrow> string" where
  "setupManualInstructions d = Join [newline] [
     ''This dashboard cannot finish system setup because its installer-granted'',
     ''service access is unavailable. Exit, re-run the installer as root, then'',
     ''open npv-creator again. Your entered settings and creator identity remain safe.'']"

definition setup_opts :: "string \<Rightarrow> string \<Rightarrow> string \<Rightarrow> TLSMode \<Rightarrow> string \<Rightarrow> string \<Rightarrow> DeployOpts" where
  "setup_opts selfPath stateDir domain mode proxyPort email =
     (let d = withDefaults \<lparr>do_BinPath = selfPath, do_StateDir = stateDir, do_Mode = mode, do_Domain = domain,
            do_AcmeEmail = email, do_Addr = ''''\<rparr>
      in if mode = TLSModeProxy then d\<lparr>do_Addr := ''127.0.0.1:'' @ proxyPort\<rparr> else d)"

definition applySetup ::
    "settings_json \<Rightarrow> disk \<Rightarrow> 's runner \<Rightarrow> nat \<Rightarrow> string \<Rightarrow> bool \<Rightarrow> string \<Rightarrow> consoleSettings \<Rightarrow> fsys \<Rightarrow> 's
     \<Rightarrow> string \<Rightarrow> TLSMode \<Rightarrow> string \<Rightarrow> string \<Rightarrow> setup_result \<times> consoleSettings \<times> fsys \<times> 's" where
  "applySetup S dk run euid selfPath canManage stateDir settings fs s domain mode proxyPort email =
     (if domain = '''' then (Setup_refused ''Public hostname is required.'', settings, fs, s)
      else if list_ex (\<lambda>c. c \<in> set ''/: '') domain
      then (Setup_refused (''Hostname must be a bare host '' @ emdash @ '' no scheme, port, or path.''
        @ [newline, newline] @ ''Got: '' @ domain), settings, fs, s)
      else
        let opts = setup_opts selfPath stateDir domain mode proxyPort email in
        if \<not> canManage then (Setup_manual (setupManualInstructions opts), settings, fs, s)
        else (case runSetupCommands run euid selfPath (installArgs opts) s of
            (Some err, s') \<Rightarrow> (Setup_failed err, settings, fs, s')
          | (None, s') \<Rightarrow>
              let settings' = settings\<lparr>cs_Deployment := Some (deploymentFromOpts opts)\<rparr>
              in (Setup_done opts, settings', saveSettings S dk fs stateDir settings', s')))"

text \<open>
  The wait for the server: a probe, then three seconds, while no more than 45 have passed. \<open>probe i\<close> is the
  answer to the \<open>i\<close>-th request; the result is whether one was good and how many were sent.
\<close>

function poll_health :: "(nat \<Rightarrow> bool) \<Rightarrow> nat \<Rightarrow> int \<Rightarrow> bool \<times> nat" where
  "poll_health probe i waited =
     (if waited \<le> 45 * sint Second then
        (if probe i then (True, Suc i) else poll_health probe (Suc i) (waited + 3 * sint Second))
      else (False, i))"
  by pat_completeness auto
termination by (relation "measure (\<lambda>(probe, i, waited). nat (48 * sint Second - waited))") auto

declare poll_health.simps [simp del]

definition pollHealthThenFinish :: "(nat \<Rightarrow> bool) \<Rightarrow> bool \<times> nat" where
  "pollHealthThenFinish probe = poll_health probe 0 0"

lemma poll_from:
  "i \<le> 16 \<Longrightarrow> poll_health probe i (int i * (3 * sint Second)) =
     (case find probe [i..<16] of Some j \<Rightarrow> (True, Suc j) | None \<Rightarrow> (False, 16))"
proof (induction "16 - i" arbitrary: i)
  case 0
  then show ?case by (simp add: poll_health.simps)
next
  case (Suc n)
  then have i: "i < 16" by simp
  then have u: "[i..<16] = i # [Suc i..<16]" by (simp add: upt_rec)
  have "int i * (3 * sint Second) \<le> 45 * sint Second" using i by simp
  moreover have "int i * (3 * sint Second) + 3 * sint Second = int (Suc i) * (3 * sint Second)" by (simp add: algebra_simps)
  ultimately show ?case using Suc i by (subst poll_health.simps) (simp only: u find.simps, simp)
qed

lemma poll_result:
  "pollHealthThenFinish probe = (case find probe [0..<16] of Some j \<Rightarrow> (True, Suc j) | None \<Rightarrow> (False, 16))"
  using poll_from [of 0 probe] by (simp add: pollHealthThenFinish_def)


section \<open>A setup reaches the machine and is remembered\<close>

lemma parseTLSMode_String [simp]: "parseTLSMode uni (TLSMode_String m) = m"
proof -
  have "TrimSpace ''proxy'' = ''proxy''" "TrimSpace ''builtin'' = ''builtin''"
    by (rule TrimSpace_plain; simp add: plain_char_def)+
  then show ?thesis
    by (cases m) (simp_all add: parseTLSMode_def TLSMode_String_def EqualFold_def is_ascii_def upper_char_def)
qed

definition sent_opts :: "DeployOpts \<Rightarrow> DeployOpts" where
  "sent_opts d = (if do_Mode d = TLSModeProxy then d else d\<lparr>do_Addr := defaultProxyAddr\<rparr>)"

lemma installArgs_parsed:
  "\<exists>f. parse_service_flags parse_int default_flags (installArgs d) = Some f \<and> flags_opts uni f = sent_opts d"
  by (cases d; cases "do_Mode d"; cases "do_AcmeEmail d = ''''")
    (simp_all add: installArgs_def flag_name_def set_flag_def flags_opts_def sent_opts_def default_flags_def)

lemma kept_sent: "kept_opts (sent_opts d) = kept_opts d"
  by (cases d; cases "do_Mode d") (simp_all add: kept_opts_def sent_opts_def withDefaults_record Let_def)

lemma plain_sent: "plain_opts d \<Longrightarrow> plain_opts (sent_opts d)"
proof -
  have "plain_option defaultProxyAddr" by code_simp
  then show "plain_opts d \<Longrightarrow> plain_opts (sent_opts d)" by (simp add: plain_opts_def sent_opts_def)
qed

text \<open>A command that crosses the privilege boundary successfully is a run of the private command line.\<close>

lemma verb_ran:
  assumes "execServiceVerb (local_runner E ctrl pi sudo_ok update data other) euid selfPath verb args s = (None, s')"
    and "selfPath \<noteq> ''sudo''" "\<not> invokedAsCreatorMenu selfPath"
  shows "runServiceSubcommand E ctrl pi True update (data s) (verb # args) s = (0, s')"
  using assms
  by (auto simp: execServiceVerb_def serviceVerbCommand_def local_runner_def Let_def service_reached split: if_splits prod.splits)

lemma install_ran:
  assumes "runServiceSubcommand E (systemctlController Y ts) pi True update dat (''install'' # installArgs d) m = (0, m')"
  shows "mc_unit m' = Some (bytes_of (renderUnitFile (sent_opts d)))"
proof -
  obtain f where f: "parse_service_flags pi default_flags (installArgs d) = Some f" "flags_opts (env_fold E) f = sent_opts d"
    using installArgs_parsed by blast
  then obtain out where "dispatchServiceVerb E (systemctlController Y ts) ''install'' (sent_opts d) (sf_n f) m = (None, out, m')"
    using assms by (auto simp: runServiceSubcommand_def Let_def split: if_splits prod.splits option.splits)
  then show ?thesis by (rule systemctl.dispatch_installs)
qed

lemma enable_ran:
  assumes "runServiceSubcommand E (systemctlController Y ts) pi True update dat [''enable-now''] m = (0, m')"
  shows "mc_unit m' = mc_unit m"
  using assms systemctl.dispatch_keeps [of "''enable-now''" E Y ts _ _ m]
  by (auto simp: runServiceSubcommand_def Let_def split: prod.splits option.splits)
    (metis snd_conv)+

lemma setup_runs:
  assumes "runSetupCommands (local_runner E (systemctlController Y ts) pi sudo_ok update data other) euid selfPath (installArgs d) m = (None, m')"
    and "selfPath \<noteq> ''sudo''" "\<not> invokedAsCreatorMenu selfPath"
  shows "mc_unit m' = Some (bytes_of (renderUnitFile (sent_opts d)))"
  using assms(1) install_ran enable_ran verb_ran [OF _ assms(2,3)]
  by (fastforce simp: runSetupCommands_def split: prod.splits option.splits)

end
