(* ===== verification/Startup.thy ===== *)
theory Startup
  imports Setup Redeem
begin

text \<open>
  \<^verbatim>\<open>main.go\<close>: the server's command line, and
  what it decides before it listens: the address, the public URL, the proxies whose forwarded
  addresses it trusts, and the way it serves; then the events it waits for until it exits. \<^verbatim>\<open>version.go\<close>
  is the text of the version command.
\<close>

section \<open>The version\<close>

definition runVersionSubcommand :: "string \<Rightarrow> string \<Rightarrow> string \<Rightarrow> string \<times> nat" where
  "runVersionSubcommand version commit date =
     (if commit \<noteq> '''' \<or> date \<noteq> ''''
      then (''creator-server '' @ version @ '' (commit '' @ commit @ '', built '' @ date @ '')'' @ [newline], 0)
      else (''creator-server '' @ version @ [newline], 0))"


section \<open>The server's command line\<close>

record server_flags =
  fl_addr :: string
  fl_cert :: string
  fl_key :: string
  fl_state_dir :: string
  fl_public_issuer_url :: string
  fl_trusted_proxy :: string
  fl_domain :: string
  fl_acme_email :: string
  fl_acme_cache_dir :: string
  fl_acme_staging :: bool
  fl_debug :: bool
  fl_addr_set :: bool

definition default_server_flags :: server_flags where
  "default_server_flags = \<lparr>fl_addr = '':8443'', fl_cert = '''', fl_key = '''', fl_state_dir = '''', fl_public_issuer_url = '''',
     fl_trusted_proxy = '''', fl_domain = '''', fl_acme_email = '''', fl_acme_cache_dir = '''', fl_acme_staging = False,
     fl_debug = False, fl_addr_set = False\<rparr>"

text \<open>\<^verbatim>\<open>strconv.ParseBool\<close>, for the value of a boolean flag.\<close>

definition ParseBool :: "string \<Rightarrow> bool option" where
  "ParseBool s =
     (if s \<in> {''1'', ''t'', ''T'', ''TRUE'', ''true'', ''True''} then Some True
      else if s \<in> {''0'', ''f'', ''F'', ''FALSE'', ''false'', ''False''} then Some False else None)"

definition bool_flag :: "string \<Rightarrow> bool" where
  "bool_flag name = (name = ''acme-staging'' \<or> name = ''debug'')"

text \<open>\<open>flagWasSet\<close> is asked for the address alone, so the record keeps that.\<close>

definition set_server_flag :: "string \<Rightarrow> string \<Rightarrow> server_flags \<Rightarrow> server_flags option" where
  "set_server_flag name v f =
     (if name = ''addr'' then Some (f\<lparr>fl_addr := v, fl_addr_set := True\<rparr>)
      else if name = ''cert'' then Some (f\<lparr>fl_cert := v\<rparr>)
      else if name = ''key'' then Some (f\<lparr>fl_key := v\<rparr>)
      else if name = ''state-dir'' then Some (f\<lparr>fl_state_dir := v\<rparr>)
      else if name = ''public-issuer-url'' then Some (f\<lparr>fl_public_issuer_url := v\<rparr>)
      else if name = ''trusted-proxy'' then Some (f\<lparr>fl_trusted_proxy := v\<rparr>)
      else if name = ''domain'' then Some (f\<lparr>fl_domain := v\<rparr>)
      else if name = ''acme-email'' then Some (f\<lparr>fl_acme_email := v\<rparr>)
      else if name = ''acme-cache-dir'' then Some (f\<lparr>fl_acme_cache_dir := v\<rparr>)
      else if name = ''acme-staging'' then map_option (\<lambda>b. f\<lparr>fl_acme_staging := b\<rparr>) (ParseBool v)
      else if name = ''debug'' then map_option (\<lambda>b. f\<lparr>fl_debug := b\<rparr>) (ParseBool v)
      else None)"

text \<open>The parser exits with 2 on an error, and with 0 when the help is asked for.\<close>

definition flag_exit :: "string \<Rightarrow> nat" where
  "flag_exit name = (if name = ''help'' \<or> name = ''h'' then 0 else 2)"

definition apply_flag :: "string \<Rightarrow> string \<Rightarrow> server_flags \<Rightarrow> nat + server_flags" where
  "apply_flag name v f = (case set_server_flag name v f of None \<Rightarrow> Err (flag_exit name) | Some f' \<Rightarrow> Ok f')"

fun parse_server_flags :: "server_flags \<Rightarrow> string list \<Rightarrow> nat + server_flags" where
  "parse_server_flags f [] = Ok f"
| "parse_server_flags f [tok] =
     (case flag_name tok of
        None \<Rightarrow> Ok f
      | Some name \<Rightarrow>
          if name = [] \<or> hd name \<in> {CHR ''-'', CHR ''=''} then Err 2
          else (case Cut (CHR ''='') name of
              Some (k, v) \<Rightarrow> apply_flag k v f
            | None \<Rightarrow> if bool_flag name then apply_flag name ''true'' f else Err (flag_exit name)))"
| "parse_server_flags f (tok # v # toks) =
     (case flag_name tok of
        None \<Rightarrow> Ok f
      | Some name \<Rightarrow>
          if name = [] \<or> hd name \<in> {CHR ''-'', CHR ''=''} then Err 2
          else (case Cut (CHR ''='') name of
              Some (k, v') \<Rightarrow>
                (case apply_flag k v' f of Err e \<Rightarrow> Err e | Ok f' \<Rightarrow> parse_server_flags f' (v # toks))
            | None \<Rightarrow>
                if bool_flag name then
                  (case apply_flag name ''true'' f of Err e \<Rightarrow> Err e | Ok f' \<Rightarrow> parse_server_flags f' (v # toks))
                else (case apply_flag name v f of Err e \<Rightarrow> Err e | Ok f' \<Rightarrow> parse_server_flags f' toks)))"


section \<open>Proxies\<close>

text \<open>
  \<open>net.ParseIP\<close> (with \<open>To4\<close> as a test) and \<open>net.ParseCIDR\<close> (the network as the test of membership),
  \<open>net.SplitHostPort\<close> and \<open>IsLoopback\<close>.
\<close>

record netconf =
  nf_ParseIP :: "string \<Rightarrow> bytes option"
  nf_is4 :: "bytes \<Rightarrow> bool"
  nf_ParseCIDR :: "string \<Rightarrow> (bytes \<Rightarrow> bool) option"
  nf_SplitHost :: "string \<Rightarrow> string option"
  nf_IsLoopback :: "bytes \<Rightarrow> bool"

fun trusted_entries :: "netconf \<Rightarrow> string list \<Rightarrow> string + (bytes \<Rightarrow> bool) list" where
  "trusted_entries N [] = Ok []"
| "trusted_entries N (raw # raws) =
     (let entry = TrimSpace raw in
      if entry = '''' then trusted_entries N raws
      else
        let cidr = (if CHR ''/'' \<in> set entry then entry
              else (case nf_ParseIP N entry of
                  None \<Rightarrow> entry
                | Some ip \<Rightarrow> entry @ (if nf_is4 N ip then ''/32'' else ''/128'')))
        in (case nf_ParseCIDR N cidr of
              None \<Rightarrow> Err (''invalid CIDR '' @ raw)
            | Some ipNet \<Rightarrow> (case trusted_entries N raws of Err e \<Rightarrow> Err e | Ok nets \<Rightarrow> Ok (ipNet # nets))))"

definition parseTrustedProxies :: "netconf \<Rightarrow> string \<Rightarrow> string + (bytes \<Rightarrow> bool) list" where
  "parseTrustedProxies N csv = trusted_entries N (Split (CHR '','') csv)"

definition isLoopbackBind :: "netconf \<Rightarrow> string \<Rightarrow> bool" where
  "isLoopbackBind N addr =
     (let host = (case nf_SplitHost N addr of None \<Rightarrow> addr | Some h \<Rightarrow> h) in
      if host = '''' then False
      else if host = ''localhost'' then True
      else (case nf_ParseIP N host of None \<Rightarrow> False | Some ip \<Rightarrow> nf_IsLoopback N ip))"

definition loopbackCIDRs :: "netconf \<Rightarrow> (bytes \<Rightarrow> bool) list" where
  "loopbackCIDRs N = (case parseTrustedProxies N ''127.0.0.1/32,::1/128'' of Err e \<Rightarrow> [] | Ok nets \<Rightarrow> nets)"

definition csvHasDefaultRoute :: "string \<Rightarrow> bool" where
  "csvHasDefaultRoute csv = list_ex (\<lambda>raw. TrimSpace raw \<in> {''0.0.0.0/0'', ''::/0''}) (Split (CHR '','') csv)"


section \<open>Starting\<close>

datatype listener = Builtin_TLS | Supplied_TLS string string | Plain_HTTP

record server_config =
  sc_effectiveAddr :: string
  sc_State :: State
  sc_listener :: listener
  sc_challenge :: bool
  sc_cacheDir :: string
  sc_acmeStaging :: bool
  sc_defaultRouteWarning :: bool

datatype start_result = Exits nat | Runs server_config

text \<open>\<open>state\<close> is the outcome of \<open>NewStateWithDir\<close>, \<open>mkdir\<close> that of creating the cache directory.\<close>

definition trusted_of :: "netconf \<Rightarrow> server_flags \<Rightarrow> string \<Rightarrow> string + (bytes \<Rightarrow> bool) list" where
  "trusted_of N f effectiveAddr =
     (if fl_trusted_proxy f \<noteq> '''' then parseTrustedProxies N (fl_trusted_proxy f)
      else if fl_domain f = '''' \<and> isLoopbackBind N effectiveAddr then Ok (loopbackCIDRs N)
      else Ok [])"

definition cache_dir :: "server_flags \<Rightarrow> string" where
  "cache_dir f =
     (if fl_acme_cache_dir f \<noteq> '''' then fl_acme_cache_dir f
      else if fl_state_dir f \<noteq> '''' then in_dir (fl_state_dir f) ''acme'' else ''acme-cache'')"

text \<open>The certificate manager behind \<^verbatim>\<open>-domain\<close>: the one host, the cache, the account and the directory (\<open>None\<close>: the default).\<close>

record cert_manager =
  cm_HostWhitelist :: string
  cm_DirCache :: string
  cm_Email :: string
  cm_DirectoryURL :: "string option"

definition letsEncryptStagingURL :: string where
  "letsEncryptStagingURL = ''https://acme-staging-v02.api.letsencrypt.org/directory''"

definition autocert_manager :: "server_flags \<Rightarrow> cert_manager option" where
  "autocert_manager f =
     (if fl_domain f = '''' then None
      else Some \<lparr>cm_HostWhitelist = fl_domain f, cm_DirCache = cache_dir f, cm_Email = fl_acme_email f,
        cm_DirectoryURL = (if fl_acme_staging f then Some letsEncryptStagingURL else None)\<rparr>)"

text \<open>\<open>None\<close>: a certificate without its key.\<close>

definition listen_mode :: "server_flags \<Rightarrow> listener option" where
  "listen_mode f =
     (if fl_domain f \<noteq> '''' then Some Builtin_TLS
      else if fl_cert f \<noteq> '''' then (if fl_key f = '''' then None else Some (Supplied_TLS (fl_cert f) (fl_key f)))
      else Some Plain_HTTP)"

definition start_server :: "netconf \<Rightarrow> string + State \<Rightarrow> bool \<Rightarrow> server_flags \<Rightarrow> start_result" where
  "start_server N state mkdir f =
     (case state of Err e \<Rightarrow> Exits 1
      | Ok s \<Rightarrow>
          if fl_domain f \<noteq> '''' \<and> list_ex (\<lambda>c. c \<in> set ''/: '') (fl_domain f) then Exits 2
          else
            let effectiveAddr = (if fl_domain f \<noteq> '''' \<and> \<not> fl_addr_set f then '':443'' else fl_addr f);
                issuerURL = (if fl_public_issuer_url f = '''' \<and> fl_domain f \<noteq> ''''
                  then ''https://'' @ fl_domain f @ ''/v1/issue'' else fl_public_issuer_url f)
            in
            if issuerURL \<noteq> '''' \<and> \<not> HasPrefix issuerURL ''https://'' then Exits 2
            else (case trusted_of N f effectiveAddr of Err e \<Rightarrow> Exits 2
              | Ok nets \<Rightarrow>
                  let s1 = (if issuerURL \<noteq> '''' then s\<lparr>st_PublicIssuerURL := issuerURL\<rparr> else s);
                      s2 = (if fl_trusted_proxy f \<noteq> '''' \<or> fl_domain f = '''' \<and> isLoopbackBind N effectiveAddr
                        then s1\<lparr>st_TrustedProxies := nets\<rparr> else s1)
                  in if fl_domain f \<noteq> '''' \<and> \<not> mkdir then Exits 1
                     else (case listen_mode f of None \<Rightarrow> Exits 2
                       | Some l \<Rightarrow> Runs \<lparr>sc_effectiveAddr = effectiveAddr, sc_State = s2, sc_listener = l,
                           sc_challenge = (fl_domain f \<noteq> ''''), sc_cacheDir = (if fl_domain f \<noteq> '''' then cache_dir f else ''''),
                           sc_acmeStaging = fl_acme_staging f,
                           sc_defaultRouteWarning = csvHasDefaultRoute (fl_trusted_proxy f)\<rparr>)))"

definition run_server :: "netconf \<Rightarrow> (string \<Rightarrow> string + State) \<Rightarrow> (string \<Rightarrow> bool) \<Rightarrow> string list \<Rightarrow> start_result" where
  "run_server N newState mkdir args =
     (case parse_server_flags default_server_flags args of
        Err status \<Rightarrow> Exits status
      | Ok f \<Rightarrow> start_server N (newState (fl_state_dir f)) (mkdir (cache_dir f)) f)"


section \<open>Until it ends\<close>

text \<open>
  What main waits for once it listens: a tick of the sweep timer, the end of a listener (with the
  error that an ordinary close gives, or another), or a signal, after which the listeners
  are shut down within ten seconds or not. The challenge listener only logs its errors.
\<close>

datatype main_event = Tick time | Listener_ended bool | Interrupt bool

text \<open>The exit status, \<open>None\<close> while it runs, and the state.\<close>

fun serve_until_exit :: "State \<Rightarrow> main_event list \<Rightarrow> nat option \<times> State" where
  "serve_until_exit s [] = (None, s)"
| "serve_until_exit s (Tick now # es) = serve_until_exit (SweepRateLimiters s now (1 * Hour)) es"
| "serve_until_exit s (Listener_ended closed # es) = (if closed then serve_until_exit s es else (Some 1, s))"
| "serve_until_exit s (Interrupt graceful # es) = (Some (if graceful then 0 else 1), s)"

text \<open>The timer changes nothing but the two limiters, so keys, registries and tokens of a running server are its handlers' alone.\<close>

lemma ticks_sweep_only:
  "snd (serve_until_exit s es) = s\<lparr>st_issuanceLimiter := st_issuanceLimiter (snd (serve_until_exit s es)),
     st_redemptionLimiter := st_redemptionLimiter (snd (serve_until_exit s es))\<rparr>"
proof (induction s es rule: serve_until_exit.induct)
  case (2 s now es)
  then show ?case by (cases s) (simp add: SweepRateLimiters_def)
qed simp_all


section \<open>The server the setup installs\<close>


text \<open>
  With built-in HTTPS the installed command asks for certificates of the entered host and no other, under the entered
  address, and keeps them where the server page of the console reads their expiry.
\<close>

theorem certificates_where_console_looks:
  assumes "plain_opts d" "do_Mode d = TLSModeBuiltin"
  shows "\<exists>f. parse_server_flags default_server_flags (drop 1 (command_words d)) = Ok f \<and>
    autocert_manager f = Some \<lparr>cm_HostWhitelist = do_Domain d, cm_DirCache = in_dir (do_StateDir (withDefaults d)) ''acme'',
      cm_Email = do_AcmeEmail d, cm_DirectoryURL = None\<rparr>"
proof -
  have n: "do_Domain d \<noteq> ''''" "do_StateDir (withDefaults d) \<noteq> ''''"
    using assms(1) by (simp_all add: plain_opts_def plain_option_def withDefaults_record defaultConsoleStateDir_def)
  have "do_AcmeEmail (withDefaults d) = do_AcmeEmail d" by (simp add: withDefaults_record)
  then show ?thesis using assms(2) n
    by (cases "do_AcmeEmail d = ''''")
      (simp_all add: command_words_def Let_def flag_name_def apply_flag_def set_server_flag_def bool_flag_def default_server_flags_def
        autocert_manager_def cache_dir_def)
qed
















section \<open>Whose forwarded addresses count\<close>

definition peer_host :: "netops \<Rightarrow> http_request \<Rightarrow> string" where
  "peer_host M r = (case np_SplitHost M (hr_RemoteAddr r) of None \<Rightarrow> hr_RemoteAddr r | Some h \<Rightarrow> h)"

text \<open>
  The address a client is limited by is that of its connection, unless the connection comes from a
  proxy that was named on the command line, or, when none was named and the server is bound to the
  loopback interface without a domain, from this host.
\<close>

theorem forwarded_only_by_proxies:
  assumes "run_server N newState mkdir args = Runs c" "parse_server_flags default_server_flags args = Ok f"
    and "newState (fl_state_dir f) = Ok s" "st_TrustedProxies s = []"
    and "clientIP M r (st_TrustedProxies (sc_State c)) \<noteq> peer_host M r"
  shows "(fl_trusted_proxy f \<noteq> '''' \<and> (\<exists>nets. parseTrustedProxies N (fl_trusted_proxy f) = Ok nets \<and> ipInAny M (peer_host M r) nets)) \<or>
    (fl_trusted_proxy f = '''' \<and> fl_domain f = '''' \<and> isLoopbackBind N (fl_addr f) \<and> ipInAny M (peer_host M r) (loopbackCIDRs N))"
proof -
  have run: "start_server N (Ok s) (mkdir (cache_dir f)) f = Runs c" using assms(1-3) by (simp add: run_server_def)
  have peer: "ipInAny M (peer_host M r) (st_TrustedProxies (sc_State c))"
    using assms(5) by (auto simp: clientIP_def peer_host_def Let_def split: if_splits)
  then have "st_TrustedProxies (sc_State c) \<noteq> []" by (auto simp: ipInAny_def split: option.splits)
  show ?thesis
  proof (cases "fl_trusted_proxy f = ''''")
    case True
    then show ?thesis using run assms(4) peer \<open>st_TrustedProxies (sc_State c) \<noteq> []\<close>
      by (auto simp: start_server_def trusted_of_def Let_def split: if_splits option.splits)
  next
    case False
    then show ?thesis using run peer
      by (auto simp: start_server_def trusted_of_def Let_def split: if_splits sum.splits option.splits)
  qed
qed

end
