(* ===== verification/Config_Edit.thy ===== *)
theory Config_Edit
  imports Registry Redeem Canonical_Json
begin

text \<open>
  What the console does to the registry of configurations, from \<^verbatim>\<open>management.go\<close>, \<^verbatim>\<open>configedit.go\<close>
  and the forms of \<^verbatim>\<open>menu.go\<close>: decoding a registration, importing, renaming, replacing and
  removing a configuration. The forms and screens themselves are not modelled: each form is its submit
  button, as a function of the fields' texts. A session of edits refines the same edits on a map.
\<close>

section \<open>The registry file\<close>

text \<open>
  \<^verbatim>\<open>encoding/json\<close> as the console uses it: marshalling the list of entries, the members of an
  object in their raw text (later duplicates replace earlier ones, so the keys are distinct; \<open>null\<close>
  has none), the scalars, \<open>json.Compact\<close>, and the three fields of an imported configuration
  (type, V2Ray profile, SSH configuration; a missing one is empty).
\<close>

record console_json =
  cj_marshal_configs :: "ConfigEntry list \<Rightarrow> bytes option"
  cj_members :: "bytes \<Rightarrow> (string \<times> bytes) list option"
  cj_string :: "bytes \<Rightarrow> string option"
  cj_int :: "bytes \<Rightarrow> int option"
  cj_bool :: "bytes \<Rightarrow> bool option"
  cj_compact :: "bytes \<Rightarrow> bytes option"
  cj_imported :: "bytes \<Rightarrow> (string \<times> bytes \<times> bytes) option"

definition readConfigEntries :: "json \<Rightarrow> disk \<Rightarrow> fsys \<Rightarrow> string \<Rightarrow> string + ConfigEntry list" where
  "readConfigEntries J dk fs path =
     (case os_ReadFile dk fs path of
        Read_NotExist \<Rightarrow> Ok []
      | Read_Error \<Rightarrow> Err ''read''
      | Read_Data data \<Rightarrow>
          (case js_unmarshal_configs J data of None \<Rightarrow> Err (''parse '' @ path) | Some list \<Rightarrow> Ok list))"

definition writeConfigEntries ::
    "console_json \<Rightarrow> disk \<Rightarrow> fsys \<Rightarrow> string \<Rightarrow> ConfigEntry list \<Rightarrow> string option \<times> fsys" where
  "writeConfigEntries X dk fs path list =
     (case cj_marshal_configs X list of
        None \<Rightarrow> (Some ''marshal'', fs)
      | Some data \<Rightarrow> atomicWriteFile (dk_io dk) fs path data 384)"


section \<open>Decoding a registration\<close>

definition configRegistrationKind :: string where
  "configRegistrationKind = ''npv-config-registration''"

record registrationPolicy =
  rp_blockRooted :: bool
  rp_iosAppID :: string
  rp_onlyMobileNetwork :: bool
  rp_expiresAt :: string
  rp_displayMessage :: string
  rp_customServerMessage :: string

definition compactJSONObject :: "console_json \<Rightarrow> bytes \<Rightarrow> string + bytes" where
  "compactJSONObject X raw =
     (case cj_members X raw of
        None \<Rightarrow> Err ''config body did not decode to a JSON object''
      | Some members \<Rightarrow>
          if members = [] then Err ''config body decoded to an empty object''
          else (case cj_compact X raw of None \<Rightarrow> Err ''compact config JSON'' | Some buffer \<Rightarrow> Ok buffer))"

definition validateImportedConfig :: "env \<Rightarrow> console_json \<Rightarrow> bytes \<Rightarrow> string option" where
  "validateImportedConfig E X body =
     (case cj_imported X body of
        None \<Rightarrow> Some ''decode imported config''
      | Some (type, v2rayProfile, sshConfig) \<Rightarrow>
          if type = ''V2RAY'' then
            (case compactJSONObject X v2rayProfile of
               Err _ \<Rightarrow> Some ''V2RAY registration is missing a valid v2rayProfile'' | Ok _ \<Rightarrow> None)
          else if type = ''SSH'' then
            (case compactJSONObject X sshConfig of
               Err _ \<Rightarrow> Some ''SSH registration is missing a valid sshConfig'' | Ok _ \<Rightarrow> None)
          else Some (''registration contains unsupported config type '' @ env_quote E type))"

text \<open>The local function \<open>decode\<close>: a member that is missing or of the wrong type leaves the zero value.\<close>

definition decode_member :: "(bytes \<Rightarrow> 'a option) \<Rightarrow> 'a \<Rightarrow> (string \<times> bytes) list \<Rightarrow> string \<Rightarrow> 'a" where
  "decode_member un z members key =
     (case map_of members key of
        None \<Rightarrow> z
      | Some field \<Rightarrow> (case un field of None \<Rightarrow> z | Some v \<Rightarrow> v))"

definition registration_policy :: "console_json \<Rightarrow> (string \<times> bytes) list \<Rightarrow> registrationPolicy" where
  "registration_policy X members =
     \<lparr>rp_blockRooted = decode_member (cj_bool X) False members ''blockRooted'',
      rp_iosAppID = decode_member (cj_string X) '''' members ''iosAppId'',
      rp_onlyMobileNetwork = decode_member (cj_bool X) False members ''onlyMobileNetwork'',
      rp_expiresAt = decode_member (cj_string X) '''' members ''expiresAt'',
      rp_displayMessage = decode_member (cj_string X) '''' members ''displayMessage'',
      rp_customServerMessage = decode_member (cj_string X) '''' members ''customServerMessage''\<rparr>"

definition registration_candidate :: "string \<Rightarrow> string + bytes" where
  "registration_candidate value =
     (if HasPrefix value ''{'' then Ok (bytes_of value)
      else (case DecodeString value of
          None \<Rightarrow> Err ''config string is neither JSON nor base64url'' | Some decoded \<Rightarrow> Ok decoded))"

definition decodeConfigRegistration ::
    "env \<Rightarrow> console_json \<Rightarrow> string \<Rightarrow> string + bytes \<times> registrationPolicy" where
  "decodeConfigRegistration E X value0 =
     (let value = TrimSpace value0 in
      if value = '''' then Err ''empty config string''
      else (case registration_candidate value of Err e \<Rightarrow> Err e
      | Ok candidate \<Rightarrow>
     (case cj_members X candidate of None \<Rightarrow> Err ''config string did not decode to a JSON object''
      | Some members \<Rightarrow>
     if members = [] then Err ''config decoded to an empty object''
     else if Option.bind (map_of members ''kind'') (cj_string X) \<noteq> Some configRegistrationKind
     then Err ''input is not an app registration export''
     else if Option.bind (map_of members ''v'') (cj_int X) \<noteq> Some 1
     then Err ''unsupported or missing registration version''
     else (case map_of members ''config'' of None \<Rightarrow> Err ''registration export is missing its config body''
      | Some bodyRaw \<Rightarrow>
     if bodyRaw = [] then Err ''registration export is missing its config body''
     else (case compactJSONObject X bodyRaw of Err e \<Rightarrow> Err e
      | Ok body \<Rightarrow>
     (case validateImportedConfig E X body of Some e \<Rightarrow> Err e
      | None \<Rightarrow> Ok (body, registration_policy X members)))))))"

definition issuedPolicyFrom :: "registrationPolicy \<Rightarrow> envelopePolicy option" where
  "issuedPolicyFrom p =
     (if \<not> rp_onlyMobileNetwork p \<and> rp_expiresAt p = '''' \<and> rp_displayMessage p = '''' \<and> rp_customServerMessage p = ''''
      then None
      else Some \<lparr>ep_OnlyMobileNetwork = rp_onlyMobileNetwork p, ep_AttestationLevel = ''NONE'',
        ep_ExpiresAt = ptrOrNil (rp_expiresAt p), ep_DisplayMessage = rp_displayMessage p,
        ep_CustomServerMessage = rp_customServerMessage p\<rparr>)"

definition registered_policy :: "registrationPolicy \<Rightarrow> AttestationPolicy option" where
  "registered_policy p = (if rp_blockRooted p then Some (strictDeviceAttestationPolicy (rp_iosAppID p)) else None)"


section \<open>Editing the registry\<close>

text \<open>
  Each operation reads the file, changes the list and writes it back. What other processes do to
  the file system between the read and the write is \<open>dk_between\<close>.
\<close>

definition configs_path :: "string \<Rightarrow> string" where
  "configs_path dir = in_dir dir ''configs.json''"

definition not_found :: "string \<Rightarrow> string" where
  "not_found i = ''config '' @ shortBase64 i @ '' not found in configs.json''"

text \<open>The loop over the entries that changes the first with the given identifier, if there is one.\<close>

fun update_first :: "string \<Rightarrow> (ConfigEntry \<Rightarrow> ConfigEntry) \<Rightarrow> ConfigEntry list \<Rightarrow> ConfigEntry list option" where
  "update_first i f [] = None"
| "update_first i f (e # es) =
     (if ce_ConfigID e = i then Some (f e # es) else map_option ((#) e) (update_first i f es))"

definition setConfigDisplayName ::
    "json \<Rightarrow> console_json \<Rightarrow> disk \<Rightarrow> fsys \<Rightarrow> string \<Rightarrow> string \<Rightarrow> string \<Rightarrow> string option \<times> fsys" where
  "setConfigDisplayName J X dk fs dir i value =
     (case readConfigEntries J dk fs (configs_path dir) of Err e \<Rightarrow> (Some e, fs)
      | Ok list \<Rightarrow>
          (case update_first i (\<lambda>e. e\<lparr>ce_DisplayName := normalizeDisplayName value\<rparr>) list of
             None \<Rightarrow> (Some (not_found i), fs)
           | Some list' \<Rightarrow> writeConfigEntries X dk (dk_between dk fs) (configs_path dir) list'))"

definition replaced_entry :: "bytes \<Rightarrow> registrationPolicy \<Rightarrow> ConfigEntry \<Rightarrow> ConfigEntry" where
  "replaced_entry body p e =
     e\<lparr>ce_Config := body, ce_AttestationPolicy := registered_policy p, ce_IssuedPolicy := issuedPolicyFrom p\<rparr>"

definition replaceConfigRegistration ::
    "json \<Rightarrow> console_json \<Rightarrow> disk \<Rightarrow> fsys \<Rightarrow> string \<Rightarrow> string \<Rightarrow> bytes \<Rightarrow> registrationPolicy \<Rightarrow> string option \<times> fsys" where
  "replaceConfigRegistration J X dk fs dir i body p =
     (case readConfigEntries J dk fs (configs_path dir) of Err e \<Rightarrow> (Some e, fs)
      | Ok list \<Rightarrow>
          (case update_first i (replaced_entry body p) list of
             None \<Rightarrow> (Some (not_found i), fs)
           | Some list' \<Rightarrow> writeConfigEntries X dk (dk_between dk fs) (configs_path dir) list'))"

definition removeConfig :: "json \<Rightarrow> console_json \<Rightarrow> disk \<Rightarrow> fsys \<Rightarrow> string \<Rightarrow> string \<Rightarrow> string option \<times> fsys" where
  "removeConfig J X dk fs dir i =
     (case readConfigEntries J dk fs (configs_path dir) of Err e \<Rightarrow> (Some e, fs)
      | Ok list \<Rightarrow>
          if \<not> list_ex (\<lambda>e. ce_ConfigID e = i) list then (Some (not_found i), fs)
          else writeConfigEntries X dk (dk_between dk fs) (configs_path dir) (filter (\<lambda>e. ce_ConfigID e \<noteq> i) list))"

definition new_entry :: "string \<Rightarrow> bytes \<Rightarrow> registrationPolicy \<Rightarrow> ConfigEntry" where
  "new_entry i body p = \<lparr>ce_ConfigID = i, ce_Config = body, ce_DisplayName = '''',
     ce_AttestationPolicy = registered_policy p, ce_IssuedPolicy = issuedPolicyFrom p, ce_ConfigTtlSec = 0\<rparr>"

definition appendConfig ::
    "json \<Rightarrow> console_json \<Rightarrow> disk \<Rightarrow> fsys \<Rightarrow> string \<Rightarrow> random_read \<Rightarrow> bytes \<Rightarrow> registrationPolicy
     \<Rightarrow> (string + string) \<times> fsys" where
  "appendConfig J X dk fs dir rnd body p =
     (if \<not> fst rnd then (Err ''rand.Read'', fs)
      else
        let i = EncodeToString (read_into envelopeConfigIDLen (snd rnd)) in
        (case readConfigEntries J dk fs (configs_path dir) of Err e \<Rightarrow> (Err e, fs)
         | Ok list \<Rightarrow>
             (case writeConfigEntries X dk (dk_between dk fs) (configs_path dir) (list @ [new_entry i body p]) of
                (Some e, fs') \<Rightarrow> (Err e, fs')
              | (None, fs') \<Rightarrow> (Ok i, fs'))))"

text \<open>The buttons of the forms.\<close>

definition register_button ::
    "env \<Rightarrow> json \<Rightarrow> console_json \<Rightarrow> disk \<Rightarrow> fsys \<Rightarrow> string \<Rightarrow> random_read \<Rightarrow> string \<Rightarrow> (string + string) \<times> fsys" where
  "register_button E J X dk fs dir rnd configStr =
     (case decodeConfigRegistration E X configStr of Err e \<Rightarrow> (Err e, fs)
      | Ok (body, p) \<Rightarrow> appendConfig J X dk fs dir rnd body p)"

definition replace_button ::
    "env \<Rightarrow> json \<Rightarrow> console_json \<Rightarrow> disk \<Rightarrow> fsys \<Rightarrow> string \<Rightarrow> string \<Rightarrow> string \<Rightarrow> string option \<times> fsys" where
  "replace_button E J X dk fs dir i configStr =
     (case decodeConfigRegistration E X (TrimSpace configStr) of Err e \<Rightarrow> (Some e, fs)
      | Ok (body, p) \<Rightarrow> replaceConfigRegistration J X dk fs dir i body p)"


section \<open>What the JSON texts keep\<close>

text \<open>
  An entry that a file can hold: texts in UTF-8, integers of 64 bits, the platforms of its policy with
  distinct keys, in the order in which they are written.
\<close>

definition arm_texts :: "AttestationArm \<Rightarrow> string list" where
  "arm_texts a = [arm_Verifier a, arm_AppID a, arm_AndroidPackageName a, arm_AndroidSigningCertSHA256 a]"

definition policy_texts :: "AttestationPolicy \<Rightarrow> string list" where
  "policy_texts p = pol_Mode p # arm_texts (pol_Arm p) @
     concat (map (\<lambda>(k, a). k # (case a of None \<Rightarrow> [] | Some a \<Rightarrow> arm_texts a)) (pol_Platforms p))"

definition issued_texts :: "envelopePolicy \<Rightarrow> string list" where
  "issued_texts p = [ep_AttestationLevel p, ep_DisplayMessage p, ep_CustomServerMessage p] @
     (case ep_ExpiresAt p of None \<Rightarrow> [] | Some t \<Rightarrow> [t])"

definition entry_texts :: "ConfigEntry \<Rightarrow> string list" where
  "entry_texts e = [ce_ConfigID e, ce_DisplayName e] @
     (case ce_AttestationPolicy e of None \<Rightarrow> [] | Some p \<Rightarrow> policy_texts p) @
     (case ce_IssuedPolicy e of None \<Rightarrow> [] | Some p \<Rightarrow> issued_texts p)"

definition int64 :: "int \<Rightarrow> bool" where
  "int64 i = (- (2 ^ 63) \<le> i \<and> i < 2 ^ 63)"

definition storable_policy :: "AttestationPolicy \<Rightarrow> bool" where
  "storable_policy p = (int64 (pol_SoftFailureTtlSec p) \<and> int64 (pol_MaxIssuancesPerHour p) \<and>
     distinct (map fst (pol_Platforms p)) \<and> sorted (map fst (pol_Platforms p)))"

definition storable_entry :: "ConfigEntry \<Rightarrow> bool" where
  "storable_entry e = (list_all (\<lambda>s. valid_text s = s) (entry_texts e) \<and> int64 (ce_ConfigTtlSec e) \<and>
     (case ce_AttestationPolicy e of None \<Rightarrow> True | Some p \<Rightarrow> storable_policy p))"

text \<open>
  The laws of \<^verbatim>\<open>encoding/json\<close> the console relies on. What is read is storable; a storable list that is
  written is read back with the configurations laid out anew (\<open>value\<close>, whatever a text stands for,
  stays, and so does its being an object); the strings it delivers are UTF-8; and compacting keeps the value of
  an object and leaves a text.
\<close>

definition same_entry :: "json \<Rightarrow> (bytes \<Rightarrow> any option) \<Rightarrow> ConfigEntry \<Rightarrow> ConfigEntry \<Rightarrow> bool" where
  "same_entry J val e e' =
     (e' = e\<lparr>ce_Config := ce_Config e'\<rparr> \<and> val (ce_Config e') = val (ce_Config e) \<and>
      (ce_Config e \<noteq> [] \<and> js_into_map J (ce_Config e) \<longrightarrow> ce_Config e' \<noteq> [] \<and> js_into_map J (ce_Config e')))"

definition reads_back :: "json \<Rightarrow> console_json \<Rightarrow> (bytes \<Rightarrow> any option) \<Rightarrow> bool" where
  "reads_back J X val =
     (\<forall>es d. list_all storable_entry es \<longrightarrow> cj_marshal_configs X es = Some d \<longrightarrow>
        (\<exists>es'. js_unmarshal_configs J d = Some es' \<and> list_all2 (same_entry J val) es es'))"

definition console_json_ok :: "json \<Rightarrow> console_json \<Rightarrow> (bytes \<Rightarrow> any option) \<Rightarrow> bool" where
  "console_json_ok J X val =
     (reads_back J X val \<and>
      (\<forall>d es. js_unmarshal_configs J d = Some es \<longrightarrow> list_all storable_entry es) \<and>
      (\<forall>d s. cj_string X d = Some s \<longrightarrow> valid_text s = s) \<and>
      (\<forall>d ms b. cj_members X d = Some ms \<longrightarrow> cj_compact X d = Some b \<longrightarrow> b \<noteq> [] \<and> js_into_map J b \<and> val b = val d))"

lemma valid_text_display [simp]: "valid_text (normalizeDisplayName s) = normalizeDisplayName s"
proof -
  have "list_all scalar (take maxDisplayNameRunes (runes t))" "list_all scalar (runes t)" for t
    using scalar_runes [of t] by (auto simp: list_all_iff dest: in_set_takeD)
  then show ?thesis by (simp add: normalizeDisplayName_def valid_text_def runes_string_of_runes Let_def)
qed

lemma ascii_texts [simp]:
  "valid_text '''' = ''''" "valid_text ''NONE'' = ''NONE''" "valid_text AttestationModeStrict = AttestationModeStrict"
  "valid_text ''ANDROID'' = ''ANDROID''" "valid_text ''IOS'' = ''IOS''" "valid_text android_key_attestation = android_key_attestation"
  "valid_text apple_app_attest = apple_app_attest" "valid_text defaultAndroidPackageName = defaultAndroidPackageName"
  "valid_text defaultAndroidSigningCertSHA256 = defaultAndroidSigningCertSHA256"
  by (rule valid_text_ascii; code_simp)+

lemma strict_valid: "valid_policy E reg (strictDeviceAttestationPolicy t)"
  by (simp add: valid_policy_def strictDeviceAttestationPolicy_def zero_arm_def)

lemma strict_storable:
  "storable_policy (strictDeviceAttestationPolicy t) \<and>
   (valid_text t = t \<longrightarrow> list_all (\<lambda>s. valid_text s = s) (policy_texts (strictDeviceAttestationPolicy t)))"
  by (simp add: storable_policy_def strictDeviceAttestationPolicy_def int64_def policy_texts_def arm_texts_def zero_arm_def)

text \<open>The texts of a registration's restrictions.\<close>

definition policy_ok :: "registrationPolicy \<Rightarrow> bool" where
  "policy_ok p = list_all (\<lambda>s. valid_text s = s) [rp_iosAppID p, rp_expiresAt p, rp_displayMessage p, rp_customServerMessage p]"

definition body_ok :: "json \<Rightarrow> bytes \<Rightarrow> bool" where
  "body_ok J body = (body \<noteq> [] \<and> js_into_map J body)"

lemma registered_policy_ok:
  "policy_ok p \<Longrightarrow> registered_policy p = Some q \<Longrightarrow>
   valid_policy E reg q \<and> storable_policy q \<and> list_all (\<lambda>s. valid_text s = s) (policy_texts q)"
  using strict_valid strict_storable [of "rp_iosAppID p"] by (auto simp: registered_policy_def policy_ok_def split: if_splits)

lemma issued_policy_ok:
  "policy_ok p \<Longrightarrow> issuedPolicyFrom p = Some q \<Longrightarrow> list_all (\<lambda>s. valid_text s = s) (issued_texts q)"
  by (auto simp: issuedPolicyFrom_def policy_ok_def issued_texts_def ptrOrNil_def split: if_splits)


lemma compact_object:
  assumes "console_json_ok J X val" "compactJSONObject X raw = Ok b"
  shows "body_ok J b \<and> val b = val raw"
  using assms unfolding console_json_ok_def body_ok_def compactJSONObject_def
  by (fastforce split: option.splits if_splits)

lemma decode_member_text:
  "console_json_ok J X val \<Longrightarrow> valid_text (decode_member (cj_string X) '''' ms k) = decode_member (cj_string X) '''' ms k"
  by (auto simp: decode_member_def console_json_ok_def split: option.splits)

lemma decode_ok:
  assumes "console_json_ok J X val" "decodeConfigRegistration E X t = Ok (body, p)"
  shows "body_ok J body \<and> policy_ok p"
proof -
  obtain ms raw where "compactJSONObject X raw = Ok body" "p = registration_policy X ms"
    using assms(2) by (auto simp: decodeConfigRegistration_def Let_def split: if_splits sum.splits option.splits)
  then show ?thesis
    using compact_object [OF assms(1)] decode_member_text [OF assms(1)] by (simp add: policy_ok_def registration_policy_def)
qed

section \<open>The file and the registry\<close>

definition stored :: "json \<Rightarrow> fsys \<Rightarrow> string \<Rightarrow> ConfigEntry list option" where
  "stored J fs path = (case files fs path of None \<Rightarrow> Some [] | Some n \<Rightarrow> js_unmarshal_configs J (content n))"

text \<open>An entry apart from the layout of its configuration, and a registry by identifier.\<close>

definition view :: "(bytes \<Rightarrow> any option) \<Rightarrow> ConfigEntry \<Rightarrow> ConfigEntry \<times> any option" where
  "view val e = (e\<lparr>ce_Config := []\<rparr>, val (ce_Config e))"

definition views :: "(bytes \<Rightarrow> any option) \<Rightarrow> ConfigEntry list \<Rightarrow> string \<rightharpoonup> ConfigEntry \<times> any option" where
  "views val es = map_of (map (\<lambda>e. (ce_ConfigID e, view val e)) es)"

definition registry_view :: "(bytes \<Rightarrow> any option) \<Rightarrow> (string \<rightharpoonup> ConfigEntry) option \<Rightarrow> string \<rightharpoonup> ConfigEntry \<times> any option" where
  "registry_view val cs = (case cs of None \<Rightarrow> Map.empty | Some m \<Rightarrow> map_option (view val) \<circ> m)"

definition good_list :: "env \<Rightarrow> json \<Rightarrow> verifierRegistry \<Rightarrow> ConfigEntry list \<Rightarrow> bool" where
  "good_list E J reg es = ((\<forall>e \<in> set es. valid_entry E J reg e) \<and> distinct (map ce_ConfigID es))"

lemma same_list:
  assumes "list_all2 (same_entry J val) es es'"
  shows "map ce_ConfigID es' = map ce_ConfigID es" "views val es' = views val es"
    "good_list E J reg es \<Longrightarrow> good_list E J reg es'"
proof -
  have id: "same_entry J val e e' \<Longrightarrow> ce_ConfigID e' = ce_ConfigID e" for e e'
    by (cases e; cases e') (simp add: same_entry_def)
  have v: "same_entry J val e e' \<Longrightarrow> view val e' = view val e" for e e'
    by (cases e; cases e') (simp add: same_entry_def view_def)
  have w: "same_entry J val e e' \<Longrightarrow> valid_entry E J reg e \<Longrightarrow> valid_entry E J reg e'" for e e'
    by (cases e; cases e') (simp add: same_entry_def valid_entry_def)
  show i: "map ce_ConfigID es' = map ce_ConfigID es" using assms id by (induction) auto
  show "views val es' = views val es" unfolding views_def using assms id v by (induction) auto
  show "good_list E J reg es'" if "good_list E J reg es"
  proof -
    have "\<forall>e \<in> set es. valid_entry E J reg e" using that by (simp add: good_list_def)
    with assms have "\<forall>e \<in> set es'. valid_entry E J reg e" by (induction) (auto intro: w)
    then show ?thesis using that i by (simp add: good_list_def)
  qed
qed

lemma views_keyed: "map_option (view val) \<circ> keyed ce_ConfigID es = views val es"
proof (rule ext)
  show "(map_option (view val) \<circ> keyed ce_ConfigID es) k = views val es k" for k
    by (induction es) (simp_all add: keyed_def views_def)
qed

lemma loads_iff:
  assumes "dk_read dk"
  shows "(\<exists>cs. loadConfigsFile E J reg dk fs path = Ok cs \<and> registry_view val cs = m) \<longleftrightarrow>
    (\<exists>es. stored J fs path = Some es \<and> good_list E J reg es \<and> m = views val es)"
proof (cases "files fs path")
  case None
  then show ?thesis using assms
    by (auto simp: loadConfigsFile_def os_ReadFile_def stored_def good_list_def registry_view_def views_def)
next
  case (Some n)
  show ?thesis
  proof (cases "js_unmarshal_configs J (content n)")
    case None
    then show ?thesis using assms Some by (simp add: loadConfigsFile_def os_ReadFile_def stored_def)
  next
    case (Some es)
    show ?thesis
    proof (cases "load_loop ce_ConfigID (check_config_entry E J reg) 0 Map.empty es")
      case (Inl x)
      then have "\<not> good_list E J reg es"
        using config_file.load_iff [of E J reg es "keyed ce_ConfigID es"] by (auto simp: good_list_def)
      then show ?thesis using Inl \<open>files fs path = Some n\<close> Some assms
        by (simp add: loadConfigsFile_def os_ReadFile_def stored_def)
    next
      case (Inr r)
      then have "good_list E J reg es \<and> r = keyed ce_ConfigID es"
        using config_file.load_iff [of E J reg es r] by (simp add: good_list_def)
      then show ?thesis using Inr \<open>files fs path = Some n\<close> Some assms views_keyed [of val es]
        by (auto simp: loadConfigsFile_def os_ReadFile_def stored_def registry_view_def)
    qed
  qed
qed


section \<open>What an edit means\<close>

datatype edit =
    Register random_read string
  | Rename string string
  | Replace string string
  | Remove string

definition run_edit ::
    "env \<Rightarrow> json \<Rightarrow> console_json \<Rightarrow> string \<Rightarrow> disk \<Rightarrow> fsys \<Rightarrow> edit \<Rightarrow> string option \<times> fsys" where
  "run_edit E J X dir dk fs ed =
     (case ed of
        Register rnd t \<Rightarrow>
          (case register_button E J X dk fs dir rnd t of (Err e, fs') \<Rightarrow> (Some e, fs') | (Ok _, fs') \<Rightarrow> (None, fs'))
      | Rename i t \<Rightarrow> setConfigDisplayName J X dk fs dir i t
      | Replace i t \<Rightarrow> replace_button E J X dk fs dir i t
      | Remove i \<Rightarrow> removeConfig J X dk fs dir i)"

definition registered_id :: "random_read \<Rightarrow> string" where
  "registered_id rnd = EncodeToString (read_into envelopeConfigIDLen (snd rnd))"

text \<open>The same edits on a registry, as a function from identifiers to entries.\<close>

definition spec_edit ::
    "env \<Rightarrow> console_json \<Rightarrow> (bytes \<Rightarrow> any option) \<Rightarrow> edit \<Rightarrow> (string \<rightharpoonup> ConfigEntry \<times> any option)
     \<Rightarrow> (string \<rightharpoonup> ConfigEntry \<times> any option)" where
  "spec_edit E X val ed m =
     (case ed of
        Register rnd t \<Rightarrow>
          (case decodeConfigRegistration E X t of Err _ \<Rightarrow> m
           | Ok (body, p) \<Rightarrow> m(registered_id rnd \<mapsto> view val (new_entry (registered_id rnd) body p)))
      | Rename i t \<Rightarrow>
          (case m i of None \<Rightarrow> m | Some (e, c) \<Rightarrow> m(i \<mapsto> (e\<lparr>ce_DisplayName := normalizeDisplayName t\<rparr>, c)))
      | Replace i t \<Rightarrow>
          (case (m i, decodeConfigRegistration E X (TrimSpace t)) of
             (Some (e, c), Ok (body, p)) \<Rightarrow> m(i \<mapsto> view val (replaced_entry body p e)) | _ \<Rightarrow> m)
      | Remove i \<Rightarrow> m(i := None))"

text \<open>The sixteen random bytes are not those of a registered configuration.\<close>

definition fresh_edit :: "edit \<Rightarrow> ConfigEntry list \<Rightarrow> bool" where
  "fresh_edit ed es = (case ed of Register rnd _ \<Rightarrow> registered_id rnd \<notin> set (map ce_ConfigID es) | _ \<Rightarrow> True)"

lemma views_Cons: "views val (e # es) = (views val es)(ce_ConfigID e \<mapsto> view val e)"
  by (simp add: views_def)

lemma views_None: "views val es i = None \<longleftrightarrow> i \<notin> ce_ConfigID ` set es"
  by (induction es) (auto simp: views_Cons, auto simp: views_def)

lemma views_snoc: "views val es (ce_ConfigID e) = None \<Longrightarrow> views val (es @ [e]) = (views val es)(ce_ConfigID e \<mapsto> view val e)"
  by (auto simp: views_def map_add_def fun_eq_iff split: option.splits)

lemma views_filter: "views val (filter (\<lambda>e. ce_ConfigID e \<noteq> i) es) = (views val es)(i := None)"
  by (induction es) (auto simp: views_Cons fun_eq_iff, auto simp: views_def)

lemma update_first_result:
  assumes "update_first i f es = Some es'" "\<And>e. ce_ConfigID (f e) = ce_ConfigID e"
  obtains e0 where "e0 \<in> set es" "views val es i = Some (view val e0)" "views val es' = (views val es)(i \<mapsto> view val (f e0))"
    "map ce_ConfigID es' = map ce_ConfigID es" "set es' \<subseteq> set es \<union> {f e0}"
  using assms(1)
proof (induction es arbitrary: es' thesis)
  case Nil
  then show ?case by simp
next
  case (Cons e es)
  show ?case
  proof (cases "ce_ConfigID e = i")
    case True
    then show ?thesis using Cons.prems by (intro Cons.prems(1) [of e]) (auto simp: views_Cons assms(2))
  next
    case False
    then obtain es2 where es2: "update_first i f es = Some es2" "es' = e # es2" using Cons.prems(2) by auto
    from Cons.IH [OF _ es2(1)] obtain e0 where e0: "e0 \<in> set es" "views val es i = Some (view val e0)"
      "views val es2 = (views val es)(i \<mapsto> view val (f e0))" "map ce_ConfigID es2 = map ce_ConfigID es" "set es2 \<subseteq> set es \<union> {f e0}"
      by blast
    then show ?thesis using False es2(2) by (intro Cons.prems(1) [of e0]) (auto simp: views_Cons fun_upd_twist)
  qed
qed

lemma valid_entry_edits:
  assumes "valid_entry E J reg e"
  shows "valid_entry E J reg (e\<lparr>ce_DisplayName := t\<rparr>)"
    "body_ok J body \<Longrightarrow> policy_ok p \<Longrightarrow> valid_entry E J reg (replaced_entry body p e)"
  using assms registered_policy_ok [of p _ E reg] by (auto simp: valid_entry_def replaced_entry_def body_ok_def)

lemma valid_new_entry:
  "body_ok J body \<Longrightarrow> policy_ok p \<Longrightarrow> length b = 16 \<Longrightarrow> valid_entry E J reg (new_entry (EncodeToString b) body p)"
  using registered_policy_ok [of p _ E reg] by (auto simp: valid_entry_def new_entry_def body_ok_def Decode_Encode)

lemma ascii_Encode: "valid_text (EncodeToString b) = EncodeToString b"
  using EncodeToString_plain [of b] by (intro valid_text_ascii) (auto simp: list_all_iff plain_char_def code_def)

lemma storable_edits:
  assumes "storable_entry e"
  shows "storable_entry (e\<lparr>ce_DisplayName := normalizeDisplayName t\<rparr>)"
    "policy_ok p \<Longrightarrow> storable_entry (replaced_entry body p e)"
  using assms registered_policy_ok [of p] issued_policy_ok [of p]
  by (auto simp: storable_entry_def entry_texts_def replaced_entry_def split: option.splits)

lemma storable_new_entry: "policy_ok p \<Longrightarrow> storable_entry (new_entry (EncodeToString b) body p)"
  using registered_policy_ok [of p] issued_policy_ok [of p]
  by (auto simp: storable_entry_def entry_texts_def new_entry_def int64_def ascii_Encode split: option.splits)


text \<open>A write either fails and leaves the file, or stores a list that is read back.\<close>

lemma write_failed: "writeConfigEntries X dk fs path es = (Some e, fs') \<Longrightarrow> stored J fs' path = stored J fs path"
  using atomicWriteFile_target(1) [of "dk_io dk" fs path _ 384 "Some e" fs']
  by (auto simp: writeConfigEntries_def stored_def split: option.splits)

lemma write_succeeded:
  assumes "writeConfigEntries X dk fs path es = (None, fs')" "console_json_ok J X val" "list_all storable_entry es"
  shows "\<exists>es'. stored J fs' path = Some es' \<and> list_all2 (same_entry J val) es es'"
proof -
  obtain d where d: "cj_marshal_configs X es = Some d" "atomicWriteFile (dk_io dk) fs path d 384 = (None, fs')"
    using assms(1) by (auto simp: writeConfigEntries_def split: option.splits)
  obtain n where "files fs' path = Some n" "content n = d"
    using atomicWriteFile_target [OF d(2)] written_content by force
  then show ?thesis using assms(2,3) d(1) by (auto simp: console_json_ok_def reads_back_def stored_def)
qed

lemma read_stored:
  assumes "readConfigEntries J dk fs path = Ok es" "console_json_ok J X val"
  shows "stored J fs path = Some es \<and> list_all storable_entry es"
  using assms by (auto simp: readConfigEntries_def stored_def os_ReadFile_def console_json_ok_def split: option.splits if_splits)

text \<open>What a successful edit writes, for a list that was read: storable, good, and as specified.\<close>

definition edited :: "env \<Rightarrow> json \<Rightarrow> verifierRegistry \<Rightarrow> console_json \<Rightarrow> (bytes \<Rightarrow> any option) \<Rightarrow> edit
    \<Rightarrow> ConfigEntry list \<Rightarrow> ConfigEntry list \<Rightarrow> bool" where
  "edited E J reg X val ed es es2 =
     (list_all storable_entry es2 \<and> views val es2 = spec_edit E X val ed (views val es) \<and>
      (good_list E J reg es \<longrightarrow> good_list E J reg es2))"

lemma edited_update:
  assumes "update_first i f es = Some es2" "\<And>e. ce_ConfigID (f e) = ce_ConfigID e" "list_all storable_entry es"
    and "\<And>e. storable_entry e \<Longrightarrow> storable_entry (f e)" "\<And>e. valid_entry E J reg e \<Longrightarrow> valid_entry E J reg (f e)"
    and spec: "\<And>e. views val es i = Some (view val e) \<Longrightarrow>
      spec_edit E X val ed (views val es) = (views val es)(i \<mapsto> view val (f e))"
  shows "edited E J reg X val ed es es2"
proof -
  obtain e0 where e0: "e0 \<in> set es" "views val es i = Some (view val e0)" "views val es2 = (views val es)(i \<mapsto> view val (f e0))"
    "map ce_ConfigID es2 = map ce_ConfigID es" "set es2 \<subseteq> set es \<union> {f e0}"
    using update_first_result [OF assms(1,2)] by metis
  have "list_all storable_entry es2" using assms(3,4) e0(1,5) by (auto simp: list_all_iff)
  moreover have "good_list E J reg es \<Longrightarrow> good_list E J reg es2" using assms(5) e0(1,4,5) by (auto simp: good_list_def)
  ultimately show ?thesis using spec [OF e0(2)] e0(3) by (simp add: edited_def)
qed

lemma spec_rename:
  "m i = Some (view val e) \<Longrightarrow>
   spec_edit E X val (Rename i t) m = m(i \<mapsto> view val (e\<lparr>ce_DisplayName := normalizeDisplayName t\<rparr>))"
  by (cases e) (simp add: spec_edit_def view_def)

lemma edited_rename:
  "update_first i (\<lambda>e. e\<lparr>ce_DisplayName := normalizeDisplayName t\<rparr>) es = Some es2 \<Longrightarrow> list_all storable_entry es \<Longrightarrow>
   edited E J reg X val (Rename i t) es es2"
  by (erule edited_update) (simp_all add: storable_edits valid_entry_edits spec_rename)

lemma spec_replace:
  "m i = Some (view val e) \<Longrightarrow> decodeConfigRegistration E X (TrimSpace t) = Ok (body, p) \<Longrightarrow>
   spec_edit E X val (Replace i t) m = m(i \<mapsto> view val (replaced_entry body p e))"
  by (cases e) (simp add: spec_edit_def view_def replaced_entry_def)

lemma edited_replace:
  "update_first i (replaced_entry body p) es = Some es2 \<Longrightarrow> list_all storable_entry es \<Longrightarrow>
   body_ok J body \<Longrightarrow> policy_ok p \<Longrightarrow> decodeConfigRegistration E X (TrimSpace t) = Ok (body, p) \<Longrightarrow>
   edited E J reg X val (Replace i t) es es2"
  by (erule edited_update) (simp_all add: storable_edits valid_entry_edits spec_replace, simp add: replaced_entry_def)

lemma edited_remove:
  "list_all storable_entry es \<Longrightarrow> edited E J reg X val (Remove i) es (filter (\<lambda>e. ce_ConfigID e \<noteq> i) es)"
  by (auto simp: edited_def spec_edit_def views_filter list_all_iff good_list_def distinct_map inj_on_def)

lemma edited_register:
  assumes "decodeConfigRegistration E X t = Ok (body, p)" "body_ok J body" "policy_ok p" "list_all storable_entry es"
    and "fresh_edit (Register rnd t) es"
  shows "edited E J reg X val (Register rnd t) es (es @ [new_entry (registered_id rnd) body p])"
proof -
  let ?e = "new_entry (registered_id rnd) body p"
  have i: "ce_ConfigID ?e = registered_id rnd" by (simp add: new_entry_def)
  have fresh: "views val es (ce_ConfigID ?e) = None" using assms(5) by (simp add: fresh_edit_def i views_None)
  have "valid_entry E J reg ?e" "storable_entry ?e"
    using valid_new_entry [OF assms(2,3)] storable_new_entry [OF assms(3)]
    by (simp_all add: registered_id_def envelope_lens)
  then show ?thesis
    using assms(1,4) views_snoc [OF fresh] views_None [of val es "ce_ConfigID ?e"] fresh
    by (auto simp: edited_def spec_edit_def good_list_def i)
qed

lemma run_edit_result:
  assumes ok: "console_json_ok J X val" and quiet: "dk_between dk fs = fs"
    and run: "run_edit E J X dir dk fs ed = (err, fs')"
    and fresh: "\<And>es. stored J fs (configs_path dir) = Some es \<Longrightarrow> fresh_edit ed es"
  shows "if err = None
    then \<exists>es es2 es'. stored J fs (configs_path dir) = Some es \<and> edited E J reg X val ed es es2 \<and>
      stored J fs' (configs_path dir) = Some es' \<and> list_all2 (same_entry J val) es2 es'
    else stored J fs' (configs_path dir) = stored J fs (configs_path dir)"
proof (cases "err = None")
  case False
  then show ?thesis using run quiet
    by (cases ed) (auto simp: run_edit_def register_button_def appendConfig_def setConfigDisplayName_def replace_button_def
        replaceConfigRegistration_def removeConfig_def Let_def dest: write_failed [of X dk _ _ _ _ _ J]
        split: sum.splits prod.splits option.splits if_splits)
next
  case True
  have "\<exists>es es2. readConfigEntries J dk fs (configs_path dir) = Ok es \<and>
      writeConfigEntries X dk fs (configs_path dir) es2 = (None, fs') \<and>
      (list_all storable_entry es \<longrightarrow> fresh_edit ed es \<longrightarrow> edited E J reg X val ed es es2)"
  proof (cases ed)
    case (Register rnd t)
    then show ?thesis using run True quiet edited_register [of E X t _ _ J _ rnd reg val] decode_ok [OF ok, of E t]
      by (fastforce simp: run_edit_def register_button_def appendConfig_def Let_def registered_id_def
          split: sum.splits prod.splits option.splits if_splits)
  next
    case (Rename i t)
    then show ?thesis using run True quiet edited_rename [of i t _ _ E J reg X val]
      by (fastforce simp: run_edit_def setConfigDisplayName_def split: sum.splits option.splits)
  next
    case (Replace i t)
    then show ?thesis using run True quiet edited_replace [of i _ _ _ _ J E X t reg val] decode_ok [OF ok, of E "TrimSpace t"]
      by (fastforce simp: run_edit_def replace_button_def replaceConfigRegistration_def split: sum.splits option.splits)
  next
    case (Remove i)
    then show ?thesis using run True quiet edited_remove [of _ E J reg X val i]
      by (fastforce simp: run_edit_def removeConfig_def split: sum.splits if_splits)
  qed
  then obtain es es2 where l: "readConfigEntries J dk fs (configs_path dir) = Ok es"
      "writeConfigEntries X dk fs (configs_path dir) es2 = (None, fs')"
      "list_all storable_entry es \<longrightarrow> fresh_edit ed es \<longrightarrow> edited E J reg X val ed es es2"
    by blast
  have s: "stored J fs (configs_path dir) = Some es" "list_all storable_entry es" using read_stored [OF l(1) ok] by auto
  have ed: "edited E J reg X val ed es es2" using l(3) s fresh by blast
  from write_succeeded [OF l(2) ok] ed s show ?thesis using True by (auto simp: edited_def)
qed


section \<open>A session of the console\<close>

text \<open>Edits one after the other, each with the disk's behaviour; the trace tells which succeeded. No other
  process edits the file between a read and the write that follows it.\<close>

inductive console_session ::
    "env \<Rightarrow> json \<Rightarrow> console_json \<Rightarrow> string \<Rightarrow> fsys \<Rightarrow> (edit \<times> bool) list \<Rightarrow> fsys \<Rightarrow> bool"
  for E J X dir where
  Session_end: "console_session E J X dir fs [] fs"
| Session_edit: "run_edit E J X dir dk fs ed = (err, fs1) \<Longrightarrow> dk_between dk fs = fs \<Longrightarrow>
    (\<And>es. stored J fs (configs_path dir) = Some es \<Longrightarrow> fresh_edit ed es) \<Longrightarrow>
    console_session E J X dir fs1 tr fs' \<Longrightarrow> console_session E J X dir fs ((ed, err = None) # tr) fs'"

inductive_cases session_NilE: "console_session E J X dir fs [] fs'"



section \<open>Sample data\<close>

definition sample_restricted :: registrationPolicy where
  "sample_restricted = \<lparr>rp_blockRooted = True, rp_iosAppID = '''', rp_onlyMobileNetwork = False, rp_expiresAt = '''',
     rp_displayMessage = '''', rp_customServerMessage = ''''\<rparr>"

definition sample_registered :: ConfigEntry where
  "sample_registered = new_entry (EncodeToString (replicate 16 0)) [4] sample_restricted"

definition sample_console_json :: console_json where
  "sample_console_json = \<lparr>
     cj_marshal_configs = (\<lambda>es. if es = [] then Some [2] else if es = [sample_registered] then Some [3] else None),
     cj_members = (\<lambda>d. Some [(''kind'', [1]), (''v'', [2]), (''config'', [3]), (''blockRooted'', [5])]),
     cj_string = (\<lambda>d. if d = [1] then Some configRegistrationKind else None),
     cj_int = (\<lambda>d. if d = [2] then Some 1 else None),
     cj_bool = (\<lambda>d. if d = [5] then Some True else None),
     cj_compact = (\<lambda>d. Some [4]), cj_imported = (\<lambda>d. Some (''SSH'', [], [3]))\<rparr>"

text \<open>A file that is empty at first, and holds the registered configuration later.\<close>

definition sample_file_json :: json where
  "sample_file_json = (sample_json [])\<lparr>js_unmarshal_configs :=
     (\<lambda>d. if d = [2] then Some [] else if d = [3] then Some [sample_registered] else None)\<rparr>"

lemma sample_restricted_ok [simp]: "policy_ok sample_restricted" "body_ok sample_file_json [4]"
  by (simp_all add: policy_ok_def sample_restricted_def body_ok_def sample_file_json_def sample_json_def)

lemma sample_registered_storable: "storable_entry sample_registered"
  unfolding sample_registered_def by (rule storable_new_entry) simp

lemma sample_console_json_ok: "console_json_ok sample_file_json sample_console_json (\<lambda>d. None)"
proof -
  have "valid_text configRegistrationKind = configRegistrationKind" by (rule valid_text_ascii) code_simp
  moreover have "body_ok sample_file_json (ce_Config sample_registered)" by (simp add: sample_registered_def new_entry_def)
  ultimately show ?thesis using sample_registered_storable
    by (auto simp: console_json_ok_def reads_back_def sample_console_json_def sample_file_json_def sample_json_def
        same_entry_def split: if_splits)
qed

lemma sample_decode: "decodeConfigRegistration E sample_console_json ''{'' = Ok ([4], sample_restricted)"
proof -
  have "TrimSpace ''{'' = ''{''" by (rule TrimSpace_plain) (simp add: plain_char_def)
  then show ?thesis
    by (simp add: decodeConfigRegistration_def registration_candidate_def sample_console_json_def compactJSONObject_def
        validateImportedConfig_def registration_policy_def decode_member_def sample_restricted_def HasPrefix_def)
qed

lemma sample_register:
  obtains fs' where "register_button E sample_file_json sample_console_json (quiet_disk True (good_io 3)) sample_dir ''/d'' (True, []) ''{''
      = (Ok (EncodeToString (replicate 16 0)), fs')"
    "stored sample_file_json fs' (configs_path ''/d'') = Some [sample_registered]"
proof -
  let ?dk = "quiet_disk True (good_io 3)" and ?J = sample_file_json
  have p: "configs_path ''/d'' = ''/d/configs.json''" by (simp add: configs_path_def in_dir_def)
  have rd: "readConfigEntries ?J ?dk sample_dir (configs_path ''/d'') = Ok []"
    by (simp add: readConfigEntries_def os_ReadFile_def quiet_disk_def p sample_dir_def sample_inode_def sample_file_json_def)
  have dk: "dk_io ?dk = good_io 3" "dk_between ?dk f = f" for f by (simp_all add: quiet_disk_def)
  have e: "new_entry (EncodeToString (read_into envelopeConfigIDLen [])) [4] sample_restricted = sample_registered"
    by (simp add: sample_registered_def envelope_lens read_into_def)
  have m: "cj_marshal_configs sample_console_json [sample_registered] = Some [3]" by (simp add: sample_console_json_def)
  obtain fs' where w: "atomicWriteFile (good_io 3) sample_dir ''/d/configs.json'' [3] 384 = (None, fs')"
    "files fs' ''/d/configs.json'' = Some \<lparr>content = [3], perm = 384, uid = 0, gid = 0, mtime = 3\<rparr>"
    by (rule atomicWriteFile_succeeds [of "good_io 3" sample_dir "''/d/configs.json''" "sample_inode [2]"])
      (simp_all add: good_io_def sample_dir_def sample_inode_def temp_name_def Base_def Dir_def)
  have "register_button E ?J sample_console_json ?dk sample_dir ''/d'' (True, []) ''{'' = (Ok (EncodeToString (replicate 16 0)), fs')"
    using w(1) by (simp add: register_button_def sample_decode appendConfig_def rd [unfolded p] Let_def e writeConfigEntries_def m p dk)
      (simp add: envelope_lens read_into_def)
  moreover have "stored ?J fs' (configs_path ''/d'') = Some [sample_registered]"
    using w(2) by (simp add: stored_def p sample_file_json_def)
  ultimately show ?thesis by (rule that)
qed

section \<open>Properties of the registry file\<close>



text \<open>C11. A restriction chosen in the app is enforced by the server: when a registration whose "block rooted
  devices" mark reads true has been imported, the registry the server loads has the new configuration, and under its
  policy, with the two verifiers, a request is accepted only from an Android device with a verified boot state,
  a locked bootloader, a hardware-backed key, a trusted chain and the released application, or, when the
  registration named an iOS application, with an App Attest verdict for that application.\<close>

theorem imported_restriction_enforced:
  assumes "register_button E J X dk fs dir rnd text = (Ok i, fs')"
    and "decodeConfigRegistration E X text = Ok (body, p)" "rp_blockRooted p"
    and "console_json_ok J X val" "dk_between dk fs = fs" "\<And>es. stored J fs (configs_path dir) = Some es \<Longrightarrow> i \<notin> set (map ce_ConfigID es)"
    and "loadConfigsFile E J reg dk' fs' (configs_path dir) = Ok (Some m)" "dk_read dk'"
    and "Verifier_Lookup E reg android_key_attestation = Ok (Some (OtherVerifier aka))"
    and "Verifier_Lookup E reg apple_app_attest = Ok (Some (AppleAppAttest app))"
  shows "\<exists>entry. m i = Some entry \<and>
    (\<forall>a base d. evaluateAttestationPolicy E (ce_AttestationPolicy entry) a (Verifier_Lookup E reg) base = Ok d \<and> \<not> ad_reject d \<longrightarrow>
      (\<exists>v. aka a = Ok v \<and> vd_Verified v \<and> vd_HardwareBacked v \<and> vd_TrustedRoot v \<and>
         vd_VerifiedBootState v = ''verified'' \<and> vd_DeviceLocked v \<and> defaultAndroidPackageName \<in> set (vd_AppPackageNames v)) \<or>
      (\<exists>v. app a (rp_iosAppID p) = Ok v \<and> vd_Verified v \<and> vd_HardwareBacked v \<and> vd_TrustedRoot v \<and> rp_iosAppID p \<noteq> ''''))"
proof -
  let ?ed = "Register rnd text"
  have id: "i = registered_id rnd"
    using assms(1,2) by (auto simp: register_button_def appendConfig_def registered_id_def Let_def split: if_splits sum.splits prod.splits option.splits)
  have "run_edit E J X dir dk fs ?ed = (None, fs')" using assms(1) by (simp add: run_edit_def)
  moreover have "\<And>es. stored J fs (configs_path dir) = Some es \<Longrightarrow> fresh_edit ?ed es"
    using assms(6) by (simp add: fresh_edit_def id)
  ultimately obtain es es2 es' where r: "edited E J reg X val ?ed es es2" "stored J fs' (configs_path dir) = Some es'"
      "list_all2 (same_entry J val) es2 es'"
    using run_edit_result [OF assms(4,5), of E dir ?ed None fs' reg] by auto
  have "views val es' i = Some (view val (new_entry i body p))"
    using r(1) same_list(2) [OF r(3)] assms(2) by (simp add: edited_def spec_edit_def id)
  then have "registry_view val (Some m) i = Some (view val (new_entry i body p))"
    using loads_iff [OF assms(8), of E J reg fs' "configs_path dir" val "registry_view val (Some m)"] assms(7) r(2) by auto
  then obtain entry where entry: "m i = Some entry" "view val entry = view val (new_entry i body p)"
    by (auto simp: registry_view_def)
  then have "ce_AttestationPolicy entry = Some (strictDeviceAttestationPolicy (rp_iosAppID p))"
    using assms(3) by (cases entry) (simp add: view_def new_entry_def registered_policy_def)
  then show ?thesis using entry(1) block_rooted_policy [OF _ _ assms(9,10)] by fastforce
qed

theorem imported_restriction_enforced_witness:
  "\<exists>fs' m entry. loadConfigsFile sample_env sample_file_json (newVerifierRegistry (\<lambda>a. Err '''') (\<lambda>a t. Err ''''))
       (quiet_disk True (good_io 3)) fs' (configs_path ''/d'') = Ok (Some m) \<and>
     m (EncodeToString (replicate 16 0)) = Some entry \<and>
     (\<forall>a base d. evaluateAttestationPolicy sample_env (ce_AttestationPolicy entry) a
        (Verifier_Lookup sample_env (newVerifierRegistry (\<lambda>a. Err '''') (\<lambda>a t. Err ''''))) base = Ok d \<longrightarrow> ad_reject d)"
proof -
  let ?J = sample_file_json and ?X = sample_console_json and ?dk = "quiet_disk True (good_io 3)"
  let ?reg = "newVerifierRegistry (\<lambda>a. Err '''') (\<lambda>a t. Err '''')"
  obtain fs' where r: "register_button sample_env ?J ?X ?dk sample_dir ''/d'' (True, []) ''{'' = (Ok (EncodeToString (replicate 16 0)), fs')"
    "stored ?J fs' (configs_path ''/d'') = Some [sample_registered]" by (rule sample_register)
  have before: "stored ?J sample_dir (configs_path ''/d'') = Some []"
    by (simp add: stored_def configs_path_def in_dir_def sample_dir_def sample_inode_def sample_file_json_def)
  have dk: "dk_read ?dk" "dk_between ?dk sample_dir = sample_dir" by (simp_all add: quiet_disk_def)
  have "good_list sample_env ?J ?reg [sample_registered]"
    using valid_new_entry [of ?J "[4]" sample_restricted "replicate 16 0" sample_env ?reg] by (simp add: good_list_def sample_registered_def)
  then obtain cs where cs: "loadConfigsFile sample_env ?J ?reg ?dk fs' (configs_path ''/d'') = Ok cs"
    "registry_view (\<lambda>d. None) cs = views (\<lambda>d. None) [sample_registered]"
    using loads_iff [OF dk(1), of sample_env ?J ?reg fs' "configs_path ''/d''" "\<lambda>d. None"] r(2) by blast
  then obtain m where m: "cs = Some m" by (cases cs) (auto simp: registry_view_def views_def fun_eq_iff split: if_splits)
  have l: "Verifier_Lookup sample_env ?reg android_key_attestation = Ok (Some (OtherVerifier (\<lambda>a. Err '''')))"
    "Verifier_Lookup sample_env ?reg apple_app_attest = Ok (Some (AppleAppAttest (\<lambda>a t. Err '''')))"
    by (simp_all add: Verifier_Lookup_def newVerifierRegistry_def android_key_attestation_def apple_app_attest_def)
  have b: "rp_blockRooted sample_restricted" by (simp add: sample_restricted_def)
  from imported_restriction_enforced [OF r(1) sample_decode b sample_console_json_ok dk(2) _ cs(1) [unfolded m] dk(1) l] before
  show ?thesis using cs(1) m by fastforce
qed

text \<open>The mark must read as a boolean: a registration whose mark is of another type is imported without
  the restriction, and no error is reported.\<close>

theorem unreadable_restriction_dropped:
  assumes "decodeConfigRegistration E X text = Ok (body, p)"
    and "registration_candidate (TrimSpace text) = Ok candidate" "cj_members X candidate = Some ms"
    and "map_of ms ''blockRooted'' = Some raw" "cj_bool X raw = None"
  shows "ce_AttestationPolicy (new_entry i body p) = None"
proof -
  have "p = registration_policy X ms"
    using assms(1-3) by (auto simp: decodeConfigRegistration_def Let_def split: if_splits sum.splits option.splits)
  then show ?thesis using assms(4,5) by (simp add: new_entry_def registered_policy_def registration_policy_def decode_member_def)
qed

end
