(* ===== verification/Share_Link.thy ===== *)
theory Share_Link
  imports Config_Edit Header_Text
begin

text \<open>
  What the console hands out: a share link with the token behind it (\<^verbatim>\<open>share_link.go\<close> and the mint
  form of \<^verbatim>\<open>menu.go\<close>), a file for one device (\<^verbatim>\<open>configedit.go\<close>), and the texts of the
  tables (\<^verbatim>\<open>management.go\<close>).
\<close>

section \<open>Share links\<close>

definition joinShareLink :: "string \<Rightarrow> string \<Rightarrow> string" where
  "joinShareLink redemptionURL token =
     ''npvtunnel://join?u='' @ EncodeToString (bytes_of redemptionURL) @ ''&t='' @ token"

definition newShareLink ::
    "env \<Rightarrow> json \<Rightarrow> disk \<Rightarrow> string list \<Rightarrow> State \<Rightarrow> fsys \<Rightarrow> random_read \<Rightarrow> time \<Rightarrow> string list \<Rightarrow> string \<Rightarrow> int
     \<Rightarrow> string \<Rightarrow> string \<Rightarrow> (string + string \<times> string) \<times> State \<times> fsys" where
  "newShareLink E J dk ord s fs rnd now ids redemptionURL redemptions expiry label =
     (if \<not> fst rnd then (Err ''rand.Read'', s, fs)
      else
        let token = EncodeToString (read_into 16 (snd rnd)) in
        (case AddRedemptionToken J dk ord s fs
            \<lparr>rt_Token = token, rt_ConfigIDs = ids, rt_RemainingRedemptions = redemptions, rt_ExpiresAt = expiry,
             rt_CreatedAt = env_format_time E now, rt_Label = label\<rparr> of
           (Some e, s', fs') \<Rightarrow> (Err e, s', fs')
         | (None, s', fs') \<Rightarrow> (Ok (token, joinShareLink redemptionURL token), s', fs')))"

text \<open>
  The submit button of the mint form; \<open>parse_duration\<close> is \<open>time.ParseDuration\<close>. The clock is read
  for the expiry and again for the time of creation.
\<close>

definition share_expiry :: "env \<Rightarrow> (string \<Rightarrow> duration option) \<Rightarrow> time \<Rightarrow> string \<Rightarrow> string + string" where
  "share_expiry E parse_duration now expiresIn =
     (let d = TrimSpace expiresIn in
      if d = '''' \<or> d = ''0'' then Ok ''''
      else (case parse_duration d of
          None \<Rightarrow> Err ''expires in: invalid duration (try 168h, 720h, 0)''
        | Some dur \<Rightarrow> Ok (if dur_less 0 dur then env_format_time E (time_add now dur) else '''')))"

definition mintShareLink ::
    "env \<Rightarrow> json \<Rightarrow> (string \<Rightarrow> duration option) \<Rightarrow> disk \<Rightarrow> string list \<Rightarrow> State \<Rightarrow> fsys \<Rightarrow> random_read \<Rightarrow> time \<Rightarrow> time
     \<Rightarrow> string list \<Rightarrow> string \<Rightarrow> string \<Rightarrow> string \<Rightarrow> string \<Rightarrow> (string + string) \<times> State \<times> fsys" where
  "mintShareLink E J parse_duration dk ord s fs rnd expiryNow now ids redemptionURL redemptionsStr expiresIn label =
     (if ids = [] then (Err ''select at least one config'', s, fs)
      else if redemptionURL = '''' then (Err (''redemption URL is required'' @ [CHR 0x0A] @ ''(e.g. https://issuer.example/v1/redeem)''), s, fs)
      else if \<not> HasPrefix redemptionURL ''https://'' then (Err ''redemption URL must start with https://'', s, fs)
      else (case Atoi (TrimSpace redemptionsStr) of
          None \<Rightarrow> (Err ''redemptions must be a positive whole number'', s, fs)
        | Some redemptions \<Rightarrow>
            if redemptions \<le> 0 then (Err ''redemptions must be a positive whole number'', s, fs)
            else (case share_expiry E parse_duration expiryNow expiresIn of
                Err e \<Rightarrow> (Err e, s, fs)
              | Ok expiry \<Rightarrow>
                  (case newShareLink E J dk ord s fs rnd now ids redemptionURL redemptions expiry (TrimSpace label) of
                     (Err e, s', fs') \<Rightarrow> (Err e, s', fs')
                   | (Ok (_, link), s', fs') \<Rightarrow> (Ok link, s', fs')))))"


section \<open>A file for one device\<close>

text \<open>
  \<^verbatim>\<open>os.WriteFile\<close>: the file is created (or truncated, keeping its mode and owner) and written in
  place; a write that fails leaves what it got to.
\<close>

record plain_write =
  pw_opens :: bool
  pw_written :: "bytes option"
  pw_now :: time
  pw_owner :: "int \<times> int"

definition os_WriteFile :: "plain_write \<Rightarrow> fsys \<Rightarrow> string \<Rightarrow> bytes \<Rightarrow> nat \<Rightarrow> string option \<times> fsys" where
  "os_WriteFile w fs p data mode =
     (if \<not> pw_opens w then (Some ''open'', fs)
      else
        let base = (case files fs p of
              Some n \<Rightarrow> n | None \<Rightarrow> \<lparr>content = [], perm = mode, uid = fst (pw_owner w), gid = snd (pw_owner w), mtime = 0\<rparr>)
        in (case pw_written w of
              None \<Rightarrow> (None, put_file p (base\<lparr>content := data, mtime := pw_now w\<rparr>) fs)
            | Some part \<Rightarrow> (Some ''write'', put_file p (base\<lparr>content := part, mtime := pw_now w\<rparr>) fs)))"

definition short_name :: "string \<Rightarrow> string" where
  "short_name s = (if 8 < length s then take 8 s else s)"

definition handoutFilename :: "string \<Rightarrow> string \<Rightarrow> string \<Rightarrow> string" where
  "handoutFilename stateDir configID pubkeyB64 =
     in_dir stateDir (''handout-'' @ short_name configID @ ''-'' @ short_name pubkeyB64 @ ''.npvs'')"

definition mintDirect ::
    "env \<Rightarrow> crypto \<Rightarrow> texts \<Rightarrow> json \<Rightarrow> disk \<Rightarrow> plain_write \<Rightarrow> State \<Rightarrow> fsys \<Rightarrow> string \<Rightarrow> mintRandom
     \<Rightarrow> string \<Rightarrow> string \<Rightarrow> string \<Rightarrow> (string + string \<times> string) \<times> fsys" where
  "mintDirect E C T J dk w s fs dir R configID issuerURL pubkeyB64 =
     (if issuerURL = '''' then (Err (''issuer URL is required'' @ [CHR 0x0A] @ ''(set up your server first, or type https://host/v1/issue)''), fs)
      else if \<not> HasPrefix issuerURL ''https://'' then (Err ''issuer URL must start with https://'', fs)
      else (case DecodeString pubkeyB64 of None \<Rightarrow> (Err ''the device key isn't valid base64url'', fs)
        | Some raw \<Rightarrow>
       if length raw \<noteq> envelopeP256CompLen
       then (Err (''the device key is '' @ Itoa (int (length raw)) @ '' bytes; want '' @ Itoa (int envelopeP256CompLen)
         @ '' (P-256 compressed)''), fs)
       else (case DecodeString configID of
           None \<Rightarrow> (Err (''configId '' @ env_quote E configID @ '' is not a valid 16-byte routing key''), fs)
         | Some cidBytes \<Rightarrow>
       if length cidBytes \<noteq> envelopeConfigIDLen
       then (Err (''configId '' @ env_quote E configID @ '' is not a valid 16-byte routing key''), fs)
       else (case readConfigEntries J dk fs (configs_path dir) of Err e \<Rightarrow> (Err e, fs)
         | Ok list \<Rightarrow>
       (case find (\<lambda>e. ce_ConfigID e = configID) list of None \<Rightarrow> (Err (not_found configID), fs)
         | Some entry \<Rightarrow>
       (case mintIssuerEnvelope C T R
            \<lparr>mi_CreatorKey = Some (st_CreatorSigningKey s), mi_RecipientPubKeys = [raw], mi_IssuerURL = issuerURL,
             mi_DisplayName = effectiveDisplayName J entry, mi_ConfigID = Some cidBytes, mi_IssuedAt = zero_time,
             mi_Policy = None\<rparr> of Err e \<Rightarrow> (Err e, fs)
         | Ok res \<Rightarrow>
            let out = handoutFilename dir configID pubkeyB64 in
            (case os_WriteFile w (dk_between dk fs) out (mr_EnvelopeBytes res) 384 of
               (Some e, fs') \<Rightarrow> (Err e, fs')
             | (None, fs') \<Rightarrow> (Ok (out, EncodeToString (mr_EnvelopeBytes res)), fs'))))))))"


section \<open>Texts of the tables\<close>

definition orDash :: "string \<Rightarrow> string" where
  "orDash value = (if value = '''' then ''-'' else value)"

text \<open>
  \<open>day\<close> is \<^verbatim>\<open>Format("2006-01-02")\<close>. Below two days the floating-point minutes and hours truncate to
  the exact quotients; \<open>days\<close> is \<^verbatim>\<open>int(d.Hours()/24)\<close>, which is computed in float64 and need not.
\<close>

definition expiryDisplay :: "env \<Rightarrow> (time \<Rightarrow> string) \<Rightarrow> (duration \<Rightarrow> int) \<Rightarrow> string \<Rightarrow> time \<Rightarrow> string" where
  "expiryDisplay E day days text now =
     (if text = '''' then ''never''
      else (case env_parse_time E text of None \<Rightarrow> text
        | Some expiry \<Rightarrow>
            let d = time_sub expiry now in
            if dur_less d 0 then day expiry @ '' (passed)''
            else if dur_less d Hour then day expiry @ '' ('' @ Itoa (quot (sint d) (sint Minute)) @ ''m)''
            else if dur_less d (48 * Hour) then day expiry @ '' ('' @ Itoa (quot (sint d) (sint Hour)) @ ''h)''
            else day expiry @ '' ('' @ Itoa (days d) @ ''d)''))"

section \<open>A share link works\<close>

text \<open>The time a link lasts: nothing, zero and negative durations mean for ever.\<close>

definition link_lifetime :: "(string \<Rightarrow> duration option) \<Rightarrow> string \<Rightarrow> duration option" where
  "link_lifetime parse_duration expiresIn =
     (let d = TrimSpace expiresIn in
      if d = '''' \<or> d = ''0'' then None
      else (case parse_duration d of None \<Rightarrow> None | Some dur \<Rightarrow> if dur_less 0 dur then Some dur else None))"

text \<open>\<^verbatim>\<open>RFC3339\<close> texts are in whole seconds, and parsing reads them back.\<close>

definition whole_second_texts :: "env \<Rightarrow> bool" where
  "whole_second_texts E = (\<forall>t. env_format_time E t \<noteq> '''' \<and>
     (\<exists>u. env_parse_time E (env_format_time E t) = Some u \<and> t - sint Second < u \<and> u \<le> t))"

lemma share_expiry_result:
  assumes "share_expiry E pd now t = Ok x"
  shows "x = (case link_lifetime pd t of None \<Rightarrow> '''' | Some dur \<Rightarrow> env_format_time E (time_add now dur))"
  using assms by (auto simp: share_expiry_def link_lifetime_def Let_def split: if_splits option.splits)

lemma mintShareLink_result:
  assumes "mintShareLink E J pd dk ord s fs rnd now1 now2 ids url n x label = (Ok link, s', fs')"
  obtains count tok where "Atoi (TrimSpace n) = Some count" "0 < count" "HasPrefix url ''https://''"
    "tok = \<lparr>rt_Token = EncodeToString (read_into 16 (snd rnd)), rt_ConfigIDs = ids, rt_RemainingRedemptions = count,
       rt_ExpiresAt = (case link_lifetime pd x of None \<Rightarrow> '''' | Some dur \<Rightarrow> env_format_time E (time_add now1 dur)),
       rt_CreatedAt = env_format_time E now2, rt_Label = TrimSpace label\<rparr>"
    "AddRedemptionToken J dk ord s fs tok = (None, s', fs')" "link = joinShareLink url (rt_Token tok)"
  using assms
  by (auto simp: mintShareLink_def newShareLink_def Let_def dest!: share_expiry_result
      split: if_splits sum.splits prod.splits option.splits)

text \<open>What the server decides on the token, whatever server it is.\<close>

lemma token_lasts:
  assumes "whole_second_texts E" "rt_ExpiresAt t = (case life of None \<Rightarrow> '''' | Some dur \<Rightarrow> env_format_time E (time_add now dur))"
    and "0 < rt_RemainingRedemptions t"
  shows "(life = None \<longrightarrow> consumable E t at) \<and>
    (\<forall>dur. life = Some dur \<longrightarrow> (at \<le> now + sint dur - sint Second \<longrightarrow> consumable E t at) \<and>
      (now + sint dur < at \<longrightarrow> \<not> consumable E t at))"
proof (cases life)
  case None
  then show ?thesis using assms(2,3) by (simp add: consumable_def token_expired_def)
next
  case (Some dur)
  obtain u where "env_format_time E (time_add now dur) \<noteq> ''''" "env_parse_time E (env_format_time E (time_add now dur)) = Some u"
    "time_add now dur - sint Second < u" "u \<le> time_add now dur"
    using assms(1) unfolding whole_second_texts_def by blast
  then show ?thesis using Some assms(2,3) by (auto simp: consumable_def token_expired_def After_def time_add_def)
qed

lemma Consumed_iff:
  "st_redemptionTokens s k = Some t \<Longrightarrow> cr_Consumed (fst (ConsumeRedemptionToken E J dk ord s fs k at)) \<longleftrightarrow> consumable E t at"
  using Consume_cases [of E J dk ord s fs k at "fst (ConsumeRedemptionToken E J dk ord s fs k at)"
      "fst (snd (ConsumeRedemptionToken E J dk ord s fs k at))" "snd (snd (ConsumeRedemptionToken E J dk ord s fs k at))"]
  by auto

lemma amp_not_plain: "CHR ''&'' \<notin> set (EncodeToString b)"
proof -
  have "list_all (\<lambda>n. b64_char n \<noteq> CHR ''&'') [0..<64]" by code_simp
  then have "n < 64 \<Longrightarrow> b64_char n \<noteq> CHR ''&''" for n by (simp add: list_all_iff)
  moreover have "list_all (\<lambda>n. n < 64) (b64_encode (map unat b))" by (rule b64_encode_less [OF unat_bytes_less])
  ultimately show ?thesis by (fastforce simp: EncodeToString_def list_all_iff)
qed

text \<open>A link that was minted: its token, the file it is in, and how long it lasts.\<close>

lemma minted_token:
  assumes "mintShareLink E J pd dk ord s fs rnd now1 now2 ids url n x label = (Ok link, s', fs')"
    and "whole_second_texts E" "tokens_wf (st_redemptionTokens s)" "st_redemptionTokensPath s \<noteq> ''''"
    and "enumerates ord (st_redemptionTokens s')" "json_keeps J (ran (st_redemptionTokens s'))"
    and "dk_between dk = (\<lambda>fs. fs)" "dk_read dk'"
  obtains t where "link = joinShareLink url (rt_Token t)" "rt_Token t = EncodeToString (read_into 16 (snd rnd))"
    "rt_ConfigIDs t = ids" "Atoi (TrimSpace n) = Some (rt_RemainingRedemptions t)" "0 < rt_RemainingRedemptions t"
    "st_redemptionTokens s (rt_Token t) = None" "st_redemptionTokens s' = (st_redemptionTokens s)(rt_Token t \<mapsto> t)"
    "loadRedemptionTokensFile J dk' fs' (st_redemptionTokensPath s) = Ok (st_redemptionTokens s')"
    "\<forall>at. (link_lifetime pd x = None \<longrightarrow> consumable E t at) \<and>
      (\<forall>dur. link_lifetime pd x = Some dur \<longrightarrow> (at \<le> now1 + sint dur - sint Second \<longrightarrow> consumable E t at) \<and>
        (now1 + sint dur < at \<longrightarrow> \<not> consumable E t at))"
  using assms(1)
proof (cases rule: mintShareLink_result)
  case (1 count t)
  let ?k = "rt_Token t"
  have v: "valid_token t" "st_redemptionTokens s ?k = None"
    "persist_and_stat J dk ord (s\<lparr>st_redemptionTokens := (st_redemptionTokens s)(?k \<mapsto> t)\<rparr>) fs = (None, s', fs')"
    using 1(5) by (auto simp: AddRedemptionToken_def validate_iff split: option.splits if_splits)
  have m: "st_redemptionTokens s' = (st_redemptionTokens s)(?k \<mapsto> t)" using Add_result [OF 1(5)] v(1,2) by simp
  have "persistRedemptionTokens J (dk_io dk) fs ord (st_redemptionTokensPath s) (st_redemptionTokens s') = (None, fs')"
    using v(3) assms(4,7) m by (auto simp: persist_and_stat_def Let_def split: prod.splits stat_result.splits option.splits)
  moreover have "tokens_wf (st_redemptionTokens s')" using tokens_wf_update [OF assms(3) v(1)] m by simp
  ultimately have f: "loadRedemptionTokensFile J dk' fs' (st_redemptionTokensPath s) = Ok (st_redemptionTokens s')"
    using persist_file assms(5,6,8) by blast
  have last: "(link_lifetime pd x = None \<longrightarrow> consumable E t at) \<and>
    (\<forall>dur. link_lifetime pd x = Some dur \<longrightarrow> (at \<le> now1 + sint dur - sint Second \<longrightarrow> consumable E t at) \<and>
      (now1 + sint dur < at \<longrightarrow> \<not> consumable E t at))" for at
    using token_lasts [OF assms(2), where t = t and life = "link_lifetime pd x" and now = now1 and at = at] 1(2,4) by simp
  have fields: "?k = EncodeToString (read_into 16 (snd rnd))" "rt_ConfigIDs t = ids" "rt_RemainingRedemptions t = count"
    using 1(4) by simp_all
  have "Atoi (TrimSpace n) = Some (rt_RemainingRedemptions t)" "0 < rt_RemainingRedemptions t" using fields(3) 1(1,2) by simp_all
  from that [OF 1(6) fields(1,2) this v(2) m f allI [OF last]] show ?thesis .
qed

text \<open>C27. A share link that the dashboard reports works: its two parts are the redemption URL and a token, which the
  separator cannot occur in; the token is new, is in the file that the server reloads, with the chosen
  configurations and count; and wherever that token is registered a charge succeeds until a second before the chosen
  duration has passed since the minting, never after it has, and always when the duration is empty, zero or negative.\<close>

theorem minted_link_redeemable:
  assumes "mintShareLink E J pd dk ord s fs rnd now1 now2 ids url n x label = (Ok link, s', fs')"
    and "whole_second_texts E" "tokens_wf (st_redemptionTokens s)" "st_redemptionTokensPath s \<noteq> ''''"
    and "enumerates ord (st_redemptionTokens s')" "json_keeps J (ran (st_redemptionTokens s'))"
    and "dk_between dk = (\<lambda>fs. fs)" "dk_read dk'"
  shows "\<exists>u token t. link = ''npvtunnel://join?u='' @ u @ ''&t='' @ token \<and> CHR ''&'' \<notin> set u \<and> CHR ''&'' \<notin> set token \<and>
    DecodeString u = Some (bytes_of url) \<and> st_redemptionTokens s token = None \<and>
    (\<exists>m. loadRedemptionTokensFile J dk' fs' (st_redemptionTokensPath s) = Ok m \<and> m token = Some t) \<and>
    rt_ConfigIDs t = ids \<and> Atoi (TrimSpace n) = Some (rt_RemainingRedemptions t) \<and> 0 < rt_RemainingRedemptions t \<and>
    (\<forall>sv fs2 dk2 ord2 at. st_redemptionTokens sv token = Some t \<longrightarrow>
      (let charged = cr_Consumed (fst (ConsumeRedemptionToken E J dk2 ord2 sv fs2 token at)) in
       (link_lifetime pd x = None \<longrightarrow> charged) \<and>
       (\<forall>dur. link_lifetime pd x = Some dur \<longrightarrow>
         (at \<le> now1 + sint dur - sint Second \<longrightarrow> charged) \<and> (now1 + sint dur < at \<longrightarrow> \<not> charged))))"
proof -
  obtain t where t: "link = joinShareLink url (rt_Token t)" "rt_Token t = EncodeToString (read_into 16 (snd rnd))" "rt_ConfigIDs t = ids" "Atoi (TrimSpace n) = Some (rt_RemainingRedemptions t)"
    "0 < rt_RemainingRedemptions t" "st_redemptionTokens s (rt_Token t) = None" "st_redemptionTokens s' = (st_redemptionTokens s)(rt_Token t \<mapsto> t)"
    "loadRedemptionTokensFile J dk' fs' (st_redemptionTokensPath s) = Ok (st_redemptionTokens s')"
    and last: "\<forall>at. (link_lifetime pd x = None \<longrightarrow> consumable E t at) \<and>
      (\<forall>dur. link_lifetime pd x = Some dur \<longrightarrow> (at \<le> now1 + sint dur - sint Second \<longrightarrow> consumable E t at) \<and>
        (now1 + sint dur < at \<longrightarrow> \<not> consumable E t at))"
    by (rule minted_token [OF assms])
  have "\<exists>m. loadRedemptionTokensFile J dk' fs' (st_redemptionTokensPath s) = Ok m \<and> m (rt_Token t) = Some t" using t(7,8) by simp
  with t last show ?thesis
    by (intro exI [of _ "EncodeToString (bytes_of url)"] exI [of _ "rt_Token t"] exI [of _ t])
      (simp add: joinShareLink_def Decode_Encode amp_not_plain Consumed_iff)
qed

definition sample_clock :: env where
  "sample_clock = sample_env\<lparr>env_format_time := Itoa,
     env_parse_time := (\<lambda>s. if HasPrefix s ''-'' then Some (- int (digits_value (drop 1 s))) else Some (int (digits_value s)))\<rparr>"

lemma sample_clock_whole: "whole_second_texts sample_clock"
proof -
  have "nat_text n \<noteq> '''' \<and> \<not> HasPrefix (nat_text n) ''-''" for n
    using hd_digits [of n] by (cases "nat_text n") (auto simp: HasPrefix_def)
  then have "Itoa t \<noteq> '''' \<and> env_parse_time sample_clock (Itoa t) = Some t" for t
    by (auto simp: sample_clock_def Itoa_def HasPrefix_def)
  then show ?thesis unfolding whole_second_texts_def by (auto simp: sample_clock_def)
qed

definition sample_link_token :: RedemptionToken where
  "sample_link_token = \<lparr>rt_Token = EncodeToString (replicate 16 0), rt_ConfigIDs = [EncodeToString (replicate 16 1)],
     rt_RemainingRedemptions = 5, rt_ExpiresAt = '''', rt_CreatedAt = ''7'', rt_Label = ''''\<rparr>"

text \<open>A link minted on the sample state, with any JSON that can write its token.\<close>

definition sample_mint_link :: "json \<Rightarrow> (string + string) \<times> State \<times> fsys" where
  "sample_mint_link J = mintShareLink sample_clock J (\<lambda>d. None) (quiet_disk True (good_io 3)) [rt_Token sample_link_token]
     (sample_state Map.empty) sample_fs (True, []) 7 7 (rt_ConfigIDs sample_link_token) ''https://i/v1/redeem'' ''5'' ''0'' ''''"

lemma sample_link_minted:
  assumes d: "js_marshal_tokens J [sample_link_token] = Some d"
  obtains s' fs' n where "sample_mint_link J = (Ok (joinShareLink ''https://i/v1/redeem'' (rt_Token sample_link_token)), s', fs')"
    "st_redemptionTokens s' = [rt_Token sample_link_token \<mapsto> sample_link_token]" "files fs' ''/s/f'' = Some n" "mtime n = 3"
proof -
  let ?dk = "quiet_disk True (good_io 3)" and ?t = sample_link_token
  let ?k = "rt_Token ?t"
  have k: "EncodeToString (read_into 16 []) = ?k" by (simp add: sample_link_token_def read_into_def)
  have t: "\<lparr>rt_Token = ?k, rt_ConfigIDs = rt_ConfigIDs ?t, rt_RemainingRedemptions = 5, rt_ExpiresAt = '''',
      rt_CreatedAt = ''7'', rt_Label = ''''\<rparr> = ?t" by (simp add: sample_link_token_def)
  have trims: "TrimSpace ''5'' = ''5''" "TrimSpace ''0'' = ''0''" "TrimSpace '''' = ''''"
    by (rule TrimSpace_plain; simp add: plain_char_def)+
  have atoi: "Atoi ''5'' = Some 5" by code_simp
  have now: "env_format_time sample_clock 7 = ''7''" by (simp add: sample_clock_def) code_simp
  have "'''' \<noteq> EncodeToString (replicate 16 1)" by (rule not_sym, rule EncodeToString_nonempty) simp
  then have v: "validateRedemptionToken ?t = None" by (simp add: validate_iff valid_token_def sample_link_token_def)
  have d': "js_marshal_tokens J (sortRedemptionTokens (range_values [?k] [?k \<mapsto> ?t])) = Some d" using d by simp
  obtain fs' n' where p: "persistRedemptionTokens J (good_io 3) sample_fs [?k] ''/s/f'' [?k \<mapsto> ?t] = (None, fs')"
    "files fs' ''/s/f'' = Some n'" "mtime n' = 3"
    by (rule persist_succeeds [OF d', of "good_io 3" sample_fs "''/s/f''"]) (auto simp: good_io_def)
  let ?s' = "(sample_state [?k \<mapsto> ?t])\<lparr>st_redemptionTokensMtime := 3\<rparr>"
  have a: "AddRedemptionToken J ?dk [?k] (sample_state Map.empty) sample_fs ?t = (None, ?s', fs')"
    using p by (simp add: AddRedemptionToken_def v persist_and_stat_def quiet_disk_def os_Stat_def sample_state_def)
  have ids: "rt_ConfigIDs ?t \<noteq> []" by (simp add: sample_link_token_def)
  have "sample_mint_link J = (Ok (joinShareLink ''https://i/v1/redeem'' ?k), ?s', fs')"
    by (simp add: sample_mint_link_def mintShareLink_def trims atoi share_expiry_def newShareLink_def k now t a ids HasPrefix_def Let_def)
  then show ?thesis by (rule that) (use p in \<open>simp_all add: sample_state_def\<close>)
qed

theorem minted_link_redeemable_witness:
  "\<exists>link s' fs'. sample_mint_link (sample_json [sample_link_token]) = (Ok link, s', fs') \<and>
     (\<exists>u token. link = ''npvtunnel://join?u='' @ u @ ''&t='' @ token \<and> DecodeString u = Some (bytes_of ''https://i/v1/redeem'') \<and>
       (\<exists>m t. loadRedemptionTokensFile (sample_json [sample_link_token]) (quiet_disk True (good_io 3)) fs' ''/s/f'' = Ok m \<and>
          m token = Some t \<and> rt_ConfigIDs t = rt_ConfigIDs sample_link_token))"
proof -
  let ?J = "sample_json [sample_link_token]" and ?dk = "quiet_disk True (good_io 3)"
  obtain d where d: "js_marshal_tokens ?J [sample_link_token] = Some d" by (simp add: sample_json_def)
  obtain s' fs' n where r: "sample_mint_link ?J = (Ok (joinShareLink ''https://i/v1/redeem'' (rt_Token sample_link_token)), s', fs')"
    "st_redemptionTokens s' = [rt_Token sample_link_token \<mapsto> sample_link_token]" by (rule sample_link_minted [OF d])
  have st: "st_redemptionTokensPath (sample_state m) = ''/s/f''" "st_redemptionTokens (sample_state m) = m" for m
    by (simp_all add: sample_state_def)
  have j: "json_keeps ?J (ran (st_redemptionTokens s'))" unfolding r(2) by (rule sample_json_keeps) auto
  have "enumerates [rt_Token sample_link_token] (st_redemptionTokens s')" "dk_between ?dk = (\<lambda>fs. fs)" "dk_read ?dk"
    "st_redemptionTokensPath (sample_state m) \<noteq> ''''" for m
    by (simp_all add: r(2) st quiet_disk_def)
  from minted_link_redeemable [OF r(1) [unfolded sample_mint_link_def] sample_clock_whole _ this(4) this(1) j this(2,3)] r(1)
  show ?thesis unfolding st by (simp only: tokens_wf_empty) blast
qed

section \<open>A file for one device\<close>

lemma in_dir_eq [simp]: "in_dir d a = in_dir d b \<longleftrightarrow> a = b"
  by (simp add: in_dir_def)

lemma mintDirect_result:
  assumes "mintDirect E C T J dk w s fs dir R cid url pk = (Ok (path, b64), fs')"
  obtains raw c name res where "DecodeString pk = Some raw" "length raw = 33" "DecodeString cid = Some c" "length c = 16"
    "mintIssuerEnvelope C T R \<lparr>mi_CreatorKey = Some (st_CreatorSigningKey s), mi_RecipientPubKeys = [raw], mi_IssuerURL = url,
       mi_DisplayName = name, mi_ConfigID = Some c, mi_IssuedAt = zero_time, mi_Policy = None\<rparr> = Ok res"
    "path = handoutFilename dir cid pk" "b64 = EncodeToString (mr_EnvelopeBytes res)"
    "os_WriteFile w (dk_between dk fs) path (mr_EnvelopeBytes res) 384 = (None, fs')"
  using assms
  by (auto simp: mintDirect_def envelope_lens Let_def split: if_splits option.splits sum.splits prod.splits)

text \<open>C40. A file for one device carries no restrictions. When minting one succeeds, the bytes in the file are those shown as
  text, they decode to an envelope for that configuration and one recipient, and no other file has changed; but the
  policy in its header is the default one, whatever the restrictions registered with the configuration, which a
  share link does put into the envelope.\<close>

theorem direct_handout_unrestricted:
  assumes "mintDirect E C T J dk w s fs dir R cid url pk = (Ok (path, b64), fs')" "dk_between dk = (\<lambda>fs. fs)"
    and "ecdsa_correct C (st_CreatorSigningKey s)" "header_text_correct T" "DecodeString b64 = Some raw" "length raw < 2 ^ 32"
  shows "\<exists>d n. files fs' path = Some n \<and> content n = raw \<and> decodeEnvelopeWire T raw = Ok d \<and>
    DecodeString (eh_ConfigID (ed_Header d)) = DecodeString cid \<and> length (eh_Recipients (ed_Header d)) = 1 \<and>
    eh_Policy (ed_Header d) = default_envelopePolicy \<and>
    (\<forall>p. p \<noteq> path \<longrightarrow> files fs' p = files fs p) \<and>
    path \<notin> in_dir dir ` {''creator-key.pem'', ''audit-salt.bin'', ''configs.json'', ''redemption-tokens.json'', ''console.json''}"
  using assms(1)
proof (cases rule: mintDirect_result)
  case (1 key c name res)
  have raw: "mr_EnvelopeBytes res = raw" using assms(5) 1(7) by (simp add: Decode_Encode)
  obtain pub rs hb bb sig x where d: "decodeEnvelopeWire T (mr_EnvelopeBytes res) = Ok x"
      "ed_Header x = mint_header C T \<lparr>mi_CreatorKey = Some (st_CreatorSigningKey s), mi_RecipientPubKeys = [key], mi_IssuerURL = url,
       mi_DisplayName = name, mi_ConfigID = Some c, mi_IssuedAt = zero_time, mi_Policy = None\<rparr> R (mr_ConfigID res) pub rs"
      "wrap_recipients C R (mr_ConfigID res) (read_into 32 (snd (mn_dek R))) 0 [key] = Ok rs"
    by (rule minted_frame [OF 1(5) _ assms(3,4)]) (use raw assms(6) in auto)
  have c: "mr_ConfigID res = c" using 1(5) by (cases rule: mint_cases) (auto simp: mint_checks_Ok)
  have w: "\<exists>n. files fs' path = Some n \<and> content n = raw" "p \<noteq> path \<Longrightarrow> files fs' p = files fs p" for p
    using 1(8) assms(2) raw by (auto simp: os_WriteFile_def Let_def split: if_splits option.splits)
  have "length rs = 1" using wrap_recipients_result [OF d(3)] by simp
  with w d(1,2) raw 1(3,6) c show ?thesis by (auto simp: mint_header_def Decode_Encode handoutFilename_def)
qed

definition sample_registry_dir :: fsys where
  "sample_registry_dir = sample_dir\<lparr>files := (files sample_dir)(''/d/configs.json'' \<mapsto> sample_inode [3])\<rparr>"

definition sample_plain_write :: plain_write where
  "sample_plain_write = \<lparr>pw_opens = True, pw_written = None, pw_now = 4, pw_owner = (0, 0)\<rparr>"

theorem direct_handout_unrestricted_witness:
  "\<exists>h path b64 fs' raw d. mintDirect sample_env sample_crypto (sample_texts h) sample_file_json (quiet_disk True (good_io 3)) sample_plain_write
       (sample_state Map.empty) sample_registry_dir ''/d'' sample_random (EncodeToString (replicate 16 0)) ''https://i/v1/issue''
       (EncodeToString (2 # replicate 32 7)) = (Ok (path, b64), fs') \<and>
     DecodeString b64 = Some raw \<and> decodeEnvelopeWire (sample_texts h) raw = Ok d \<and> eh_Policy (ed_Header d) = default_envelopePolicy"
proof -
  let ?dk = "quiet_disk True (good_io 3)" and ?pk = "2 # replicate 32 (7 :: byte)" and ?c = "replicate 16 (0 :: byte)"
  let ?inp = "\<lparr>mi_CreatorKey = Some (st_CreatorSigningKey (sample_state Map.empty)), mi_RecipientPubKeys = [?pk], mi_IssuerURL = ''https://i/v1/issue'',
       mi_DisplayName = effectiveDisplayName sample_file_json sample_registered, mi_ConfigID = Some ?c, mi_IssuedAt = zero_time, mi_Policy = None\<rparr>"
  have key: "st_CreatorSigningKey (sample_state Map.empty) = sample_key" by (simp add: sample_state_def)
  obtain h res where m: "mintIssuerEnvelope sample_crypto (sample_texts h) sample_random ?inp = Ok res" "length (mr_EnvelopeBytes res) < 2 ^ 32"
    by (rule sample_mint_succeeds [of ?pk ?inp ?c]) (simp_all add: key)
  have rd: "readConfigEntries sample_file_json ?dk sample_registry_dir (configs_path ''/d'') = Ok [sample_registered]"
    by (simp add: readConfigEntries_def os_ReadFile_def quiet_disk_def configs_path_def in_dir_def sample_registry_dir_def
        sample_inode_def sample_file_json_def)
  have id: "ce_ConfigID sample_registered = EncodeToString ?c" by (simp add: sample_registered_def new_entry_def)
  obtain fs' where w: "os_WriteFile sample_plain_write sample_registry_dir (handoutFilename ''/d'' (EncodeToString ?c) (EncodeToString ?pk))
      (mr_EnvelopeBytes res) 384 = (None, fs')"
    by (simp add: os_WriteFile_def sample_plain_write_def)
  have b: "dk_between ?dk = (\<lambda>fs. fs)" by (simp add: quiet_disk_def)
  have r: "mintDirect sample_env sample_crypto (sample_texts h) sample_file_json ?dk sample_plain_write
       (sample_state Map.empty) sample_registry_dir ''/d'' sample_random (EncodeToString ?c) ''https://i/v1/issue'' (EncodeToString ?pk)
     = (Ok (handoutFilename ''/d'' (EncodeToString ?c) (EncodeToString ?pk), EncodeToString (mr_EnvelopeBytes res)), fs')"
    using m(1) w by (simp add: mintDirect_def Decode_Encode envelope_lens rd id b HasPrefix_def Let_def)
  have laws: "ecdsa_correct sample_crypto (st_CreatorSigningKey (sample_state Map.empty))" "header_text_correct (sample_texts h)"
    using sample_ecdsa_correct valid_text_ascii [of "''t''"] by (auto simp: key header_text_correct_def sample_texts_def code_def)
  from direct_handout_unrestricted [OF r b laws Decode_Encode m(2)] obtain d
    where "decodeEnvelopeWire (sample_texts h) (mr_EnvelopeBytes res) = Ok d" "eh_Policy (ed_Header d) = default_envelopePolicy" by blast
  with r Decode_Encode show ?thesis by blast
qed

end
