(* ===== verification/Dashboard.thy ===== *)
theory Dashboard
  imports Share_Link Setup
begin

text \<open>
  The screens of the dashboard (\<^verbatim>\<open>menu.go\<close>, \<^verbatim>\<open>configedit.go\<close>) as far as they are more than layout: which page a
  key leads to, what the tables and the server page say, what the forms start with, and what their
  buttons do to the settings, the tokens and the files. Widgets and colours of the layout are not modelled.
\<close>

section \<open>Pages\<close>

datatype key = KeyF3 | KeyEscape | Other_key_press

datatype key_action = Stop_app | Close_modal | Show_main | Pass_on

text \<open>The global key handler, by the name of the front page.\<close>

definition key_handler :: "string \<Rightarrow> key \<Rightarrow> key_action" where
  "key_handler front k =
     (case k of
        KeyF3 \<Rightarrow> Stop_app
      | KeyEscape \<Rightarrow> if front = ''modal'' then Close_modal
          else if front \<noteq> ''main'' \<and> front \<noteq> '''' then Show_main else Pass_on
      | Other_key_press \<Rightarrow> Pass_on)"

text \<open>A yes-or-no dialog runs its action only on the label Yes.\<close>

definition confirm :: "string \<Rightarrow> ('s \<Rightarrow> 's) \<Rightarrow> 's \<Rightarrow> 's" where
  "confirm label yes s = (if label = ''Yes'' then yes s else s)"

definition footerKeys :: "string \<Rightarrow> string" where
  "footerKeys extra =
     '' [yellow::b]F3[-:-:-]=Exit  [yellow::b]Esc[-:-:-]=Back'' @ (if extra \<noteq> '''' then ''  '' @ extra else '''')"


section \<open>Tables\<close>

text \<open>Two blanks separate the columns; \<open>summary\<close> gives type and address of a configuration.\<close>

definition gap :: string where "gap = ''  ''"

definition config_row :: "json \<Rightarrow> (bytes \<Rightarrow> string \<times> string) \<Rightarrow> ConfigEntry \<Rightarrow> string list" where
  "config_row J summary e =
     [shortBase64 (ce_ConfigID e) @ gap, orDash (effectiveDisplayName J e) @ gap,
      orDash (fst (summary (ce_Config e))) @ gap, orDash (snd (summary (ce_Config e)))]"

datatype color = Green | Yellow | Red

definition status_color :: "tokenStatusCode \<Rightarrow> color" where
  "status_color c =
     (case c of statusLive \<Rightarrow> Green | statusExpiring \<Rightarrow> Yellow | statusExpired \<Rightarrow> Red | statusExhausted \<Rightarrow> Red)"

definition token_row ::
    "env \<Rightarrow> (time \<Rightarrow> string) \<Rightarrow> (duration \<Rightarrow> int) \<Rightarrow> time \<Rightarrow> RedemptionToken \<Rightarrow> string list \<times> color" where
  "token_row E day days now t =
     (let status = tokenStatus E t now; ids = configIDs t;
          configs = (case ids of [] \<Rightarrow> ''invalid''
            | c # rest \<Rightarrow> shortBase64 c @ (if rest \<noteq> [] then '' +'' @ Itoa (int (length rest)) else ''''))
      in ([shortBase64 (rt_Token t) @ gap, configs @ gap, Itoa (rt_RemainingRedemptions t) @ gap,
           expiryDisplay E day days (rt_ExpiresAt t) now @ gap, orDash (rt_Label t) @ gap, fst status],
          status_color (snd status)))"

text \<open>The tokens of the file, in the order of the table; \<open>ord\<close> is the order in which the map is ranged over.\<close>

definition token_list :: "json \<Rightarrow> disk \<Rightarrow> fsys \<Rightarrow> string \<Rightarrow> string list \<Rightarrow> string + RedemptionToken list" where
  "token_list J dk fs path ord =
     (case loadRedemptionTokensFile J dk fs path of
        Err e \<Rightarrow> Err e
      | Ok tokens \<Rightarrow> Ok (sortRedemptionTokens (range_values ord tokens)))"

definition showTokens ::
    "env \<Rightarrow> (time \<Rightarrow> string) \<Rightarrow> (duration \<Rightarrow> int) \<Rightarrow> json \<Rightarrow> disk \<Rightarrow> fsys \<Rightarrow> string \<Rightarrow> string list \<Rightarrow> time
     \<Rightarrow> string + (string list \<times> color) list" where
  "showTokens E day days J dk fs path ord now =
     (case token_list J dk fs path ord of
        Err e \<Rightarrow> Err e | Ok list \<Rightarrow> Ok (map (token_row E day days now) list))"

text \<open>Selecting a row and confirming burns the token of that row, in the registry the dashboard has in memory; the
  outcome is not looked at.\<close>

definition burn_row ::
    "json \<Rightarrow> disk \<Rightarrow> string list \<Rightarrow> RedemptionToken list \<Rightarrow> nat \<Rightarrow> string \<Rightarrow> State \<times> fsys \<Rightarrow> State \<times> fsys" where
  "burn_row J dk ord list row label =
     confirm label (\<lambda>(s, fs). if 1 \<le> row \<and> row - 1 < length list
       then snd (RemoveRedemptionToken J dk ord s fs (rt_Token (list ! (row - 1)))) else (s, fs))"


section \<open>Forms\<close>

text \<open>The check boxes of the mint form: the configuration it was opened for, or else the first.\<close>

definition preselected :: "string \<Rightarrow> ConfigEntry list \<Rightarrow> bool list" where
  "preselected prefillID list =
     (let sel = map (\<lambda>e. ce_ConfigID e = prefillID) list in
      if prefillID = '''' then sel[0 := True] else sel)"

definition chosen_ids :: "ConfigEntry list \<Rightarrow> bool list \<Rightarrow> string list" where
  "chosen_ids list selected = map (\<lambda>(e, b). ce_ConfigID e) (filter (\<lambda>(e, b). b) (zip list selected))"

text \<open>The mint button: a minted link also remembers the URL.\<close>

definition mint_button ::
    "env \<Rightarrow> json \<Rightarrow> settings_json \<Rightarrow> (string \<Rightarrow> duration option) \<Rightarrow> disk \<Rightarrow> disk \<Rightarrow> string list \<Rightarrow> string \<Rightarrow> consoleSettings
     \<Rightarrow> State \<Rightarrow> fsys \<Rightarrow> random_read \<Rightarrow> time \<Rightarrow> time \<Rightarrow> ConfigEntry list \<Rightarrow> bool list \<Rightarrow> string \<Rightarrow> string \<Rightarrow> string \<Rightarrow> string
     \<Rightarrow> (string + string) \<times> consoleSettings \<times> State \<times> fsys" where
  "mint_button E J S parse_duration dk dk' ord stateDir settings s fs rnd now1 now2 list selected url redemptions expiresIn label =
     (case mintShareLink E J parse_duration dk ord s fs rnd now1 now2 (chosen_ids list selected) (TrimSpace url)
          redemptions expiresIn label of
        (Err e, s', fs') \<Rightarrow> (Err e, settings, s', fs')
      | (Ok link, s', fs') \<Rightarrow>
          let settings' = settings\<lparr>cs_RedemptionURL := TrimSpace url\<rparr> in
          (Ok link, settings', s', saveSettings S dk' fs' stateDir settings'))"

text \<open>The device form starts with the given configuration, or else the first; the last match counts.\<close>

definition direct_initial :: "string \<Rightarrow> ConfigEntry list \<Rightarrow> nat" where
  "direct_initial prefillID list =
     fold (\<lambda>i n. if ce_ConfigID (list ! i) = prefillID then i else n) [0..<length list] 0"

definition direct_button ::
    "env \<Rightarrow> crypto \<Rightarrow> texts \<Rightarrow> json \<Rightarrow> disk \<Rightarrow> plain_write \<Rightarrow> State \<Rightarrow> fsys \<Rightarrow> string \<Rightarrow> mintRandom
     \<Rightarrow> string \<Rightarrow> string \<Rightarrow> string \<Rightarrow> (string + string \<times> string) \<times> fsys" where
  "direct_button E C T J dk w s fs dir R selectedID issuerURL pubkey =
     mintDirect E C T J dk w s fs dir R selectedID (TrimSpace issuerURL) (TrimSpace pubkey)"

definition proxyPorts :: "string list" where
  "proxyPorts = [''8443'', ''2053'', ''2087'', ''2096'']"

text \<open>The port the setup form starts with: that of the address, or else the first.\<close>

definition proxyPortIndex :: "DeployOpts \<Rightarrow> nat" where
  "proxyPortIndex cur =
     fold (\<lambda>i n. if HasSuffix (do_Addr cur) ('':'' @ proxyPorts ! i) then i else n) [0..<length proxyPorts] 0"

definition setup_button ::
    "settings_json \<Rightarrow> disk \<Rightarrow> 's runner \<Rightarrow> nat \<Rightarrow> string \<Rightarrow> bool \<Rightarrow> string \<Rightarrow> consoleSettings \<Rightarrow> fsys \<Rightarrow> 's
     \<Rightarrow> string \<Rightarrow> TLSMode \<Rightarrow> string \<Rightarrow> string \<Rightarrow> setup_result \<times> consoleSettings \<times> fsys \<times> 's" where
  "setup_button S dk run euid selfPath canManage stateDir settings fs s domain mode proxyPort email =
     applySetup S dk run euid selfPath canManage stateDir settings fs s (TrimSpace domain) mode proxyPort (TrimSpace email)"


section \<open>The server page\<close>

definition live_count :: "env \<Rightarrow> (string \<rightharpoonup> RedemptionToken) \<Rightarrow> string list \<Rightarrow> time \<Rightarrow> nat" where
  "live_count E tokens ord now =
     length (filter (\<lambda>t. snd (tokenStatus E t now) \<in> {statusLive, statusExpiring}) (range_values ord tokens))"

definition server_text ::
    "(time \<Rightarrow> string) \<Rightarrow> (duration \<Rightarrow> int) \<Rightarrow> LifecycleSnapshot \<Rightarrow> time \<Rightarrow> string \<Rightarrow> string \<Rightarrow> nat \<Rightarrow> nat \<Rightarrow> bool \<Rightarrow> string" where
  "server_text day days snap now pubkey keyFile configs live canManage =
     lines_text [''''] @ formatLifecycle day days snap now @
     lines_text ('''' # [''  [white::b]Creator public key[-:-:-]'',
        ''  pubkey     '' @ pubkey,
        ''  key file   '' @ keyFile @ ''  [gray](back up off-host)[-]'',
        ''  registry   '' @ nat_text configs @ '' configs '' @ middot @ '' '' @ nat_text live @ '' live share links''] @
        (if \<not> ls_Configured snap
         then ['''', ''  [yellow]Not set up yet '' @ emdash @ '' run setup to configure your domain + TLS.[-]''] else []) @
        (if \<not> canManage
         then ['''', ''  [gray]Service controls are unavailable. Re-run the installer as root'',
               ''  to restore dashboard access to start, stop, and restart.[-]''] else []))"

definition server_buttons :: "bool \<Rightarrow> LifecycleSnapshot \<Rightarrow> string list" where
  "server_buttons canManage snap =
     (if canManage then
        (case ls_Svc snap of
           Ok svc \<Rightarrow> if Running svc then [''Restart'', ''Stop''] else [''Start'']
         | Err _ \<Rightarrow> [''Start'']) @ [''Re-run setup'', ''Update binary'']
      else []) @ [''View logs'', ''Back'']"

definition logs_text :: "string + string list \<Rightarrow> string" where
  "logs_text r =
     (case r of
        Err e \<Rightarrow> ''Couldn't read logs:'' @ [newline] @ e @ [newline, newline]
          @ ''Re-run the installer as root if dashboard log access is unavailable.''
      | Ok [] \<Rightarrow> ''(no log lines yet)''
      | Ok lines \<Rightarrow> Join [newline] lines)"


section \<open>The screens and the server agree\<close>




text \<open>
  The row is a row of the file, but the burning is done in memory: a token the dashboard did not load
  when it started stays in the file and in the server, and nothing is reported.
\<close>

theorem burn_unloaded_ignored:
  assumes "row \<le> length list" "1 \<le> row" "st_redemptionTokens s (rt_Token (list ! (row - 1))) = None"
  shows "burn_row J dk ord list row ''Yes'' (s, fs) = (s, fs)"
  using assms by (simp add: burn_row_def confirm_def RemoveRedemptionToken_def)

text \<open>The number of live share links on the server page is that of the tokens for which a charge would succeed now.\<close>

theorem live_count_charges:
  assumes "st_redemptionTokens s = tokens" "tokens_wf tokens"
  shows "live_count E tokens ord now =
    length (filter (\<lambda>t. cr_Consumed (fst (ConsumeRedemptionToken E J dk ord' s fs (rt_Token t) now))) (range_values ord tokens))"
proof -
  have c: "snd (tokenStatus E t now) \<in> {statusLive, statusExpiring} \<longleftrightarrow> consumable E t now" for t
    by (auto simp: tokenStatus_def consumable_def token_expired_def split: option.splits)
  have "tokens (rt_Token t) = Some t" if "t \<in> set (range_values ord tokens)" for t
    using that assms(2) by (auto simp: range_values_def List.map_filter_def tokens_wf_def)
  then show ?thesis
    unfolding live_count_def c by (intro arg_cong [of _ _ length] filter_cong) (auto simp: Consumed_iff assms(1))
qed

end
