(* ===== verification/Backup.thy ===== *)
theory Backup
  imports AtomicFile Go_Text
begin

text \<open>
  \<^verbatim>\<open>backup.go\<close>: the walk over the state directory and what it puts into the archive. The archive is
  the list of its members, names and contents; its compression, and the headers beside the names, are
  not modelled.
\<close>

section \<open>The walk\<close>

text \<open>A directory lists its entries in the order in which they are visited.\<close>

datatype dirent = File_entry string bytes | Dir_entry string "dirent list"

fun dirent_name :: "dirent \<Rightarrow> string" where
  "dirent_name (File_entry n d) = n"
| "dirent_name (Dir_entry n es) = n"

text \<open>
  What the operating system does: \<open>filepath.Abs\<close>, the error of reading a directory, and that of a file
  (its information, its header, opening or copying it).
\<close>

record backup_os =
  bo_abs :: "string \<Rightarrow> string option"
  bo_dir_error :: "string \<Rightarrow> string option"
  bo_file_error :: "string \<Rightarrow> string option"

type_synonym archive = "(string \<times> bytes) list"

definition below :: "string \<Rightarrow> string \<Rightarrow> string" where
  "below dir name = (if dir = '''' then name else dir @ ''/'' @ name)"

text \<open>The name relative to the state directory grows with the path; the first error ends the walk.\<close>

definition skip_file :: "backup_os \<Rightarrow> string \<Rightarrow> string \<Rightarrow> string \<Rightarrow> bool" where
  "skip_file B outAbs path name = (HasSuffix name ''.tmp'' \<or> bo_abs B path = Some outAbs)"

fun walk :: "backup_os \<Rightarrow> string \<Rightarrow> string \<Rightarrow> string \<Rightarrow> dirent \<Rightarrow> archive \<Rightarrow> archive \<times> string option"
  and walk_all :: "backup_os \<Rightarrow> string \<Rightarrow> string \<Rightarrow> string \<Rightarrow> dirent list \<Rightarrow> archive \<Rightarrow> archive \<times> string option" where
  "walk B outAbs dir rel (File_entry n data) ar =
     (if skip_file B outAbs (below dir n) n then (ar, None)
      else (case bo_file_error B (below dir n) of
          Some err \<Rightarrow> (ar, Some err)
        | None \<Rightarrow> (ar @ [(below rel n, data)], None)))"
| "walk B outAbs dir rel (Dir_entry n es) ar =
     (if n = ''acme'' then (ar, None)
      else (case bo_dir_error B (below dir n) of
          Some err \<Rightarrow> (ar, Some err)
        | None \<Rightarrow> walk_all B outAbs (below dir n) (below rel n) es ar))"
| "walk_all B outAbs dir rel [] ar = (ar, None)"
| "walk_all B outAbs dir rel (e # es) ar =
     (case walk B outAbs dir rel e ar of
        (ar', Some err) \<Rightarrow> (ar', Some err)
      | (ar', None) \<Rightarrow> walk_all B outAbs dir rel es ar')"

text \<open>
  The routine: the entries of the state directory if it is one, the outcome of creating the output, the walk, and
  that of closing the writers. The result is the number of files and of bytes, the error, and the archive.
\<close>

definition archived_bytes :: "archive \<Rightarrow> nat" where
  "archived_bytes ar = sum_list (map (length \<circ> snd) ar)"

definition writeStateBackup ::
    "backup_os \<Rightarrow> dirent list option \<Rightarrow> bool \<Rightarrow> string option \<Rightarrow> string \<Rightarrow> string \<Rightarrow> nat \<times> nat \<times> string option \<times> archive" where
  "writeStateBackup B root creates close_error stateDir out =
     (case root of
        None \<Rightarrow> (0, 0, Some (''state dir '' @ stateDir @ '' is not a directory''), [])
      | Some es \<Rightarrow>
          if \<not> creates then (0, 0, Some ''create output'', [])
          else
            let outAbs = (case bo_abs B out of None \<Rightarrow> '''' | Some p \<Rightarrow> p) in
            (case (case bo_dir_error B stateDir of Some err \<Rightarrow> ([], Some err)
                   | None \<Rightarrow> walk_all B outAbs stateDir '''' es []) of
               (ar, Some err) \<Rightarrow> (length ar, archived_bytes ar, Some err, ar)
             | (ar, None) \<Rightarrow> (length ar, archived_bytes ar, close_error, ar)))"


section \<open>What is backed up\<close>

text \<open>The reference: all files below the state directory, with the directories they are in.\<close>

fun files_below :: "string list \<Rightarrow> dirent \<Rightarrow> (string list \<times> string \<times> bytes) list" where
  "files_below ds (File_entry n data) = [(ds, n, data)]"
| "files_below ds (Dir_entry n es) = concat (map (files_below (ds @ [n])) es)"

definition path_in :: "string \<Rightarrow> string list \<Rightarrow> string" where
  "path_in dir ds = foldl below dir ds"

definition wanted :: "backup_os \<Rightarrow> string \<Rightarrow> string \<Rightarrow> string list \<times> string \<times> bytes \<Rightarrow> bool" where
  "wanted B outAbs dir = (\<lambda>(ds, n, data). ''acme'' \<notin> set ds \<and> \<not> HasSuffix n ''.tmp'' \<and>
     bo_abs B (path_in dir (ds @ [n])) \<noteq> Some outAbs)"

definition member :: "string list \<times> string \<times> bytes \<Rightarrow> string \<times> bytes" where
  "member = (\<lambda>(ds, n, data). (path_in '''' (ds @ [n]), data))"

lemma path_in_snoc: "path_in dir (ds @ [n]) = below (path_in dir ds) n"
  by (simp add: path_in_def)

lemma below_acme: "''acme'' \<in> set ds \<Longrightarrow> filter (wanted B outAbs dir) (files_below ds e) = []"
proof -
  have "(ds', n, d) \<in> set (files_below ds e) \<Longrightarrow> set ds \<subseteq> set ds'" for ds' n d
  proof (induction e arbitrary: ds)
    case (Dir_entry m es)
    then show ?case by fastforce
  qed simp
  then show "''acme'' \<in> set ds \<Longrightarrow> filter (wanted B outAbs dir) (files_below ds e) = []"
    by (fastforce simp: filter_empty_conv wanted_def)
qed

lemma walk_archives:
  "d = path_in dir ds \<Longrightarrow> r = path_in '''' ds \<Longrightarrow> ''acme'' \<notin> set ds \<Longrightarrow> walk B outAbs d r e ar = (ar', None) \<Longrightarrow>
    ar' = ar @ map member (filter (wanted B outAbs dir) (files_below ds e))"
  "d = path_in dir ds \<Longrightarrow> r = path_in '''' ds \<Longrightarrow> ''acme'' \<notin> set ds \<Longrightarrow> walk_all B outAbs d r es ar = (ar', None) \<Longrightarrow>
    ar' = ar @ map member (filter (wanted B outAbs dir) (concat (map (files_below ds) es)))"
proof (induction B outAbs d r e ar and B outAbs d r es ar arbitrary: ds ar' and ds ar' rule: walk_walk_all.induct)
  case (1 B outAbs d r n data ar)
  then show ?case
    by (auto simp: skip_file_def wanted_def member_def path_in_snoc split: if_splits option.splits)
next
  case (2 B outAbs d r n es ar)
  show ?case
  proof (cases "n = ''acme''")
    case True
    then have "filter (wanted B outAbs dir) (files_below ds (Dir_entry n es)) = []"
      using below_acme [of "ds @ [n]" B outAbs dir] by (simp add: filter_empty_conv)
    then show ?thesis using 2(5) True by simp
  next
    case False
    then have "bo_dir_error B (below d n) = None" "walk_all B outAbs (below d n) (below r n) es ar = (ar', None)"
      using 2(5) by (auto split: option.splits)
    then show ?thesis using 2(1) [of "ds @ [n]" ar'] False 2(2-4) by (simp add: path_in_snoc)
  qed
next
  case (3 B outAbs d r ar)
  then show ?case by simp
next
  case (4 B outAbs d r e es ar)
  then obtain a where a: "walk B outAbs d r e ar = (a, None)" "walk_all B outAbs d r es a = (ar', None)"
    by (auto split: prod.splits option.splits)
  then show ?case using 4(1) [OF 4(3-5) a(1)] 4(2) [OF a(1) [symmetric] refl 4(3-5) a(2)] by simp
qed

text \<open>C38. A backup is complete. When it succeeds, the archive holds exactly the files below the state directory, in their
  order, under their relative names and with their contents, except those below a directory called acme, those whose
  name ends in .tmp, and the archive itself, and the counts that are reported are those of the archive.\<close>

theorem backup_complete:
  assumes "writeStateBackup B (Some es) True close_error stateDir out = (n, sz, None, ar)" "stateDir \<noteq> ''''"
    and "bo_abs B out = Some outAbs"
  shows "ar = map member (filter (wanted B outAbs stateDir) (concat (map (files_below []) es))) \<and>
    n = length ar \<and> sz = sum_list (map (length \<circ> snd) ar)"
proof -
  have w: "walk_all B outAbs stateDir '''' es [] = (ar, None)" "n = length ar" "sz = archived_bytes ar"
    using assms by (auto simp: writeStateBackup_def Let_def split: option.splits prod.splits)
  have "ar = [] @ map member (filter (wanted B outAbs stateDir) (concat (map (files_below []) es)))"
    by (rule walk_archives(2) [OF _ _ _ w(1)]) (simp_all add: path_in_def)
  with w(2,3) show ?thesis by (simp add: archived_bytes_def)
qed

definition sample_tree :: "dirent list" where
  "sample_tree = [File_entry ''.configs.json.tmp-1'' [9], Dir_entry ''acme'' [File_entry ''k'' [3]], File_entry ''configs.json'' [1, 2],
     File_entry ''old.tmp'' [4], File_entry ''out.tar.gz'' []]"

definition sample_os :: backup_os where
  "sample_os = \<lparr>bo_abs = (\<lambda>p. Some p), bo_dir_error = (\<lambda>p. None), bo_file_error = (\<lambda>p. None)\<rparr>"

theorem backup_complete_witness:
  "\<exists>ar. writeStateBackup sample_os (Some sample_tree) True None ''/d'' ''/d/out.tar.gz'' = (2, 3, None, ar) \<and>
     ar = [(''.configs.json.tmp-1'', [9]), (''configs.json'', [1, 2])] \<and>
     ar = map member (filter (wanted sample_os ''/d/out.tar.gz'' ''/d'') (concat (map (files_below []) sample_tree)))"
proof -
  have r: "writeStateBackup sample_os (Some sample_tree) True None ''/d'' ''/d/out.tar.gz''
      = (2, 3, None, [(''.configs.json.tmp-1'', [9]), (''configs.json'', [1, 2])])"
    by (simp add: writeStateBackup_def sample_os_def sample_tree_def skip_file_def HasSuffix_def below_def archived_bytes_def)
  have a: "bo_abs sample_os ''/d/out.tar.gz'' = Some ''/d/out.tar.gz''" by (simp add: sample_os_def)
  from backup_complete [OF r _ a] r show ?thesis by simp
qed

text \<open>The scratch files that the writer of the state files leaves behind when it is killed do not end in .tmp: their names go on with a
  dash and a random number, so the archive includes them.\<close>

lemma scratch_files_kept: "list_all is_digit sfx \<Longrightarrow> \<not> HasSuffix (temp_name p sfx) ''.tmp''"
proof
  assume d: "list_all is_digit sfx" and s: "HasSuffix (temp_name p sfx) ''.tmp''"
  then have "last (temp_name p sfx) = CHR ''p''"
    by (auto simp: HasSuffix_def dest!: arg_cong [of _ _ last])
  moreover have "last (temp_name p sfx) = (if sfx = '''' then CHR ''-'' else last sfx)"
    by (simp add: temp_name_def)
  ultimately have l: "sfx \<noteq> []" "last sfx = CHR ''p''" by (auto split: if_splits)
  then have "is_digit (CHR ''p'')" using d last_in_set [OF l(1)] by (simp add: list_all_iff)
  then show False by (simp add: is_digit_def)
qed

end
