(* ===== verification/Console.thy ===== *)
theory Console
  imports Dashboard Backup
begin

text \<open>
  The console around its screens (\<^verbatim>\<open>menu.go\<close>, \<^verbatim>\<open>configedit.go\<close>, \<^verbatim>\<open>setup.go\<close>): the start of
  the program, where the entries of the lists lead, and the dialogs that run a command, remove a
  configuration, or write the backup.
\<close>

section \<open>Start\<close>

text \<open>The one flag of the menu; any error, a call for help included, is \<open>None\<close>.\<close>

definition set_menu_flag :: "string \<Rightarrow> string \<Rightarrow> string option" where
  "set_menu_flag name v = (if name = ''state-dir'' then Some v else None)"

fun parse_menu_flags :: "string \<Rightarrow> string list \<Rightarrow> string option" where
  "parse_menu_flags dir [] = Some dir"
| "parse_menu_flags dir [tok] =
     (case flag_name tok of
        None \<Rightarrow> Some dir
      | Some name \<Rightarrow>
          if name = [] \<or> hd name \<in> {CHR ''-'', CHR ''=''} then None
          else (case Cut (CHR ''='') name of None \<Rightarrow> None | Some (k, v) \<Rightarrow> set_menu_flag k v))"
| "parse_menu_flags dir (tok # v # toks) =
     (case flag_name tok of
        None \<Rightarrow> Some dir
      | Some name \<Rightarrow>
          if name = [] \<or> hd name \<in> {CHR ''-'', CHR ''=''} then None
          else (case Cut (CHR ''='') name of
              Some (k, v') \<Rightarrow>
                (case set_menu_flag k v' of None \<Rightarrow> None | Some dir' \<Rightarrow> parse_menu_flags dir' (v # toks))
            | None \<Rightarrow>
                (case set_menu_flag name v of None \<Rightarrow> None | Some dir' \<Rightarrow> parse_menu_flags dir' toks)))"

text \<open>A console: its directory, the state it has loaded, the settings.\<close>

record console =
  co_stateDir :: string
  co_state :: State
  co_settings :: consoleSettings

definition newConsole ::
    "env \<Rightarrow> json \<Rightarrow> verifierRegistry \<Rightarrow> keystore \<Rightarrow> settings_json \<Rightarrow> startup \<Rightarrow> disk \<Rightarrow> fsys \<Rightarrow> string
     \<Rightarrow> (string + console) \<times> fsys" where
  "newConsole E J reg K S su dk fs stateDir =
     (case NewStateWithDir E J reg K su fs stateDir of
        (Err e, fs') \<Rightarrow> (Err e, fs')
      | (Ok s, fs') \<Rightarrow>
          (Ok \<lparr>co_stateDir = stateDir, co_state = s, co_settings = loadConsoleSettings S dk fs' stateDir\<rparr>, fs'))"

datatype screen =
    Main_screen | Add_config | Configs | Config_actions string | Mint_form string | Direct_form string | Name_form string
  | Replace_form string | Remove_dialog string | Tokens | Server_screen | Logs | Update_dialog | Backup_dialog | Setup_wizard | Sign_off

text \<open>
  What is on the screen before the first key: the page, and the welcome that is shown once when
  the key has just been made. The outcome of the run of the application is an argument.
\<close>

definition first_screen :: "setupState \<Rightarrow> screen" where
  "first_screen state =
     (case state of setupFirstRun \<Rightarrow> Setup_wizard | setupAdopt \<Rightarrow> Server_screen | setupConfigured \<Rightarrow> Main_screen)"

definition runMenuSubcommand ::
    "env \<Rightarrow> json \<Rightarrow> verifierRegistry \<Rightarrow> keystore \<Rightarrow> settings_json \<Rightarrow> startup \<Rightarrow> disk \<Rightarrow> disk \<Rightarrow> bytes option
     \<Rightarrow> (console \<Rightarrow> screen \<Rightarrow> bool \<Rightarrow> fsys \<Rightarrow> bool \<times> fsys) \<Rightarrow> string list \<Rightarrow> fsys \<Rightarrow> nat \<times> fsys" where
  "runMenuSubcommand E J reg K S su dk dk' unit app_Run args fs =
     (case parse_menu_flags defaultConsoleStateDir args of
        None \<Rightarrow> (2, fs)
      | Some stateDir \<Rightarrow>
          (case newConsole E J reg K S su dk fs stateDir of
             (Err e, fs1) \<Rightarrow> (1, fs1)
           | (Ok c, fs1) \<Rightarrow>
               (case menu_start S dk' fs1 stateDir (co_settings c) unit of
                  (state, settings, fs2) \<Rightarrow>
                    (case app_Run (c\<lparr>co_settings := settings\<rparr>) (first_screen state)
                        (state \<noteq> setupFirstRun \<and> st_keyCreated (co_state c)) fs2 of
                       (ok, fs3) \<Rightarrow> (if ok then 0 else 1, fs3)))))"


section \<open>Lists\<close>

text \<open>The entries of the main menu and of the actions on a configuration, with their keys.\<close>

definition main_menu :: "(string \<times> char \<times> screen) list" where
  "main_menu =
     [(''Import a config'', CHR ''1'', Add_config), (''Configs'', CHR ''2'', Configs),
      (''Mint a share link'', CHR ''3'', Mint_form ''''), (''Direct handout'', CHR ''4'', Direct_form ''''),
      (''Share links'', CHR ''5'', Tokens), (''Server'', CHR ''6'', Server_screen),
      (''Back up state'', CHR ''7'', Backup_dialog), (''Sign off'', CHR ''q'', Sign_off)]"

definition config_actions :: "string \<Rightarrow> (string \<times> char \<times> screen) list" where
  "config_actions i =
     [(''Share link'', CHR ''1'', Mint_form i), (''File for one device'', CHR ''2'', Direct_form i),
      (''Set display name'', CHR ''3'', Name_form i), (''Replace config'', CHR ''4'', Replace_form i),
      (''Remove config'', CHR ''5'', Remove_dialog i), (''Back'', CHR ''b'', Configs)]"

text \<open>The header row of the table cannot be selected.\<close>

definition config_selected :: "ConfigEntry list \<Rightarrow> nat \<Rightarrow> screen option" where
  "config_selected list row =
     (if 1 \<le> row \<and> row - 1 < length list then Some (Config_actions (ce_ConfigID (list ! (row - 1)))) else None)"

text \<open>The form of the display name starts with the name of the first entry with the identifier.\<close>

definition showDisplayName :: "json \<Rightarrow> disk \<Rightarrow> fsys \<Rightarrow> string \<Rightarrow> string \<Rightarrow> string + string" where
  "showDisplayName J dk fs dir i =
     (case readConfigEntries J dk fs (configs_path dir) of
        Err e \<Rightarrow> Err (''Couldn't read configs.json:'' @ [newline, newline] @ e)
      | Ok list \<Rightarrow>
          (case find (\<lambda>e. ce_ConfigID e = i) list of
             None \<Rightarrow> Err ''Config not found in configs.json.''
           | Some e \<Rightarrow> Ok (ce_DisplayName e)))"


section \<open>Dialogs\<close>

text \<open>Each gives the message it ends with, if any.\<close>

definition remove_dialog ::
    "json \<Rightarrow> console_json \<Rightarrow> disk \<Rightarrow> string \<Rightarrow> string \<Rightarrow> string \<Rightarrow> fsys \<Rightarrow> string option \<times> fsys" where
  "remove_dialog J X dk dir i label fs =
     confirm label (\<lambda>_. case removeConfig J X dk fs dir i of
        (Some err, fs') \<Rightarrow> (Some (''Couldn't remove:'' @ [newline, newline] @ err), fs')
      | (None, fs') \<Rightarrow> (Some ''Removed.'', fs')) (None, fs)"

definition serviceAction :: "'s runner \<Rightarrow> nat \<Rightarrow> string \<Rightarrow> string \<Rightarrow> 's \<Rightarrow> string option \<times> 's" where
  "serviceAction run euid selfPath verb s =
     (case execServiceVerb run euid selfPath verb [] s of
        (Some err, s') \<Rightarrow> (Some (''Couldn't '' @ verb @ '' the service:'' @ [newline, newline] @ err), s')
      | (None, s') \<Rightarrow> (None, s'))"

definition updateBinary :: "'s runner \<Rightarrow> nat \<Rightarrow> string \<Rightarrow> string \<Rightarrow> 's \<Rightarrow> string option \<times> 's" where
  "updateBinary run euid selfPath label s =
     confirm label (\<lambda>_. case execServiceVerb run euid selfPath ''update'' [] s of
        (Some err, s') \<Rightarrow> (Some (''Update failed:'' @ [newline, newline] @ err), s')
      | (None, s') \<Rightarrow> (Some ''Updated. The service is now running the new binary.'', s')) (None, s)"

definition backup_path :: "string \<Rightarrow> string" where
  "backup_path dir = in_dir dir ''creator-server-state-backup.tar.gz''"

definition showBackup ::
    "backup_os \<Rightarrow> dirent list option \<Rightarrow> bool \<Rightarrow> string option \<Rightarrow> string \<Rightarrow> string \<Rightarrow> string option \<times> archive" where
  "showBackup B root creates close_error dir label =
     confirm label (\<lambda>_. case writeStateBackup B root creates close_error dir (backup_path dir) of
        (n, b, Some err, ar) \<Rightarrow> (Some (''Backup failed:'' @ [newline, newline] @ err), ar)
      | (n, b, None, ar) \<Rightarrow>
          (Some (''Backed up '' @ nat_text n @ '' files ('' @ nat_text b @ '' bytes) to:'' @ [newline] @ backup_path dir
            @ [newline, newline] @ ''Copy it somewhere safe, off this box.''), ar))
       (None, [])"

text \<open>The last page of the setup.\<close>

definition finishSetup :: "DeployOpts \<Rightarrow> bool \<Rightarrow> string \<Rightarrow> string \<Rightarrow> string" where
  "finishSetup opts healthy pubkey dir = lines_text [
     '''',
     ''  '' @ (if healthy then ''[green]The service is up and answering on '' @ healthURL opts @ ''.[-]''
       else Join [newline] [''[yellow]Installed and started, but it hasn't answered yet.'',
         ''  Built-in TLS can take a minute to get its first certificate '' @ emdash,
         ''  check the Server screen or logs shortly.[-]'']),
     '''',
     ''  [white::b]Your creator identity[-:-:-]'',
     ''  pubkey    '' @ pubkey,
     ''  key file  '' @ in_dir dir ''creator-key.pem'',
     '''',
     ''  [yellow]Back up the state directory off-host.[-]'']"

section \<open>Opening the console is safe\<close>

lemma saveSettings_frame:
  "p \<noteq> console_path dir \<Longrightarrow> files fs p = Some n \<Longrightarrow> files (saveSettings S dk fs dir st) p = Some n"
  using atomicWriteFile_frame
  by (fastforce simp: saveSettings_def prod_eq_iff split: option.splits)

lemma atomicWriteFile_existing:
  assumes "atomicWriteFile io fs path data m = (e, fs')" "files fs path = None" "files fs p = Some n"
  shows "files fs' p = Some n"
proof -
  have "p \<noteq> path" using assms(2,3) by auto
  then show ?thesis using atomicWriteFile_frame [OF assms(1)] assms(3) by simp
qed

lemma Read_NotExistD: "os_ReadFile dk fs path = Read_NotExist \<Longrightarrow> files fs path = None"
  by (simp add: os_ReadFile_def split: if_splits option.splits)

lemma loadOrCreateCreatorKey_frame:
  assumes "files fs p = Some n" "loadOrCreateCreatorKey K dk fs path rnd = (r, fs')"
  shows "files fs' p = Some n"
proof (cases "os_ReadFile dk fs path")
  case Read_NotExist
  then show ?thesis
    using assms(2) atomicWriteFile_existing [OF _ Read_NotExistD [OF Read_NotExist] assms(1)] assms(1)
    by (auto simp: loadOrCreateCreatorKey_def Let_def split: option.splits prod.splits)
qed (use assms in \<open>auto simp: loadOrCreateCreatorKey_def split: option.splits parsed_key.splits prod.splits if_splits\<close>)

lemma loadOrCreateAuditSalt_frame:
  assumes "files fs p = Some n" "loadOrCreateAuditSalt dk fs path rnd = (r, fs')"
  shows "files fs' p = Some n"
proof (cases "os_ReadFile dk fs path")
  case Read_NotExist
  then show ?thesis
    using assms(2) atomicWriteFile_existing [OF _ Read_NotExistD [OF Read_NotExist] assms(1)] assms(1)
    by (auto simp: loadOrCreateAuditSalt_def Let_def split: option.splits prod.splits if_splits)
qed (use assms in \<open>auto simp: loadOrCreateAuditSalt_def split: if_splits\<close>)

lemma startup_frame:
  assumes "files fs p = Some n" "\<And>f. dk_between (su_configs su) f = f" "\<And>f. dk_between (su_tokens su) f = f"
    and "NewStateWithDir E J reg K su fs dir = (r, fs')"
  shows "files fs' p = Some n"
proof -
  obtain r1 fs1 where k: "loadOrCreateCreatorKey K (su_key su) fs (in_dir dir ''creator-key.pem'') (su_keyRnd su) = (r1, fs1)"
    by fastforce
  obtain r2 fs2 where s: "loadOrCreateAuditSalt (su_salt su) fs1 (in_dir dir ''audit-salt.bin'') (su_saltRnd su) = (r2, fs2)"
    by fastforce
  note f1 = loadOrCreateCreatorKey_frame [OF assms(1) k]
  note f2 = loadOrCreateAuditSalt_frame [OF f1 s]
  show ?thesis
    using assms(4) assms(1) f1 f2 unfolding NewStateWithDir_def k
    by (auto simp: s Let_def assms(2,3) split: sum.splits if_splits prod.splits)
qed

lemma menu_start_frame:
  "p \<noteq> console_path dir \<Longrightarrow> files fs p = Some n \<Longrightarrow> menu_start S dk fs dir st unit = (state, st', fs') \<Longrightarrow> files fs' p = Some n"
  using saveSettings_frame [of p dir fs n S dk]
  by (auto simp: menu_start_def adoptDeployment_def Let_def split: if_splits option.splits)

text \<open>
  Until the first key is pressed the console has written nothing that was there before, its own
  settings apart: neither the key, nor the salt, nor a registry of a running server.
\<close>

theorem console_opens_safely:
  assumes "parse_menu_flags defaultConsoleStateDir args = Some dir" "p \<noteq> console_path dir" "files fs p = Some n"
    and "\<And>f. dk_between (su_configs su) f = f" "\<And>f. dk_between (su_tokens su) f = f"
    and "\<And>c sc w f. snd (app_Run c sc w f) = f"
  shows "files (snd (runMenuSubcommand E J reg K S su dk dk' unit app_Run args fs)) p = Some n"
proof -
  obtain r fs1 where N: "NewStateWithDir E J reg K su fs dir = (r, fs1)" by fastforce
  note f1 = startup_frame [OF assms(3-5) N]
  show ?thesis
  proof (cases r)
    case (Inl e)
    then show ?thesis using f1 by (simp add: runMenuSubcommand_def newConsole_def assms(1) N)
  next
    case (Inr s)
    obtain state st fs2 where m: "menu_start S dk' fs1 dir (loadConsoleSettings S dk fs1 dir) unit = (state, st, fs2)"
      using prod_cases3 by blast
    obtain ok fs3 where a: "app_Run \<lparr>co_stateDir = dir, co_state = s, co_settings = st\<rparr> (first_screen state)
        (state \<noteq> setupFirstRun \<and> st_keyCreated s) fs2 = (ok, fs3)" by fastforce
    then have "fs3 = fs2" using assms(6) by (metis snd_conv)
    then show ?thesis
      using menu_start_frame [OF assms(2) f1 m] a by (simp add: runMenuSubcommand_def newConsole_def assms(1) N Inr m)
  qed
qed

end
