(* ===== verification/Navigation.thy ===== *)
theory Navigation
  imports Console
begin

text \<open>
  The dashboard as a machine of events (\<^verbatim>\<open>menu.go\<close>, \<^verbatim>\<open>configedit.go\<close>, \<^verbatim>\<open>setup.go\<close>): every screen it opens, every
  callback it registers with what the callback has captured, the dialogs on top, and the background jobs, whose
  results reach the screen through the queue of draws. The pages of \<^verbatim>\<open>tview\<close> are an argument, with their documented
  behaviour as a hypothesis; which callback runs when is the order of the events, so any visible page may get the input.
\<close>

section \<open>Pages\<close>

datatype dialog =
    Tell string "screen option"
  | Ask_remove string
  | Ask_burn RedemptionToken
  | Ask_update
  | Ask_backup

text \<open>A page, with the values its callbacks close over.\<close>

datatype view =
    Main_page
  | Add_page
  | Configs_page "ConfigEntry list"
  | Actions_page string
  | Mint_page "ConfigEntry list" "bool list" string
  | Direct_page "ConfigEntry list" nat string
  | Name_page string string
  | Replace_page string
  | Tokens_page "RedemptionToken list"
  | Server_page LifecycleSnapshot
  | Logs_page
  | Setup_page DeployOpts nat
  | Wait_page DeployOpts
  | Done_page DeployOpts bool
  | Dialog dialog

fun page_name :: "view \<Rightarrow> string" where
  "page_name Main_page = ''main''"
| "page_name Add_page = ''addconfig''"
| "page_name (Configs_page list) = ''configs''"
| "page_name (Actions_page i) = ''configactions''"
| "page_name (Mint_page list selected url) = ''mint''"
| "page_name (Direct_page list i url) = ''directmint''"
| "page_name (Name_page i name) = ''displayname''"
| "page_name (Replace_page i) = ''replace''"
| "page_name (Tokens_page list) = ''tokens''"
| "page_name (Server_page snap) = ''server''"
| "page_name Logs_page = ''logs''"
| "page_name (Setup_page cur i) = ''setup''"
| "page_name (Wait_page opts) = ''setupwait''"
| "page_name (Done_page opts healthy) = ''setupdone''"
| "page_name (Dialog d) = ''modal''"

text \<open>What the code calls of \<open>tview.Pages\<close>.\<close>

record 'p page_ops =
  pg_New :: 'p
  pg_AddPage :: "string \<Rightarrow> view \<Rightarrow> 'p \<Rightarrow> 'p"
  pg_AddAndSwitchToPage :: "string \<Rightarrow> view \<Rightarrow> 'p \<Rightarrow> 'p"
  pg_RemovePage :: "string \<Rightarrow> 'p \<Rightarrow> 'p"
  pg_GetFrontPage :: "'p \<Rightarrow> (string \<times> view) option"

text \<open>
  As documented: a page replaces one of its name; an added page is drawn last; switching makes a page the
  only visible one; the front page is the last that is visible. \<open>vis\<close> gives the visible pages in the order
  of drawing. What happens when the last visible page is removed is left open.
\<close>

definition pages_documented :: "'p page_ops \<Rightarrow> ('p \<Rightarrow> (string \<times> view) list) \<Rightarrow> bool" where
  "pages_documented P vis =
     (\<forall>n v p. vis (pg_AddPage P n v p) = filter (\<lambda>x. fst x \<noteq> n) (vis p) @ [(n, v)] \<and>
        vis (pg_AddAndSwitchToPage P n v p) = [(n, v)] \<and>
        (filter (\<lambda>x. fst x \<noteq> n) (vis p) \<noteq> [] \<longrightarrow> vis (pg_RemovePage P n p) = filter (\<lambda>x. fst x \<noteq> n) (vis p)) \<and>
        pg_GetFrontPage P p = (if vis p = [] then None else Some (last (vis p))))"


section \<open>The console\<close>

text \<open>Goroutines that run, and the draws they have queued.\<close>

datatype job =
    Run_verb string
  | Run_update
  | Run_setup DeployOpts
  | Poll_health DeployOpts
  | Load_logs

datatype draw =
    Verb_done "string option"
  | Update_done string
  | Setup_run DeployOpts "string option"
  | Polled DeployOpts bool
  | Logs_loaded string

record ('p, 's) ui =
  ui_state :: State
  ui_settings :: consoleSettings
  ui_fs :: fsys
  ui_machine :: 's
  ui_archive :: archive
  ui_pages :: 'p
  ui_jobs :: "job list"
  ui_draws :: "draw list"
  ui_running :: bool

text \<open>What stays the same while the console runs, and what one step gets from outside.\<close>

record ('p, 's) ui_world =
  uw_env :: env
  uw_json :: json
  uw_console_json :: console_json
  uw_settings_json :: settings_json
  uw_duration :: "string \<Rightarrow> duration option"
  uw_crypto :: crypto
  uw_texts :: texts
  uw_run :: "'s runner"
  uw_euid :: nat
  uw_selfPath :: string
  uw_canManage :: bool
  uw_stateDir :: string
  uw_version :: string
  uw_backup :: backup_os
  uw_pages :: "'p page_ops"

record ui_io =
  uc_disk :: disk
  uc_settingsDisk :: disk
  uc_ord :: "string list"
  uc_rnd :: random_read
  uc_now1 :: time
  uc_now2 :: time
  uc_write :: plain_write
  uc_mint :: mintRandom
  uc_unit :: "bytes option"
  uc_status :: "string + ServiceStatus"
  uc_probes :: probes
  uc_tree :: "dirent list option"
  uc_creates :: bool
  uc_close :: "string option"
  uc_logs :: "string + string list"
  uc_answers :: "nat \<Rightarrow> bool"

definition switchTo :: "('p, 's) ui_world \<Rightarrow> view \<Rightarrow> ('p, 's) ui \<Rightarrow> ('p, 's) ui" where
  "switchTo W v u = u\<lparr>ui_pages := pg_AddAndSwitchToPage (uw_pages W) (page_name v) v (ui_pages u)\<rparr>"

definition modal :: "('p, 's) ui_world \<Rightarrow> dialog \<Rightarrow> ('p, 's) ui \<Rightarrow> ('p, 's) ui" where
  "modal W d u = u\<lparr>ui_pages := pg_AddPage (uw_pages W) ''modal'' (Dialog d) (ui_pages u)\<rparr>"

definition flash :: "('p, 's) ui_world \<Rightarrow> string \<Rightarrow> ('p, 's) ui \<Rightarrow> ('p, 's) ui" where
  "flash W msg = modal W (Tell msg None)"

definition flashThen :: "('p, 's) ui_world \<Rightarrow> string \<Rightarrow> screen \<Rightarrow> ('p, 's) ui \<Rightarrow> ('p, 's) ui" where
  "flashThen W msg sc = modal W (Tell msg (Some sc))"

definition spawn :: "job \<Rightarrow> ('p, 's) ui \<Rightarrow> ('p, 's) ui" where
  "spawn j u = u\<lparr>ui_jobs := ui_jobs u @ [j]\<rparr>"

section \<open>Opening a screen\<close>

definition read_failed :: "string \<Rightarrow> string \<Rightarrow> string" where
  "read_failed name e = ''Couldn't read '' @ name @ '':'' @ [newline, newline] @ e"

definition ui_deploy :: "('p, 's) ui_world \<Rightarrow> ui_io \<Rightarrow> ('p, 's) ui \<Rightarrow> DeployOpts" where
  "ui_deploy W io u = deploy (uw_env W) (uw_stateDir W) (ui_settings u) (uc_unit io)"

definition showConfigs :: "('p, 's) ui_world \<Rightarrow> ui_io \<Rightarrow> ('p, 's) ui \<Rightarrow> ('p, 's) ui" where
  "showConfigs W io u =
     (case readConfigEntries (uw_json W) (uc_disk io) (ui_fs u) (configs_path (uw_stateDir W)) of
        Err e \<Rightarrow> flash W (read_failed ''configs.json'' e) u
      | Ok list \<Rightarrow>
          if list = [] then flashThen W (''No configs yet.'' @ [newline, newline] @ ''Import one from the main menu (option 1).'') Main_screen u
          else switchTo W (Configs_page list) u)"

definition showMint :: "('p, 's) ui_world \<Rightarrow> ui_io \<Rightarrow> string \<Rightarrow> ('p, 's) ui \<Rightarrow> ('p, 's) ui" where
  "showMint W io prefillID u =
     (case readConfigEntries (uw_json W) (uc_disk io) (ui_fs u) (configs_path (uw_stateDir W)) of
        Err e \<Rightarrow> flash W (read_failed ''configs.json'' e) u
      | Ok configs \<Rightarrow>
          if configs = [] then flashThen W ''Import a config first (main menu, option 1).'' Main_screen u
          else switchTo W (Mint_page configs (preselected prefillID configs)
            (mint_url (uw_env W) (uw_stateDir W) (ui_settings u) (uc_unit io))) u)"

definition showDirectMint :: "('p, 's) ui_world \<Rightarrow> ui_io \<Rightarrow> string \<Rightarrow> ('p, 's) ui \<Rightarrow> ('p, 's) ui" where
  "showDirectMint W io prefillID u =
     (case readConfigEntries (uw_json W) (uc_disk io) (ui_fs u) (configs_path (uw_stateDir W)) of
        Err e \<Rightarrow> flash W (read_failed ''configs.json'' e) u
      | Ok configs \<Rightarrow>
          if configs = [] then flashThen W ''Register a config first (main menu).'' Main_screen u
          else switchTo W (Direct_page configs (direct_initial prefillID configs) (IssuerURL (ui_deploy W io u))) u)"

definition open_name_form :: "('p, 's) ui_world \<Rightarrow> ui_io \<Rightarrow> string \<Rightarrow> ('p, 's) ui \<Rightarrow> ('p, 's) ui" where
  "open_name_form W io i u =
     (case showDisplayName (uw_json W) (uc_disk io) (ui_fs u) (uw_stateDir W) i of
        Err e \<Rightarrow> flash W e u | Ok name \<Rightarrow> switchTo W (Name_page i name) u)"

definition open_tokens :: "('p, 's) ui_world \<Rightarrow> ui_io \<Rightarrow> ('p, 's) ui \<Rightarrow> ('p, 's) ui" where
  "open_tokens W io u =
     (case token_list (uw_json W) (uc_disk io) (ui_fs u) (in_dir (uw_stateDir W) ''redemption-tokens.json'') (uc_ord io) of
        Err e \<Rightarrow> flash W (read_failed ''redemption-tokens.json'' e) u
      | Ok list \<Rightarrow>
          if list = [] then flashThen W (''No share links yet.'' @ [newline, newline] @ ''Mint one from the main menu (option 3).'') Main_screen u
          else switchTo W (Tokens_page list) u)"

definition showServer :: "('p, 's) ui_world \<Rightarrow> ui_io \<Rightarrow> ('p, 's) ui \<Rightarrow> ('p, 's) ui" where
  "showServer W io u =
     switchTo W (Server_page (collectLifecycle (uw_version W) (uc_status io) (uc_probes io) (ui_deploy W io u)
       (in_dir (uw_stateDir W) ''acme''))) u"

definition showLogs :: "('p, 's) ui_world \<Rightarrow> ('p, 's) ui \<Rightarrow> ('p, 's) ui" where
  "showLogs W u = spawn Load_logs (switchTo W Logs_page u)"

definition showSetupWizard :: "('p, 's) ui_world \<Rightarrow> ui_io \<Rightarrow> ('p, 's) ui \<Rightarrow> ('p, 's) ui" where
  "showSetupWizard W io u = (let cur = ui_deploy W io u in switchTo W (Setup_page cur (proxyPortIndex cur)) u)"

definition open_screen :: "('p, 's) ui_world \<Rightarrow> ui_io \<Rightarrow> screen \<Rightarrow> ('p, 's) ui \<Rightarrow> ('p, 's) ui" where
  "open_screen W io sc u =
     (case sc of
        Main_screen \<Rightarrow> switchTo W Main_page u
      | Add_config \<Rightarrow> switchTo W Add_page u
      | Configs \<Rightarrow> showConfigs W io u
      | Config_actions i \<Rightarrow> switchTo W (Actions_page i) u
      | Mint_form i \<Rightarrow> showMint W io i u
      | Direct_form i \<Rightarrow> showDirectMint W io i u
      | Name_form i \<Rightarrow> open_name_form W io i u
      | Replace_form i \<Rightarrow> switchTo W (Replace_page i) u
      | Remove_dialog i \<Rightarrow> modal W (Ask_remove i) u
      | Tokens \<Rightarrow> open_tokens W io u
      | Server_screen \<Rightarrow> showServer W io u
      | Logs \<Rightarrow> showLogs W u
      | Update_dialog \<Rightarrow> modal W Ask_update u
      | Backup_dialog \<Rightarrow> modal W Ask_backup u
      | Setup_wizard \<Rightarrow> showSetupWizard W io u
      | Sign_off \<Rightarrow> u\<lparr>ui_running := False\<rparr>)"


section \<open>Buttons\<close>

text \<open>The inputs of the user: keys of the whole application, entries, rows, and buttons with the fields at that moment.\<close>

datatype input =
    Entry nat
  | Row nat
  | Button string
  | Register string
  | Save_name string
  | Replace_with string
  | Mint_link "bool list" string string string string
  | Make_file nat string string
  | Set_up string TLSMode string string
  | Refresh
  | Label string

definition press_register :: "('p, 's) ui_world \<Rightarrow> ui_io \<Rightarrow> string \<Rightarrow> ('p, 's) ui \<Rightarrow> ('p, 's) ui" where
  "press_register W io configStr u =
     (case decodeConfigRegistration (uw_env W) (uw_console_json W) configStr of
        Err e \<Rightarrow> flash W (''That registration could not be imported:'' @ [newline, newline] @ e) u
      | Ok (body, rp) \<Rightarrow>
          (case appendConfig (uw_json W) (uw_console_json W) (uc_disk io) (ui_fs u) (uw_stateDir W) (uc_rnd io) body rp of
             (Err e, fs') \<Rightarrow> flash W (''Couldn't save:'' @ [newline, newline] @ e) (u\<lparr>ui_fs := fs'\<rparr>)
           | (Ok i, fs') \<Rightarrow>
               flashThen W (Join [newline] ([''Registered.'', '''', ''configId:'', i, '''', ''Mint a share link for it from the main menu.''] @
                 (if rp_blockRooted rp then ['''', ''Device attestation is REQUIRED: only stock, non-rooted Android'',
                    ''devices (verified boot) will receive it.''] else []))) Main_screen (u\<lparr>ui_fs := fs'\<rparr>)))"

definition press_save_name :: "('p, 's) ui_world \<Rightarrow> ui_io \<Rightarrow> string \<Rightarrow> string \<Rightarrow> ('p, 's) ui \<Rightarrow> ('p, 's) ui" where
  "press_save_name W io i name u =
     (case setConfigDisplayName (uw_json W) (uw_console_json W) (uc_disk io) (ui_fs u) (uw_stateDir W) i name of
        (Some e, fs') \<Rightarrow> flash W (''Couldn't save the display name:'' @ [newline, newline] @ e) (u\<lparr>ui_fs := fs'\<rparr>)
      | (None, fs') \<Rightarrow>
          flashThen W ''Display name saved. New handouts and share-link redemptions use it.'' (Config_actions i) (u\<lparr>ui_fs := fs'\<rparr>))"

definition press_replace :: "('p, 's) ui_world \<Rightarrow> ui_io \<Rightarrow> string \<Rightarrow> string \<Rightarrow> ('p, 's) ui \<Rightarrow> ('p, 's) ui" where
  "press_replace W io i configStr u =
     (case decodeConfigRegistration (uw_env W) (uw_console_json W) (TrimSpace configStr) of
        Err e \<Rightarrow> flash W (''That registration could not be imported:'' @ [newline, newline] @ e) u
      | Ok (body, p) \<Rightarrow>
          (case replaceConfigRegistration (uw_json W) (uw_console_json W) (uc_disk io) (ui_fs u) (uw_stateDir W) i body p of
             (Some e, fs') \<Rightarrow> flash W (''Couldn't replace:'' @ [newline, newline] @ e) (u\<lparr>ui_fs := fs'\<rparr>)
           | (None, fs') \<Rightarrow>
               flashThen W (''Config replaced. Your share links and handout files keep working '' @ emdash @ [newline]
                 @ ''people get the new config on their next connect.'') (Config_actions i) (u\<lparr>ui_fs := fs'\<rparr>)))"

definition press_mint ::
    "('p, 's) ui_world \<Rightarrow> ui_io \<Rightarrow> ConfigEntry list \<Rightarrow> bool list \<Rightarrow> string \<Rightarrow> string \<Rightarrow> string \<Rightarrow> string \<Rightarrow> ('p, 's) ui \<Rightarrow> ('p, 's) ui" where
  "press_mint W io configs selected url redemptions expiresIn label u =
     (case mint_button (uw_env W) (uw_json W) (uw_settings_json W) (uw_duration W) (uc_disk io) (uc_settingsDisk io) (uc_ord io)
          (uw_stateDir W) (ui_settings u) (ui_state u) (ui_fs u) (uc_rnd io) (uc_now1 io) (uc_now2 io) configs selected
          url redemptions expiresIn label of
        (Err e, st', s', fs') \<Rightarrow>
          flash W (''Couldn't mint:'' @ [newline, newline] @ e) (u\<lparr>ui_settings := st', ui_state := s', ui_fs := fs'\<rparr>)
      | (Ok link, st', s', fs') \<Rightarrow>
          flashThen W (''Share link minted '' @ emdash @ '' post this in your channel:'' @ [newline, newline] @ link) Main_screen
            (u\<lparr>ui_settings := st', ui_state := s', ui_fs := fs'\<rparr>))"

definition press_make_file ::
    "('p, 's) ui_world \<Rightarrow> ui_io \<Rightarrow> string \<Rightarrow> string \<Rightarrow> string \<Rightarrow> ('p, 's) ui \<Rightarrow> ('p, 's) ui" where
  "press_make_file W io selectedID issuerURL pubkey u =
     (case direct_button (uw_env W) (uw_crypto W) (uw_texts W) (uw_json W) (uc_disk io) (uc_write io) (ui_state u) (ui_fs u)
          (uw_stateDir W) (uc_mint io) selectedID issuerURL pubkey of
        (Err e, fs') \<Rightarrow> flash W (''Couldn't make the file:'' @ [newline, newline] @ e) (u\<lparr>ui_fs := fs'\<rparr>)
      | (Ok (path, b64), fs') \<Rightarrow>
          flashThen W (''Saved to:'' @ [newline] @ path @ [newline, newline] @ ''Or paste this to the recipient:''
            @ [newline, newline] @ b64) Main_screen (u\<lparr>ui_fs := fs'\<rparr>))"

text \<open>The checks of the setup form before the installation starts.\<close>

definition setup_guard :: "('p, 's) ui_world \<Rightarrow> string \<Rightarrow> TLSMode \<Rightarrow> string \<Rightarrow> string \<Rightarrow> string + DeployOpts" where
  "setup_guard W domain mode proxyPort email =
     (if domain = '''' then Err ''Public hostname is required.''
      else if list_ex (\<lambda>c. c \<in> set ''/: '') domain
      then Err (''Hostname must be a bare host '' @ emdash @ '' no scheme, port, or path.''
        @ [newline, newline] @ ''Got: '' @ domain)
      else
        let opts = setup_opts (uw_selfPath W) (uw_stateDir W) domain mode proxyPort email in
        if \<not> uw_canManage W then Err (setupManualInstructions opts) else Ok opts)"

definition press_set_up :: "('p, 's) ui_world \<Rightarrow> string \<Rightarrow> TLSMode \<Rightarrow> string \<Rightarrow> string \<Rightarrow> ('p, 's) ui \<Rightarrow> ('p, 's) ui" where
  "press_set_up W domain mode proxyPort email u =
     (case setup_guard W (TrimSpace domain) mode proxyPort (TrimSpace email) of
        Err msg \<Rightarrow> flash W msg u | Ok opts \<Rightarrow> spawn (Run_setup opts) u)"

text \<open>The buttons of the server page and of the last page of the setup.\<close>

definition server_press :: "('p, 's) ui_world \<Rightarrow> ui_io \<Rightarrow> LifecycleSnapshot \<Rightarrow> string \<Rightarrow> ('p, 's) ui \<Rightarrow> ('p, 's) ui" where
  "server_press W io snap label u =
     (if label \<notin> set (server_buttons (uw_canManage W) snap) then u
      else if label = ''Restart'' then spawn (Run_verb ''restart'') u
      else if label = ''Stop'' then spawn (Run_verb ''stop'') u
      else if label = ''Start'' then spawn (Run_verb ''start'') u
      else if label = ''Re-run setup'' then open_screen W io Setup_wizard u
      else if label = ''Update binary'' then open_screen W io Update_dialog u
      else if label = ''View logs'' then open_screen W io Logs u
      else open_screen W io Main_screen u)"

definition setup_done_press :: "('p, 's) ui_world \<Rightarrow> ui_io \<Rightarrow> string \<Rightarrow> ('p, 's) ui \<Rightarrow> ('p, 's) ui" where
  "setup_done_press W io label u =
     (if label = ''Back up now'' then open_screen W io Backup_dialog u
      else if label = ''Go to Server'' then open_screen W io Server_screen u
      else if label = ''Main menu'' then open_screen W io Main_screen u
      else u)"

text \<open>What a dialog does with the label of its button, after it has been taken away.\<close>

definition dialog_action :: "('p, 's) ui_world \<Rightarrow> ui_io \<Rightarrow> dialog \<Rightarrow> ('p, 's) ui \<Rightarrow> ('p, 's) ui" where
  "dialog_action W io d u =
     (case d of
        Tell msg None \<Rightarrow> u
      | Tell msg (Some sc) \<Rightarrow> open_screen W io sc u
      | Ask_remove i \<Rightarrow>
          (case removeConfig (uw_json W) (uw_console_json W) (uc_disk io) (ui_fs u) (uw_stateDir W) i of
             (Some err, fs') \<Rightarrow> flash W (''Couldn't remove:'' @ [newline, newline] @ err) (u\<lparr>ui_fs := fs'\<rparr>)
           | (None, fs') \<Rightarrow> flashThen W ''Removed.'' Configs (u\<lparr>ui_fs := fs'\<rparr>))
      | Ask_burn tok \<Rightarrow>
          (case RemoveRedemptionToken (uw_json W) (uc_disk io) (uc_ord io) (ui_state u) (ui_fs u) (rt_Token tok) of
             (_, s', fs') \<Rightarrow> open_screen W io Tokens (u\<lparr>ui_state := s', ui_fs := fs'\<rparr>))
      | Ask_update \<Rightarrow> spawn Run_update u
      | Ask_backup \<Rightarrow>
          (case showBackup (uw_backup W) (uc_tree io) (uc_creates io) (uc_close io) (uw_stateDir W) ''Yes'' of
             (None, ar) \<Rightarrow> u
           | (Some msg, ar) \<Rightarrow> flash W msg (u\<lparr>ui_archive := ar\<rparr>)))"

definition dialog_press :: "('p, 's) ui_world \<Rightarrow> ui_io \<Rightarrow> dialog \<Rightarrow> string \<Rightarrow> ('p, 's) ui \<Rightarrow> ('p, 's) ui" where
  "dialog_press W io d label u =
     (let u' = u\<lparr>ui_pages := pg_RemovePage (uw_pages W) ''modal'' (ui_pages u)\<rparr> in
      case d of
        Tell msg next \<Rightarrow> dialog_action W io d u'
      | _ \<Rightarrow> confirm label (dialog_action W io d) u')"

text \<open>An entry of a list runs what it was added with; there is none beyond the last.\<close>

definition list_press :: "('p, 's) ui_world \<Rightarrow> ui_io \<Rightarrow> (string \<times> char \<times> screen) list \<Rightarrow> nat \<Rightarrow> ('p, 's) ui \<Rightarrow> ('p, 's) ui" where
  "list_press W io items i u = (if i < length items then open_screen W io (snd (snd (items ! i))) u else u)"

text \<open>The callbacks of the pages; an input that a page has none for does nothing.\<close>

definition cancel_to :: "('p, 's) ui_world \<Rightarrow> ui_io \<Rightarrow> screen \<Rightarrow> string \<Rightarrow> ('p, 's) ui \<Rightarrow> ('p, 's) ui" where
  "cancel_to W io sc l u = (if l = ''Cancel'' then open_screen W io sc u else u)"

definition add_input :: "('p, 's) ui_world \<Rightarrow> ui_io \<Rightarrow> input \<Rightarrow> ('p, 's) ui \<Rightarrow> ('p, 's) ui" where
  "add_input W io inp u =
     (case inp of Register value \<Rightarrow> press_register W io value u | Button l \<Rightarrow> cancel_to W io Main_screen l u | _ \<Rightarrow> u)"

definition configs_input :: "('p, 's) ui_world \<Rightarrow> ui_io \<Rightarrow> ConfigEntry list \<Rightarrow> input \<Rightarrow> ('p, 's) ui \<Rightarrow> ('p, 's) ui" where
  "configs_input W io list inp u =
     (case inp of
        Row r \<Rightarrow> (case config_selected list r of None \<Rightarrow> u | Some sc \<Rightarrow> open_screen W io sc u)
      | _ \<Rightarrow> u)"

definition mint_input :: "('p, 's) ui_world \<Rightarrow> ui_io \<Rightarrow> ConfigEntry list \<Rightarrow> input \<Rightarrow> ('p, 's) ui \<Rightarrow> ('p, 's) ui" where
  "mint_input W io list inp u =
     (case inp of
        Mint_link selected url n x label \<Rightarrow> press_mint W io list selected url n x label u
      | Button l \<Rightarrow> cancel_to W io Main_screen l u
      | _ \<Rightarrow> u)"

text \<open>The choice of the drop-down list counts if it is one of the configurations; else the initial one stays.\<close>

definition direct_input :: "('p, 's) ui_world \<Rightarrow> ui_io \<Rightarrow> ConfigEntry list \<Rightarrow> nat \<Rightarrow> input \<Rightarrow> ('p, 's) ui \<Rightarrow> ('p, 's) ui" where
  "direct_input W io list i0 inp u =
     (case inp of
        Make_file i url pubkey \<Rightarrow>
          press_make_file W io (ce_ConfigID (list ! (if i < length list then i else i0))) url pubkey u
      | Button l \<Rightarrow> cancel_to W io Main_screen l u
      | _ \<Rightarrow> u)"

definition name_input :: "('p, 's) ui_world \<Rightarrow> ui_io \<Rightarrow> string \<Rightarrow> input \<Rightarrow> ('p, 's) ui \<Rightarrow> ('p, 's) ui" where
  "name_input W io c inp u =
     (case inp of Save_name name \<Rightarrow> press_save_name W io c name u | Button l \<Rightarrow> cancel_to W io (Config_actions c) l u | _ \<Rightarrow> u)"

definition replace_input :: "('p, 's) ui_world \<Rightarrow> ui_io \<Rightarrow> string \<Rightarrow> input \<Rightarrow> ('p, 's) ui \<Rightarrow> ('p, 's) ui" where
  "replace_input W io c inp u =
     (case inp of Replace_with value \<Rightarrow> press_replace W io c value u | Button l \<Rightarrow> cancel_to W io (Config_actions c) l u | _ \<Rightarrow> u)"

definition tokens_input :: "('p, 's) ui_world \<Rightarrow> RedemptionToken list \<Rightarrow> input \<Rightarrow> ('p, 's) ui \<Rightarrow> ('p, 's) ui" where
  "tokens_input W list inp u =
     (case inp of
        Row r \<Rightarrow> if 1 \<le> r \<and> r - 1 < length list then modal W (Ask_burn (list ! (r - 1))) u else u
      | _ \<Rightarrow> u)"

definition logs_input :: "input \<Rightarrow> ('p, 's) ui \<Rightarrow> ('p, 's) ui" where
  "logs_input inp u = (case inp of Refresh \<Rightarrow> spawn Load_logs u | _ \<Rightarrow> u)"

definition setup_input :: "('p, 's) ui_world \<Rightarrow> ui_io \<Rightarrow> input \<Rightarrow> ('p, 's) ui \<Rightarrow> ('p, 's) ui" where
  "setup_input W io inp u =
     (case inp of
        Set_up domain mode port email \<Rightarrow> press_set_up W domain mode port email u
      | Button l \<Rightarrow> cancel_to W io Main_screen l u
      | _ \<Rightarrow> u)"

definition callback :: "('p, 's) ui_world \<Rightarrow> ui_io \<Rightarrow> view \<Rightarrow> input \<Rightarrow> ('p, 's) ui \<Rightarrow> ('p, 's) ui" where
  "callback W io v inp u =
     (case v of
        Main_page \<Rightarrow> (case inp of Entry i \<Rightarrow> list_press W io main_menu i u | _ \<Rightarrow> u)
      | Actions_page c \<Rightarrow> (case inp of Entry i \<Rightarrow> list_press W io (config_actions c) i u | _ \<Rightarrow> u)
      | Add_page \<Rightarrow> add_input W io inp u
      | Configs_page list \<Rightarrow> configs_input W io list inp u
      | Mint_page list selected0 url0 \<Rightarrow> mint_input W io list inp u
      | Direct_page list i0 url0 \<Rightarrow> direct_input W io list i0 inp u
      | Name_page c name0 \<Rightarrow> name_input W io c inp u
      | Replace_page c \<Rightarrow> replace_input W io c inp u
      | Tokens_page list \<Rightarrow> tokens_input W list inp u
      | Server_page snap \<Rightarrow> (case inp of Button l \<Rightarrow> server_press W io snap l u | _ \<Rightarrow> u)
      | Logs_page \<Rightarrow> logs_input inp u
      | Setup_page cur i \<Rightarrow> setup_input W io inp u
      | Wait_page opts \<Rightarrow> u
      | Done_page opts healthy \<Rightarrow> (case inp of Button l \<Rightarrow> setup_done_press W io l u | _ \<Rightarrow> u)
      | Dialog d \<Rightarrow> (case inp of Label l \<Rightarrow> dialog_press W io d l u | _ \<Rightarrow> u))"

lemmas callback_defs = callback_def cancel_to_def add_input_def configs_input_def mint_input_def direct_input_def name_input_def
  replace_input_def tokens_input_def logs_input_def setup_input_def


section \<open>Background work\<close>

definition drop_nth :: "nat \<Rightarrow> 'a list \<Rightarrow> 'a list" where
  "drop_nth i xs = take i xs @ drop (Suc i) xs"

definition enqueue :: "draw \<Rightarrow> ('p, 's) ui \<Rightarrow> ('p, 's) ui" where
  "enqueue d u = u\<lparr>ui_draws := ui_draws u @ [d]\<rparr>"

text \<open>The reading of the log queues the text for its page.\<close>

definition loadLogsInto :: "ui_io \<Rightarrow> ('p, 's) ui \<Rightarrow> ('p, 's) ui" where
  "loadLogsInto io = enqueue (Logs_loaded (logs_text (uc_logs io)))"

text \<open>A goroutine does its work and queues a draw.\<close>

definition run_job :: "('p, 's) ui_world \<Rightarrow> ui_io \<Rightarrow> job \<Rightarrow> ('p, 's) ui \<Rightarrow> ('p, 's) ui" where
  "run_job W io j u =
     (case j of
        Run_verb verb \<Rightarrow>
          (case serviceAction (uw_run W) (uw_euid W) (uw_selfPath W) verb (ui_machine u) of
             (msg, m) \<Rightarrow> enqueue (Verb_done msg) (u\<lparr>ui_machine := m\<rparr>))
      | Run_update \<Rightarrow>
          (case updateBinary (uw_run W) (uw_euid W) (uw_selfPath W) ''Yes'' (ui_machine u) of
             (None, m) \<Rightarrow> u\<lparr>ui_machine := m\<rparr>
           | (Some msg, m) \<Rightarrow> enqueue (Update_done msg) (u\<lparr>ui_machine := m\<rparr>))
      | Run_setup opts \<Rightarrow>
          (case runSetupCommands (uw_run W) (uw_euid W) (uw_selfPath W) (installArgs opts) (ui_machine u) of
             (err, m) \<Rightarrow> enqueue (Setup_run opts err) (u\<lparr>ui_machine := m\<rparr>))
      | Poll_health opts \<Rightarrow> enqueue (Polled opts (fst (pollHealthThenFinish (uc_answers io)))) u
      | Load_logs \<Rightarrow> loadLogsInto io u)"

text \<open>The draws: of a service command, of the update, of the installation (which saves the settings and waits for the server).\<close>

definition verb_draw :: "('p, 's) ui_world \<Rightarrow> ui_io \<Rightarrow> string option \<Rightarrow> ('p, 's) ui \<Rightarrow> ('p, 's) ui" where
  "verb_draw W io msg u = (case msg of Some m \<Rightarrow> flashThen W m Server_screen u | None \<Rightarrow> open_screen W io Server_screen u)"

definition setup_draw :: "('p, 's) ui_world \<Rightarrow> ui_io \<Rightarrow> DeployOpts \<Rightarrow> string option \<Rightarrow> ('p, 's) ui \<Rightarrow> ('p, 's) ui" where
  "setup_draw W io opts err u =
     (case err of
        Some e \<Rightarrow> flashThen W (''Setup failed:'' @ [newline, newline] @ e) Setup_wizard u
      | None \<Rightarrow>
          let st = (ui_settings u)\<lparr>cs_Deployment := Some (deploymentFromOpts opts)\<rparr>;
              fs' = saveSettings (uw_settings_json W) (uc_settingsDisk io) (ui_fs u) (uw_stateDir W) st
          in spawn (Poll_health opts) (switchTo W (Wait_page opts) (u\<lparr>ui_settings := st, ui_fs := fs'\<rparr>)))"

text \<open>That of the logs only fills the text of the page it was started for.\<close>

definition run_draw :: "('p, 's) ui_world \<Rightarrow> ui_io \<Rightarrow> draw \<Rightarrow> ('p, 's) ui \<Rightarrow> ('p, 's) ui" where
  "run_draw W io d u =
     (case d of
        Verb_done msg \<Rightarrow> verb_draw W io msg u
      | Update_done msg \<Rightarrow> flashThen W msg Server_screen u
      | Setup_run opts err \<Rightarrow> setup_draw W io opts err u
      | Polled opts healthy \<Rightarrow> switchTo W (Done_page opts healthy) u
      | Logs_loaded t \<Rightarrow> u)"

lemmas job_defs = run_job_def loadLogsInto_def enqueue_def
lemmas draw_defs = run_draw_def verb_draw_def setup_draw_def


section \<open>Runs\<close>

datatype ui_event =
    Press key
  | Callback view input
  | Job nat
  | Draw

definition press_key :: "('p, 's) ui_world \<Rightarrow> ui_io \<Rightarrow> key \<Rightarrow> ('p, 's) ui \<Rightarrow> ('p, 's) ui" where
  "press_key W io k u =
     (case key_handler (case pg_GetFrontPage (uw_pages W) (ui_pages u) of None \<Rightarrow> '''' | Some (n, v) \<Rightarrow> n) k of
        Stop_app \<Rightarrow> u\<lparr>ui_running := False\<rparr>
      | Close_modal \<Rightarrow> u\<lparr>ui_pages := pg_RemovePage (uw_pages W) ''modal'' (ui_pages u)\<rparr>
      | Show_main \<Rightarrow> open_screen W io Main_screen u
      | Pass_on \<Rightarrow> u)"

text \<open>A stopped application handles nothing more. What the goroutines still do then is left out.\<close>

fun ui_step :: "('p, 's) ui_world \<Rightarrow> ui_io \<Rightarrow> ui_event \<Rightarrow> ('p, 's) ui \<Rightarrow> ('p, 's) ui" where
  "ui_step W io (Press k) u = (if ui_running u then press_key W io k u else u)"
| "ui_step W io (Callback v inp) u = (if ui_running u then callback W io v inp u else u)"
| "ui_step W io (Job i) u =
     (if ui_running u \<and> i < length (ui_jobs u)
      then run_job W io (ui_jobs u ! i) (u\<lparr>ui_jobs := drop_nth i (ui_jobs u)\<rparr>) else u)"
| "ui_step W io Draw u =
     (case ui_draws u of
        [] \<Rightarrow> u
      | d # ds \<Rightarrow> if ui_running u then run_draw W io d (u\<lparr>ui_draws := ds\<rparr>) else u)"

fun ui_run :: "('p, 's) ui_world \<Rightarrow> (ui_io \<times> ui_event) list \<Rightarrow> ('p, 's) ui \<Rightarrow> ('p, 's) ui" where
  "ui_run W [] u = u"
| "ui_run W ((io, e) # es) u = ui_run W es (ui_step W io e u)"

definition welcome_text :: "string \<Rightarrow> string \<Rightarrow> string" where
  "welcome_text pubkey dir = Join [newline] [''Your creator identity was created.'', '''', ''Creator pubkey:'', pubkey, '''',
     ''Back up the state directory, including:'', in_dir dir ''creator-key.pem'']"

text \<open>The console when the application starts to run: the main menu, then the page the state of the setup leads to, and the welcome.\<close>

definition ui_start ::
    "('p, 's) ui_world \<Rightarrow> ui_io \<Rightarrow> console \<Rightarrow> screen \<Rightarrow> bool \<Rightarrow> string \<Rightarrow> fsys \<Rightarrow> 's \<Rightarrow> ('p, 's) ui" where
  "ui_start W io c first welcome pubkey fs m =
     (let u0 = \<lparr>ui_state = co_state c, ui_settings = co_settings c, ui_fs = fs, ui_machine = m, ui_archive = [],
            ui_pages = pg_New (uw_pages W), ui_jobs = [], ui_draws = [], ui_running = True\<rparr>;
          u1 = open_screen W io Main_screen u0;
          u2 = (if first = Main_screen then u1 else open_screen W io first u1)
      in if welcome then flash W (welcome_text pubkey (co_stateDir c)) u2 else u2)"

text \<open>
  The setup in three events, its button, its goroutine and the draw, does to settings, files and machine what it does in one
  step, if nothing comes between.
\<close>

lemma setup_in_steps:
  assumes "setup_guard W (TrimSpace domain) mode port (TrimSpace email) = Ok opts" "ui_jobs u = []" "ui_draws u = []" "ui_running u"
    and "setup_button (uw_settings_json W) (uc_settingsDisk io) (uw_run W) (uw_euid W) (uw_selfPath W) (uw_canManage W) (uw_stateDir W)
      (ui_settings u) (ui_fs u) (ui_machine u) domain mode port email = (res, st, fs', m')"
  shows "let u' = ui_run W [(io, Callback (Setup_page cur i) (Set_up domain mode port email)), (io, Job 0), (io, Draw)] u in
    ui_settings u' = st \<and> ui_fs u' = fs' \<and> ui_machine u' = m' \<and> ui_state u' = ui_state u"
proof -
  obtain err m where r: "runSetupCommands (uw_run W) (uw_euid W) (uw_selfPath W) (installArgs opts) (ui_machine u) = (err, m)" by fastforce
  have "(res, st, fs', m') = (case err of
      Some e \<Rightarrow> (Setup_failed e, ui_settings u, ui_fs u, m)
    | None \<Rightarrow> let settings' = (ui_settings u)\<lparr>cs_Deployment := Some (deploymentFromOpts opts)\<rparr>
        in (Setup_done opts, settings', saveSettings (uw_settings_json W) (uc_settingsDisk io) (ui_fs u) (uw_stateDir W) settings', m))"
    using assms(1,5) r by (auto simp: setup_guard_def setup_button_def applySetup_def Let_def split: if_splits option.splits)
  then show ?thesis using assms(1-4) r
    by (auto simp: callback_defs press_set_up_def spawn_def job_defs draw_defs drop_nth_def flashThen_def modal_def switchTo_def Let_def
        split: option.splits)
qed

section \<open>What is on the screen\<close>

text \<open>One page, perhaps with a dialog on it.\<close>

definition shape :: "('p \<Rightarrow> (string \<times> view) list) \<Rightarrow> ('p, 's) ui \<Rightarrow> bool" where
  "shape vis u = (\<exists>v. page_name v \<noteq> ''modal'' \<and>
     (vis (ui_pages u) = [(page_name v, v)] \<or> (\<exists>d. vis (ui_pages u) = [(page_name v, v), (''modal'', Dialog d)])))"

lemma shape_pages: "ui_pages u' = ui_pages u \<Longrightarrow> shape vis u' = shape vis u"
  by (simp add: shape_def)

lemma shape_updates [simp]:
  "shape vis (u\<lparr>ui_state := a\<rparr>) = shape vis u" "shape vis (u\<lparr>ui_settings := b\<rparr>) = shape vis u" "shape vis (u\<lparr>ui_fs := c\<rparr>) = shape vis u"
  "shape vis (u\<lparr>ui_machine := d\<rparr>) = shape vis u" "shape vis (u\<lparr>ui_archive := e\<rparr>) = shape vis u" "shape vis (u\<lparr>ui_jobs := f\<rparr>) = shape vis u"
  "shape vis (u\<lparr>ui_draws := g\<rparr>) = shape vis u" "shape vis (u\<lparr>ui_running := h\<rparr>) = shape vis u" "shape vis (spawn j u) = shape vis u"
  by (simp_all add: shape_def spawn_def)

named_theorems shapes

lemma shape_switch [shapes]:
  "pages_documented (uw_pages W) vis \<Longrightarrow> page_name v \<noteq> ''modal'' \<Longrightarrow> shape vis (switchTo W v u)"
  by (simp add: shape_def switchTo_def pages_documented_def)

lemma shape_modal [shapes]: "pages_documented (uw_pages W) vis \<Longrightarrow> shape vis u \<Longrightarrow> shape vis (modal W d u)"
  by (fastforce simp: shape_def modal_def pages_documented_def)

lemma shape_flash [shapes]:
  "pages_documented (uw_pages W) vis \<Longrightarrow> shape vis u \<Longrightarrow> shape vis (flash W msg u)"
  "pages_documented (uw_pages W) vis \<Longrightarrow> shape vis u \<Longrightarrow> shape vis (flashThen W msg sc u)"
  by (simp_all add: flash_def flashThen_def shape_modal)

lemma visible_after_removal:
  assumes "pages_documented (uw_pages W) vis" "shape vis u"
  obtains v where "page_name v \<noteq> ''modal''" "vis (pg_RemovePage (uw_pages W) ''modal'' (ui_pages u)) = [(page_name v, v)]"
proof -
  obtain v where n: "page_name v \<noteq> ''modal''"
    "vis (ui_pages u) = [(page_name v, v)] \<or> (\<exists>d. vis (ui_pages u) = [(page_name v, v), (''modal'', Dialog d)])"
    using assms(2) by (auto simp: shape_def)
  then have f: "filter (\<lambda>x. fst x \<noteq> ''modal'') (vis (ui_pages u)) = [(page_name v, v)]" by auto
  then have "vis (pg_RemovePage (uw_pages W) ''modal'' (ui_pages u)) = [(page_name v, v)]"
    using assms(1) unfolding pages_documented_def by (metis list.distinct(1))
  with n(1) show ?thesis by (rule that)
qed

lemma shape_remove [shapes]:
  assumes "pages_documented (uw_pages W) vis" "shape vis u"
  shows "shape vis (u\<lparr>ui_pages := pg_RemovePage (uw_pages W) ''modal'' (ui_pages u)\<rparr>)"
  by (rule visible_after_removal [OF assms]) (auto simp: shape_def)

lemma shape_open [shapes]:
  assumes "pages_documented (uw_pages W) vis" "shape vis u"
  shows "shape vis (open_screen W io sc u)"
  using assms
  by (cases sc) (auto simp: open_screen_def showConfigs_def showMint_def showDirectMint_def open_name_form_def open_tokens_def
      showServer_def showLogs_def showSetupWizard_def Let_def split: sum.split intro!: shapes)

lemma shape_buttons [shapes]:
  assumes "pages_documented (uw_pages W) vis" "shape vis u"
  shows "shape vis (press_register W io text u)" "shape vis (press_save_name W io i name u)" "shape vis (press_replace W io i text u)"
    "shape vis (press_mint W io configs selected url n x label u)" "shape vis (press_make_file W io j url key u)"
    "shape vis (press_set_up W domain mode port email u)" "shape vis (server_press W io snap l u)"
    "shape vis (setup_done_press W io l u)" "shape vis (list_press W io items k u)"
  using assms
  by (simp_all add: press_register_def press_save_name_def press_replace_def press_mint_def press_make_file_def press_set_up_def
      server_press_def setup_done_press_def list_press_def shapes split: sum.split prod.split option.split)

lemma shape_dialog [shapes]:
  fixes W :: "('p, 's) ui_world"
  assumes "pages_documented (uw_pages W) vis" "shape vis u"
  shows "shape vis (dialog_action W io d u)" "shape vis (dialog_press W io d l u)"
proof -
  have A: "shape vis (dialog_action W io d u)" if "shape vis u" for d and u :: "('p, 's) ui"
    using assms(1) that by (simp add: dialog_action_def shapes split: dialog.split option.split prod.split)
  show "shape vis (dialog_action W io d u)" using A assms(2) .
  show "shape vis (dialog_press W io d l u)"
    using A shape_remove [OF assms] by (simp add: dialog_press_def confirm_def Let_def split: dialog.split)
qed

lemma shape_callback [shapes]:
  assumes "pages_documented (uw_pages W) vis" "shape vis u"
  shows "shape vis (callback W io v inp u)"
  using assms by (cases v; cases inp) (simp_all add: callback_defs shapes split: option.split)

lemma shape_step:
  assumes "pages_documented (uw_pages W) vis" "shape vis u"
  shows "shape vis (ui_step W io e u)"
proof (cases e)
  case (Press k)
  then show ?thesis using assms
    by (simp add: press_key_def shapes split: key_action.split)
next
  case (Job i)
  then show ?thesis using assms
    by (simp add: job_defs split: job.split prod.split option.split)
next
  case Draw
  then show ?thesis using assms
    by (auto simp: draw_defs Let_def shapes split: list.split draw.split option.split)
qed (use assms in \<open>simp add: shapes\<close>)

lemma shape_run: "pages_documented (uw_pages W) vis \<Longrightarrow> shape vis u \<Longrightarrow> shape vis (ui_run W es u)"
  by (induction W es u rule: ui_run.induct) (simp_all add: shape_step)

lemma shape_start:
  fixes W :: "('p, 's) ui_world"
  assumes doc: "pages_documented (uw_pages W) vis"
  shows "shape vis (ui_start W io c first welcome pubkey fs m)"
proof -
  have "shape vis (open_screen W io Main_screen u)" for u :: "('p, 's) ui"
    using shape_switch [OF doc, of Main_page] by (simp add: open_screen_def)
  then show ?thesis by (simp add: ui_start_def Let_def shapes doc)
qed

section \<open>What changes nothing\<close>

text \<open>All that lasts beyond the screen.\<close>

definition ui_data :: "('p, 's) ui \<Rightarrow> State \<times> consoleSettings \<times> fsys \<times> 's \<times> archive" where
  "ui_data u = (ui_state u, ui_settings u, ui_fs u, ui_machine u, ui_archive u)"

text \<open>The inputs that are meant to change something: the buttons that end a form, the service buttons, and Yes.\<close>

definition commits :: "ui_event \<Rightarrow> bool" where
  "commits e =
     (case e of
        Callback v inp \<Rightarrow>
          (case inp of
             Entry i \<Rightarrow> False
           | Row r \<Rightarrow> False
           | Refresh \<Rightarrow> False
           | Button l \<Rightarrow> l \<in> {''Restart'', ''Stop'', ''Start''}
           | Label l \<Rightarrow> l = ''Yes''
           | _ \<Rightarrow> True)
      | _ \<Rightarrow> False)"

text \<open>Nothing is under way but the reading of the log.\<close>

definition only_reading :: "('p, 's) ui \<Rightarrow> bool" where
  "only_reading u = (set (ui_jobs u) \<subseteq> {Load_logs} \<and> (\<forall>d \<in> set (ui_draws u). \<exists>t. d = Logs_loaded t))"

text \<open>Lasting data as they were, and nothing new under way.\<close>

definition harmless :: "('p, 's) ui \<Rightarrow> ('p, 's) ui \<Rightarrow> bool" where
  "harmless u u' = (ui_data u' = ui_data u \<and> (only_reading u \<longrightarrow> only_reading u'))"

lemma harmless_refl [simp]: "harmless u u"
  by (simp add: harmless_def)

lemma harmless_trans: "harmless u v \<Longrightarrow> harmless v w \<Longrightarrow> harmless u w"
  by (simp add: harmless_def)

lemma harmless_screen [simp]:
  "harmless u (u\<lparr>ui_pages := p\<rparr>)" "harmless u (u\<lparr>ui_running := b\<rparr>)" "harmless u (switchTo W v u)" "harmless u (modal W d u)"
  "harmless u (flash W msg u)" "harmless u (flashThen W msg sc u)" "harmless u (spawn Load_logs u)"
  by (auto simp: harmless_def ui_data_def only_reading_def switchTo_def modal_def flash_def flashThen_def spawn_def)

lemma harmless_open [simp]: "harmless u (open_screen W io sc u)"
proof (cases sc)
  case Logs
  then show ?thesis
    using harmless_trans [OF harmless_screen(3) harmless_screen(7)] by (simp add: open_screen_def showLogs_def)
qed (simp_all add: open_screen_def showConfigs_def showMint_def showDirectMint_def open_name_form_def open_tokens_def
      showServer_def showSetupWizard_def Let_def split: sum.split)

lemma harmless_dialog: "l \<noteq> ''Yes'' \<Longrightarrow> harmless u (dialog_press W io d l u)"
  using harmless_trans [OF harmless_screen(1) harmless_open, of u]
  by (auto simp: dialog_press_def dialog_action_def confirm_def Let_def split: dialog.split option.split)

lemma harmless_callback: "\<not> commits (Callback v inp) \<Longrightarrow> harmless u (callback W io v inp u)"
  by (cases v; cases inp) (auto simp: commits_def callback_defs list_press_def server_press_def setup_done_press_def harmless_dialog
      split: option.split)

lemma set_drop_nth: "set (drop_nth i xs) \<subseteq> set xs"
  by (auto simp: drop_nth_def dest: in_set_takeD in_set_dropD)

lemma harmless_step:
  assumes "\<not> commits e" "only_reading u"
  shows "ui_data (ui_step W io e u) = ui_data u \<and> only_reading (ui_step W io e u)"
proof (cases e)
  case (Press k)
  have "harmless u (press_key W io k u)" by (simp add: press_key_def split: key_action.split)
  then show ?thesis using Press assms(2) by (simp add: harmless_def)
next
  case (Callback v inp)
  then show ?thesis using harmless_callback assms by (fastforce simp: harmless_def)
next
  case (Job i)
  have "i < length (ui_jobs u) \<Longrightarrow> ui_jobs u ! i = Load_logs" using assms(2) nth_mem by (fastforce simp: only_reading_def)
  then show ?thesis using Job assms(2) set_drop_nth [of i "ui_jobs u"]
    by (auto simp: job_defs ui_data_def only_reading_def)
next
  case Draw
  show ?thesis
  proof (cases "ui_draws u")
    case (Cons d ds)
    then obtain t where "d = Logs_loaded t" using assms(2) by (auto simp: only_reading_def)
    then show ?thesis using Draw Cons assms(2) by (auto simp: draw_defs ui_data_def only_reading_def)
  qed (use Draw assms(2) in simp)
qed

text \<open>Escape takes a dialog away, and any page but the main menu.\<close>

lemma escape_modal:
  assumes doc: "pages_documented (uw_pages W) vis" and "vis (ui_pages u) = [x, (''modal'', d)]"
  shows "press_key W io KeyEscape u = u\<lparr>ui_pages := pg_RemovePage (uw_pages W) ''modal'' (ui_pages u)\<rparr>"
  using assms by (simp add: press_key_def key_handler_def pages_documented_def)

lemma escape_page:
  assumes doc: "pages_documented (uw_pages W) vis" and "vis (ui_pages u) = [(page_name v, v)]" "page_name v \<noteq> ''modal''"
  shows "vis (ui_pages (press_key W io KeyEscape u)) = [(''main'', Main_page)]"
proof -
  have front: "pg_GetFrontPage (uw_pages W) (ui_pages u) = Some (page_name v, v)" using doc assms(2) by (simp add: pages_documented_def)
  have named: "page_name v \<noteq> '''' \<and> (page_name v = ''main'' \<longrightarrow> v = Main_page)" by (cases v) simp_all
  show ?thesis
  proof (cases "v = Main_page")
    case True
    then show ?thesis using front assms(2) by (simp add: press_key_def key_handler_def)
  next
    case False
    then show ?thesis using front named assms(3) doc
      by (simp add: press_key_def key_handler_def open_screen_def switchTo_def pages_documented_def)
  qed
qed

lemma escape_twice:
  assumes doc: "pages_documented (uw_pages W) vis" and "shape vis u"
  shows "vis (ui_pages (press_key W io' KeyEscape (press_key W io KeyEscape u))) = [(''main'', Main_page)]"
proof -
  obtain v where v: "page_name v \<noteq> ''modal''"
    "vis (ui_pages u) = [(page_name v, v)] \<or> (\<exists>d. vis (ui_pages u) = [(page_name v, v), (''modal'', Dialog d)])"
    using assms(2) by (auto simp: shape_def)
  from v(2) show ?thesis
  proof
    assume one: "vis (ui_pages u) = [(page_name v, v)]"
    show ?thesis
      by (rule escape_page [OF doc, where v = Main_page]) (simp_all add: escape_page [OF doc one v(1)])
  next
    assume "\<exists>d. vis (ui_pages u) = [(page_name v, v), (''modal'', Dialog d)]"
    then obtain d where two: "vis (ui_pages u) = [(page_name v, v), (''modal'', Dialog d)]" by blast
    obtain w where w: "page_name w \<noteq> ''modal''" "vis (pg_RemovePage (uw_pages W) ''modal'' (ui_pages u)) = [(page_name w, w)]"
      by (rule visible_after_removal [OF assms])
    show ?thesis unfolding escape_modal [OF doc two] by (rule escape_page [OF doc _ w(1)]) (simp add: w(2))
  qed
qed

lemma escape_harmless: "harmless u (press_key W io KeyEscape u)"
  by (simp add: press_key_def split: key_action.split)

lemma escape_running: "ui_running (press_key W io KeyEscape u) = ui_running u"
  by (simp add: press_key_def key_handler_def open_screen_def switchTo_def)

lemma ui_run_append: "ui_run W (xs @ ys) u = ui_run W ys (ui_run W xs u)"
  by (induction W xs u rule: ui_run.induct) simp_all

section \<open>A sample console\<close>

text \<open>Pages as a list of names, contents and visibility.\<close>

type_synonym page_list = "(string \<times> view \<times> bool) list"

definition shown :: "page_list \<Rightarrow> (string \<times> view) list" where
  "shown ps = map (\<lambda>(n, v, b). (n, v)) (filter (\<lambda>(n, v, b). b) ps)"

definition page_lists :: "page_list page_ops" where
  "page_lists = \<lparr>pg_New = [],
     pg_AddPage = (\<lambda>n v ps. filter (\<lambda>x. fst x \<noteq> n) ps @ [(n, v, True)]),
     pg_AddAndSwitchToPage = (\<lambda>n v ps. map (\<lambda>(m, w, b). (m, w, False)) (filter (\<lambda>x. fst x \<noteq> n) ps) @ [(n, v, True)]),
     pg_RemovePage = (\<lambda>n ps. let qs = filter (\<lambda>x. fst x \<noteq> n) ps in
       if qs = [] \<or> list_ex (\<lambda>(m, w, b). b) qs then qs else butlast qs @ [(fst (last qs), fst (snd (last qs)), True)]),
     pg_GetFrontPage = (\<lambda>ps. if shown ps = [] then None else Some (last (shown ps)))\<rparr>"

lemma page_lists_documented: "pages_documented page_lists shown"
proof -
  have f: "shown (filter (\<lambda>x. fst x \<noteq> n) ps) = filter (\<lambda>x. fst x \<noteq> n) (shown ps)" for n ps
    by (induction ps) (auto simp: shown_def)
  have "shown ps \<noteq> [] \<Longrightarrow> list_ex (\<lambda>(m, w, b). b) ps" for ps by (auto simp: shown_def list_ex_iff filter_empty_conv)
  moreover have "shown (map (\<lambda>(m, w, b). (m, w, False)) ps) = []" for ps :: page_list by (auto simp: shown_def filter_empty_conv)
  moreover have "shown (ps @ qs) = shown ps @ shown qs" for ps qs by (simp add: shown_def)
  moreover have "shown [(n, v, True)] = [(n, v)]" for n v by (simp add: shown_def)
  ultimately show ?thesis using f by (simp add: pages_documented_def page_lists_def Let_def)
qed

text \<open>A machine that counts the commands it is given.\<close>

definition sample_ui_world :: "(page_list, nat) ui_world" where
  "sample_ui_world = \<lparr>uw_env = sample_env, uw_json = sample_json [], uw_console_json = sample_console_json,
     uw_settings_json = \<lparr>sj_marshal = (\<lambda>st. Some [1]), sj_unmarshal = (\<lambda>d. zero_settings)\<rparr>, uw_duration = (\<lambda>d. None), uw_crypto = sample_crypto, uw_texts = sample_texts undefined,
     uw_run = (\<lambda>name args n. (None, Suc n)), uw_euid = 0, uw_selfPath = ''/bin/s'', uw_canManage = True, uw_stateDir = ''/s'',
     uw_version = ''v'', uw_backup = sample_os, uw_pages = page_lists\<rparr>"

definition sample_ui_io :: ui_io where
  "sample_ui_io = \<lparr>uc_disk = quiet_disk True (good_io 3), uc_settingsDisk = quiet_disk True (good_io 3), uc_ord = [], uc_rnd = (True, []),
     uc_now1 = 5, uc_now2 = 5, uc_write = sample_plain_write, uc_mint = sample_random, uc_unit = None, uc_status = Err '''',
     uc_probes = \<lparr>pr_Healthz = (\<lambda>url. (False, 0)), pr_Reachable = (\<lambda>a. False), pr_Expiry = (\<lambda>d n. None)\<rparr>,
     uc_tree = None, uc_creates = False, uc_close = None, uc_logs = Ok [], uc_answers = (\<lambda>i. False)\<rparr>"

definition sample_console :: console where
  "sample_console = \<lparr>co_stateDir = ''/s'', co_state = sample_state Map.empty, co_settings = zero_settings\<rparr>"

definition sample_ui :: "(page_list, nat) ui" where
  "sample_ui = ui_start sample_ui_world sample_ui_io sample_console Main_screen True ''pk'' sample_fs 0"

text \<open>The welcome is closed, the backup is asked for and declined, a service page is opened.\<close>

definition sample_browsing :: "(ui_io \<times> ui_event) list" where
  "sample_browsing = map (Pair sample_ui_io) [Press KeyEscape, Callback Main_page (Entry 6), Callback (Dialog Ask_backup) (Label ''No''),
     Callback Main_page (Entry 1), Press KeyEscape, Callback Main_page (Entry 5), Press KeyF3]"

section \<open>Properties\<close>

text \<open>C36. There is always a way back. Whatever has happened since the console was started, as long as it runs, two escapes show the main
  menu and nothing else, and neither the files, the tokens, the settings, the machine nor the backup are touched by them.\<close>

theorem escape_reaches_main:
  assumes "pages_documented (uw_pages W) vis" "u = ui_run W es (ui_start W io c first welcome pubkey fs m)" "ui_running u"
  shows "let u' = ui_run W [(io1, Press KeyEscape), (io2, Press KeyEscape)] u in
    vis (ui_pages u') = [(''main'', Main_page)] \<and> pg_GetFrontPage (uw_pages W) (ui_pages u') = Some (''main'', Main_page) \<and>
    ui_data u' = ui_data u \<and> ui_running u'"
proof -
  have "shape vis u" unfolding assms(2) by (rule shape_run [OF assms(1) shape_start [OF assms(1)]])
  note main = escape_twice [OF assms(1) this, of io2 io1]
  have "ui_data (press_key W io2 KeyEscape (press_key W io1 KeyEscape u)) = ui_data u"
    using harmless_trans [OF escape_harmless escape_harmless] unfolding harmless_def by blast
  then show ?thesis using assms(1,3) main by (simp add: escape_running Let_def pages_documented_def)
qed

theorem escape_reaches_main_witness:
  "\<exists>u. u = ui_run sample_ui_world [(sample_ui_io, Press KeyEscape), (sample_ui_io, Callback Main_page (Entry 6))] sample_ui \<and>
     pg_GetFrontPage page_lists (ui_pages u) = Some (''modal'', Dialog Ask_backup) \<and>
     pg_GetFrontPage page_lists (ui_pages (ui_run sample_ui_world [(sample_ui_io, Press KeyEscape), (sample_ui_io, Press KeyEscape)] u))
       = Some (''main'', Main_page)"
proof -
  let ?es = "[(sample_ui_io, Press KeyEscape), (sample_ui_io, Callback Main_page (Entry 6))]"
  have pages: "uw_pages sample_ui_world = page_lists" by (simp add: sample_ui_world_def)
  have run: "ui_running (ui_run sample_ui_world ?es sample_ui)"
    "pg_GetFrontPage page_lists (ui_pages (ui_run sample_ui_world ?es sample_ui)) = Some (''modal'', Dialog Ask_backup)"
    by code_simp+
  show ?thesis
    using escape_reaches_main [OF _ refl run(1) [unfolded sample_ui_def], unfolded pages, OF page_lists_documented] run(2)
    by (auto simp: Let_def sample_ui_def)
qed

text \<open>C37. Looking around changes nothing. From the start of the console on, as long as no form is sent, no service button is pressed
  and no question is answered with Yes, whatever else is pressed, selected or cancelled, and however the background work interleaves with it,
  the files, the tokens in memory, the settings, the machine and the backup stay as they were.\<close>

theorem browsing_changes_nothing:
  fixes W :: "('p, 's) ui_world"
  assumes "\<forall>(io, e) \<in> set es. \<not> commits e"
  shows "ui_data (ui_run W es (ui_start W io c first welcome pubkey fs m)) = (co_state c, co_settings c, fs, m, [])"
proof -
  have run: "ui_data (ui_run W es u) = ui_data u" if "only_reading u" "\<forall>(io, e) \<in> set es. \<not> commits e" for u
    using that
  proof (induction W es u rule: ui_run.induct)
    case (2 W io e es u)
    then show ?case using harmless_step [of e u W io] by simp
  qed simp
  let ?u = "\<lparr>ui_state = co_state c, ui_settings = co_settings c, ui_fs = fs, ui_machine = m, ui_archive = [],
            ui_pages = pg_New (uw_pages W), ui_jobs = [], ui_draws = [], ui_running = True\<rparr>"
  have two: "harmless u (if b then open_screen W io sc u else open_screen W io sc' (open_screen W io sc u))" for b sc sc' and u :: "('p, 's) ui"
    by (cases b) (simp, simp, rule harmless_trans [OF harmless_open harmless_open])
  have "harmless u (if b' then flash W msg (if b then open_screen W io sc u else open_screen W io sc' (open_screen W io sc u))
      else (if b then open_screen W io sc u else open_screen W io sc' (open_screen W io sc u)))" for b b' sc sc' msg and u :: "('p, 's) ui"
    by (cases b') (simp only: if_True, rule harmless_trans [OF two harmless_screen(5)], simp only: if_False two)
  then have "harmless ?u (ui_start W io c first welcome pubkey fs m)" unfolding ui_start_def Let_def .
  moreover have "only_reading ?u" by (simp add: only_reading_def)
  ultimately show ?thesis using run [OF _ assms] by (simp add: harmless_def) (simp add: ui_data_def)
qed

theorem browsing_changes_nothing_witness:
  "ui_data (ui_run sample_ui_world sample_browsing sample_ui) = (sample_state Map.empty, zero_settings, sample_fs, 0, []) \<and>
     \<not> ui_running (ui_run sample_ui_world sample_browsing sample_ui)"
proof -
  have "\<forall>(io, e) \<in> set sample_browsing. \<not> commits e" by (simp add: sample_browsing_def commits_def)
  from browsing_changes_nothing [OF this, of sample_ui_world sample_ui_io sample_console Main_screen True "''pk''" sample_fs 0]
  have "ui_data (ui_run sample_ui_world sample_browsing sample_ui) = (sample_state Map.empty, zero_settings, sample_fs, 0, [])"
    by (simp add: sample_ui_def sample_console_def)
  moreover have "\<not> ui_running (ui_run sample_ui_world sample_browsing sample_ui)" by code_simp
  ultimately show ?thesis by blast
qed

end
