(* ===== verification/Two_Processes.thy ===== *)
theory Two_Processes
  imports Tokens
begin

text \<open>
  The server and the dashboard over one file of redemption tokens (\<^verbatim>\<open>state.go\<close>, used by \<^verbatim>\<open>redeem.go\<close> in
  one process and by \<^verbatim>\<open>menu.go\<close> in the other). The server charges tokens and reloads the file
  when its modification time has moved; the dashboard loads it when it starts, never
  again, and every link it mints or burns writes back all it has. Operations of the two interleave
  in any order, each as a whole, and the system calls of each may fail.
\<close>

section \<open>Steps of the two processes\<close>

text \<open>The server, the dashboard, the files.\<close>

type_synonym processes = "State \<times> State \<times> fsys"

datatype process_event =
    Server_reload bool io
  | Server_sweep time duration
  | Dash_mint io "string list" RedemptionToken
  | Dash_burn io "string list" string

definition server_charge :: "env \<Rightarrow> json \<Rightarrow> redeem_action \<Rightarrow> processes \<Rightarrow> string \<Rightarrow> bool \<times> processes" where
  "server_charge E J a w token =
     (case w of (srv, dash, fs) \<Rightarrow>
        case charge_step E J a (srv, fs) token of (ok, srv', fs') \<Rightarrow> (ok, srv', dash, fs'))"

fun process_step :: "json \<Rightarrow> process_event \<Rightarrow> processes \<Rightarrow> processes" where
  "process_step J (Server_reload rd io) (srv, dash, fs) =
     (case background_step J (Bg_Reload rd io) (srv, fs) of (srv', fs') \<Rightarrow> (srv', dash, fs'))"
| "process_step J (Server_sweep now window) (srv, dash, fs) =
     (case background_step J (Bg_Sweep now window) (srv, fs) of (srv', fs') \<Rightarrow> (srv', dash, fs'))"
| "process_step J (Dash_mint io ord entry) (srv, dash, fs) =
     (case AddRedemptionToken J (quiet_disk True io) ord dash fs entry of (_, dash', fs') \<Rightarrow> (srv, dash', fs'))"
| "process_step J (Dash_burn io ord token) (srv, dash, fs) =
     (case RemoveRedemptionToken J (quiet_disk True io) ord dash fs token of (_, dash', fs') \<Rightarrow> (srv, dash', fs'))"

fun of_server :: "process_event \<Rightarrow> bool" where
  "of_server (Server_reload rd io) = True"
| "of_server (Server_sweep now window) = True"
| "of_server (Dash_mint io ord entry) = False"
| "of_server (Dash_burn io ord token) = False"

text \<open>What the server has left of a token, and whether the file holds something it has not seen.\<close>

definition server_remaining :: "processes \<Rightarrow> string \<Rightarrow> int" where
  "server_remaining w token = (case w of (srv, dash, fs) \<Rightarrow> remaining (srv, fs) token)"

definition unseen :: "processes \<Rightarrow> bool" where
  "unseen w = (case w of (srv, dash, fs) \<Rightarrow> \<not> in_sync (srv, fs))"


section \<open>Counts stay under their caps\<close>

definition capped :: "(string \<Rightarrow> int) \<Rightarrow> (string \<rightharpoonup> RedemptionToken) \<Rightarrow> bool" where
  "capped cap m = (\<forall>k t. m k = Some t \<longrightarrow> rt_RemainingRedemptions t \<le> cap k)"

definition file_capped :: "json \<Rightarrow> (string \<Rightarrow> int) \<Rightarrow> fsys \<Rightarrow> string \<Rightarrow> bool" where
  "file_capped J cap fs path = (\<forall>dk m. loadRedemptionTokensFile J dk fs path = Ok m \<longrightarrow> capped cap m)"

text \<open>JSON does not raise a count: what is read back from a text respects caps that what was written respects.\<close>

definition counts_kept :: "json \<Rightarrow> (string \<Rightarrow> int) \<Rightarrow> bool" where
  "counts_kept J cap = (\<forall>ts d us. js_marshal_tokens J ts = Some d \<and> js_unmarshal_tokens J d = Some us \<and>
     (\<forall>t \<in> set ts. rt_RemainingRedemptions t \<le> cap (rt_Token t)) \<longrightarrow>
     (\<forall>u \<in> set us. rt_RemainingRedemptions u \<le> cap (rt_Token u)))"

definition processes_ok :: "json \<Rightarrow> (string \<Rightarrow> int) \<Rightarrow> processes \<Rightarrow> bool" where
  "processes_ok J cap w =
     (case w of (srv, dash, fs) \<Rightarrow>
        st_redemptionTokensPath srv = st_redemptionTokensPath dash \<and> counts_kept J cap \<and>
        tokens_wf (st_redemptionTokens srv) \<and> tokens_wf (st_redemptionTokens dash) \<and>
        capped cap (st_redemptionTokens srv) \<and> capped cap (st_redemptionTokens dash) \<and>
        file_capped J cap fs (st_redemptionTokensPath srv))"

fun fits_cap :: "(string \<Rightarrow> int) \<Rightarrow> process_event \<Rightarrow> bool" where
  "fits_cap cap (Dash_mint io ord entry) = (rt_RemainingRedemptions entry \<le> cap (rt_Token entry))"
| "fits_cap cap (Dash_burn io ord token) = True"
| "fits_cap cap (Server_reload rd io) = True"
| "fits_cap cap (Server_sweep now window) = True"

lemma capped_empty [simp]: "capped cap Map.empty"
  by (simp add: capped_def)

lemma capped_update: "capped cap m \<Longrightarrow> rt_RemainingRedemptions t \<le> cap k \<Longrightarrow> capped cap (m(k \<mapsto> t))"
  by (simp add: capped_def)

lemma capped_remove: "capped cap m \<Longrightarrow> capped cap (m(k := None))"
  by (simp add: capped_def)

lemma capped_list:
  assumes "tokens_wf m" "capped cap m" "t \<in> set (sortRedemptionTokens (range_values ord m))"
  shows "rt_RemainingRedemptions t \<le> cap (rt_Token t)"
  using assms by (auto simp: range_values_def capped_def tokens_wf_def map_filter_def)

lemma load_capped:
  assumes "load_tokens us = Ok m" "\<forall>u \<in> set us. rt_RemainingRedemptions u \<le> cap (rt_Token u)"
  shows "capped cap m"
  using assms token_file.loaded_entry [of us m] by (auto simp: capped_def load_tokens_def)

lemma file_capped_same: "files fs' path = files fs path \<Longrightarrow> file_capped J cap fs' path = file_capped J cap fs path"
  by (simp add: file_capped_def loadRedemptionTokensFile_def os_ReadFile_def)

lemma persist_capped:
  assumes "persistRedemptionTokens J io fs ord path m = (e, fs')"
    and "tokens_wf m" "capped cap m" "counts_kept J cap" "file_capped J cap fs path"
  shows "file_capped J cap fs' path"
  using assms(1)
proof (cases rule: persist_cases)
  case failed
  then show ?thesis using assms(5) file_capped_same by blast
next
  case (ok d)
  obtain n where n: "files fs' path = Some n" "content n = d"
    using atomicWriteFile_target [OF ok(3)] written_content by force
  have "capped cap m'" if l: "loadRedemptionTokensFile J dk fs' path = Ok m'" for dk m'
  proof -
    obtain us where us: "js_unmarshal_tokens J d = Some us" "load_tokens us = Ok m'"
      using l n by (auto simp: loadRedemptionTokensFile_def os_ReadFile_def split: if_splits option.splits)
    have "\<forall>t \<in> set (sortRedemptionTokens (range_values ord m)). rt_RemainingRedemptions t \<le> cap (rt_Token t)"
      using capped_list [OF assms(2,3)] by blast
    then have "\<forall>u \<in> set us. rt_RemainingRedemptions u \<le> cap (rt_Token u)"
      using assms(4) ok(2) us(1) unfolding counts_kept_def by blast
    then show ?thesis by (rule load_capped [OF us(2)])
  qed
  then show ?thesis by (simp add: file_capped_def)
qed

lemma persist_and_stat_capped:
  assumes "persist_and_stat J (quiet_disk rd io) ord s fs = (e, s', fs')" "st_redemptionTokensPath s = path"
    and "tokens_wf (st_redemptionTokens s)" "capped cap (st_redemptionTokens s)" "counts_kept J cap" "file_capped J cap fs path"
  shows "file_capped J cap fs' path"
proof -
  obtain e0 fs0 where p: "persistRedemptionTokens J io fs ord path (st_redemptionTokens s) = (e0, fs0)" by fastforce
  have "fs' = fs \<or> fs' = fs0"
    using assms(1,2) p by (auto simp: persist_and_stat_def quiet_disk_def Let_def split: if_splits option.splits stat_result.splits)
  then show ?thesis using persist_capped [OF p assms(3-6)] assms(6) by blast
qed

lemma persist_and_stat_path:
  "persist_and_stat J dk ord s fs = (e, s', fs') \<Longrightarrow>
   st_redemptionTokensPath s' = st_redemptionTokensPath s \<and> st_redemptionTokens s' = st_redemptionTokens s"
  using persist_and_stat_tokens [of J dk ord s fs] by simp

text \<open>An operation that changes the tokens in memory and then writes them, as all of them do.\<close>

lemma writes_capped:
  assumes "persist_and_stat J (quiet_disk True io) ord (s\<lparr>st_redemptionTokens := m\<rparr>) fs = (e, s', fs')"
    and "tokens_wf m" "capped cap m" "counts_kept J cap" "file_capped J cap fs (st_redemptionTokensPath s)"
  shows "st_redemptionTokensPath s' = st_redemptionTokensPath s \<and> tokens_wf (st_redemptionTokens s') \<and>
    capped cap (st_redemptionTokens s') \<and> file_capped J cap fs' (st_redemptionTokensPath s)"
  using persist_and_stat_path [OF assms(1)] persist_and_stat_capped [OF assms(1) refl] assms(2-) by simp

lemma reload_cases:
  assumes "ReloadRedemptionTokensIfChanged J (quiet_disk rd io) s fs = (e, s', fs')"
  obtains (kept) "s' = s" "fs' = fs" | (missing) "st_redemptionTokens s' = Map.empty" "fs' = fs" "in_sync (s', fs)"
      "st_redemptionTokensPath s' = st_redemptionTokensPath s"
  | (loaded) "\<not> in_sync (s, fs)" "in_sync (s', fs)" "fs' = fs" "st_redemptionTokensPath s' = st_redemptionTokensPath s"
      "loadRedemptionTokensFile J (quiet_disk rd io) fs (st_redemptionTokensPath s) = Ok (st_redemptionTokens s')"
proof (cases "files fs (st_redemptionTokensPath s)")
  case None
  then have st: "os_Stat (quiet_disk rd io) fs (st_redemptionTokensPath s) = Stat_NotExist" by (simp add: os_Stat_def quiet_disk_def)
  show ?thesis
  proof (cases "st_redemptionTokensPath s = ''''")
    case True
    then show ?thesis using assms by (intro kept) (simp_all add: ReloadRedemptionTokensIfChanged_def)
  next
    case False
    then show ?thesis using assms None st by (intro missing) (auto simp: ReloadRedemptionTokensIfChanged_def in_sync_def)
  qed
next
  case (Some n)
  then have st: "os_Stat (quiet_disk rd io) fs (st_redemptionTokensPath s) = Stat_Time (mtime n)"
    and bt: "dk_between (quiet_disk rd io) fs = fs" by (simp_all add: os_Stat_def quiet_disk_def)
  show ?thesis
  proof (cases "st_redemptionTokensPath s = '''' \<or> in_sync (s, fs)")
    case True
    then have "s' = s \<and> fs' = fs"
    proof
      assume "st_redemptionTokensPath s = []"
      then show ?thesis using assms by (simp add: ReloadRedemptionTokensIfChanged_def)
    next
      assume "in_sync (s, fs)"
      then have "\<not> After (mtime n) (st_redemptionTokensMtime s)" using Some by (simp add: in_sync_def After_def)
      then show ?thesis using assms st by (auto simp: ReloadRedemptionTokensIfChanged_def Let_def split: if_splits)
    qed
    then show ?thesis by (intro kept) simp_all
  next
    case False
    then have new: "After (mtime n) (st_redemptionTokensMtime s)" using Some by (simp add: in_sync_def After_def)
    show ?thesis
    proof (cases "loadRedemptionTokensFile J (quiet_disk rd io) fs (st_redemptionTokensPath s)")
      case (Inl er)
      then show ?thesis using assms False st bt new by (intro kept) (simp_all add: ReloadRedemptionTokensIfChanged_def)
    next
      case (Inr m)
      then show ?thesis using assms False st bt new Some
        by (intro loaded) (auto simp: ReloadRedemptionTokensIfChanged_def in_sync_def)
    qed
  qed
qed

section \<open>The contract of a shared store\<close>

lemma server_charge_unfold:
  assumes "ConsumeRedemptionToken E J (quiet_disk True io) ord srv fs k now = (r, srv', fs')"
  shows "server_charge E J (io, ord, now) (srv, dash, fs) k = (cr_Consumed r, srv', dash, fs')"
  using assms by (simp add: server_charge_def charge_step_def)

lemma server_charge_ok:
  assumes "processes_ok J cap w"
  shows "processes_ok J cap (snd (server_charge E J a w k)) \<and> (\<not> unseen w \<longrightarrow> \<not> unseen (snd (server_charge E J a w k)))"
proof -
  obtain srv dash fs where w: "w = (srv, dash, fs)" by (cases w)
  obtain io ord now where a: "a = (io, ord, now)" by (cases a)
  obtain r srv' fs' where c: "ConsumeRedemptionToken E J (quiet_disk True io) ord srv fs k now = (r, srv', fs')"
    by (metis prod_cases3)
  note step = server_charge_unfold [OF c, of dash]
  have sync: "in_sync (srv, fs) \<longrightarrow> in_sync (srv', fs')"
    using tokens.charge_inv [of "(srv, fs)" E J "(io, ord, now)" k] c by (simp add: charge_step_def)
  from c show ?thesis
  proof (cases rule: Consume_cases)
    case refused
    then show ?thesis using assms step by (simp add: w a)
  next
    case (consumed t e)
    have i: "tokens_wf (st_redemptionTokens srv)" "capped cap (st_redemptionTokens srv)" "counts_kept J cap"
      "file_capped J cap fs (st_redemptionTokensPath srv)" "rt_RemainingRedemptions t \<le> cap k"
      using assms consumed(2) by (auto simp: processes_ok_def w capped_def)
    have "tokens_wf ((st_redemptionTokens srv)(k \<mapsto> spend t))"
      using tokens_wf_update [OF i(1), of "spend t"] tokens_wfD [OF i(1), of k t] consumed(2) by simp
    moreover have "capped cap ((st_redemptionTokens srv)(k \<mapsto> spend t))"
      using i(5) by (intro capped_update [OF i(2)]) (simp add: spend_def)
    ultimately show ?thesis
      using writes_capped [OF consumed(4) _ _ i(3,4)] assms step sync by (simp add: processes_ok_def unseen_def w a)
  qed
qed

lemma server_reload_ok:
  assumes "processes_ok J cap w" "w' = process_step J (Server_reload rd io) w"
  shows "processes_ok J cap w' \<and> (\<not> unseen w \<longrightarrow> \<not> unseen w') \<and>
    (server_remaining w' k \<le> max 0 (server_remaining w k) \<or> unseen w \<and> \<not> unseen w' \<and> server_remaining w' k \<le> max 0 (cap k))"
proof -
  obtain srv dash fs where w: "w = (srv, dash, fs)" by (cases w)
  obtain e srv' fs' where r: "ReloadRedemptionTokensIfChanged J (quiet_disk rd io) srv fs = (e, srv', fs')"
    by (metis prod_cases3)
  then have w': "w' = (srv', dash, fs')" by (simp add: assms(2) w background_step_def)
  from r show ?thesis
  proof (cases rule: reload_cases)
    case kept
    then show ?thesis using assms(1) by (simp add: w w')
  next
    case missing
    then show ?thesis using assms(1) by (auto simp: w w' processes_ok_def unseen_def server_remaining_def remaining_def)
  next
    case loaded
    have "capped cap (st_redemptionTokens srv')"
      using assms(1) loaded(5) by (auto simp: processes_ok_def w file_capped_def)
    moreover from this have "remaining (srv', fs) k \<le> max 0 (cap k)"
      by (auto simp: remaining_def capped_def le_max_iff_disj split: option.splits)
    ultimately show ?thesis
      using assms(1) loaded loadRedemptionTokensFile_wf [OF loaded(5)]
      by (auto simp: w w' processes_ok_def unseen_def server_remaining_def)
  qed
qed

lemma server_sweep_ok:
  "processes_ok J cap (process_step J (Server_sweep now window) w) = processes_ok J cap w"
  "unseen (process_step J (Server_sweep now window) w) = unseen w"
  "server_remaining (process_step J (Server_sweep now window) w) k = server_remaining w k"
  by (cases w; simp add: background_step_def processes_ok_def unseen_def in_sync_def server_remaining_def remaining_def
      SweepRateLimiters_def split: option.splits)+

lemma dash_mint_ok:
  assumes "processes_ok J cap w" "rt_RemainingRedemptions entry \<le> cap (rt_Token entry)"
  shows "processes_ok J cap (process_step J (Dash_mint io ord entry) w)"
proof -
  obtain srv dash fs where w: "w = (srv, dash, fs)" by (cases w)
  obtain e dash' fs' where r: "AddRedemptionToken J (quiet_disk True io) ord dash fs entry = (e, dash', fs')" by (metis prod_cases3)
  have i: "tokens_wf (st_redemptionTokens dash)" "capped cap (st_redemptionTokens dash)" "counts_kept J cap"
      "file_capped J cap fs (st_redemptionTokensPath dash)"
    using assms(1) by (auto simp: processes_ok_def w)
  have "dash' = dash \<and> fs' = fs \<or> st_redemptionTokensPath dash' = st_redemptionTokensPath dash \<and> tokens_wf (st_redemptionTokens dash') \<and>
      capped cap (st_redemptionTokens dash') \<and> file_capped J cap fs' (st_redemptionTokensPath dash)"
  proof (cases "validateRedemptionToken entry = None \<and> st_redemptionTokens dash (rt_Token entry) = None")
    case False
    then show ?thesis using r by (auto simp: AddRedemptionToken_def split: option.splits if_splits)
  next
    case True
    then have p: "persist_and_stat J (quiet_disk True io) ord
        (dash\<lparr>st_redemptionTokens := (st_redemptionTokens dash)(rt_Token entry \<mapsto> entry)\<rparr>) fs = (e, dash', fs')"
      using r by (simp add: AddRedemptionToken_def)
    have "tokens_wf ((st_redemptionTokens dash)(rt_Token entry \<mapsto> entry))"
      using True tokens_wf_update [OF i(1), of entry] by (simp add: validate_iff)
    then show ?thesis using writes_capped [OF p _ capped_update [OF i(2) assms(2)] i(3,4)] by simp
  qed
  then show ?thesis using assms(1) r by (auto simp: processes_ok_def w)
qed

lemma dash_burn_ok:
  assumes "processes_ok J cap w"
  shows "processes_ok J cap (process_step J (Dash_burn io ord token) w)"
proof -
  obtain srv dash fs where w: "w = (srv, dash, fs)" by (cases w)
  obtain ok dash' fs' where r: "RemoveRedemptionToken J (quiet_disk True io) ord dash fs token = (ok, dash', fs')" by (metis prod_cases3)
  have i: "tokens_wf (st_redemptionTokens dash)" "capped cap (st_redemptionTokens dash)" "counts_kept J cap"
      "file_capped J cap fs (st_redemptionTokensPath dash)"
    using assms(1) by (auto simp: processes_ok_def w)
  have "dash' = dash \<and> fs' = fs \<or> st_redemptionTokensPath dash' = st_redemptionTokensPath dash \<and> tokens_wf (st_redemptionTokens dash') \<and>
      capped cap (st_redemptionTokens dash') \<and> file_capped J cap fs' (st_redemptionTokensPath dash)"
  proof (cases "st_redemptionTokens dash token = None")
    case True
    then show ?thesis using r by (simp add: RemoveRedemptionToken_def)
  next
    case False
    then obtain e where p: "persist_and_stat J (quiet_disk True io) ord
        (dash\<lparr>st_redemptionTokens := (st_redemptionTokens dash)(token := None)\<rparr>) fs = (e, dash', fs')"
      using r by (auto simp: RemoveRedemptionToken_def split: prod.splits)
    show ?thesis using writes_capped [OF p tokens_wf_remove [OF i(1)] capped_remove [OF i(2)] i(3,4)] by simp
  qed
  then show ?thesis using assms(1) r by (auto simp: processes_ok_def w)
qed

lemma dash_keeps_server:
  "\<not> of_server b \<Longrightarrow> server_remaining (process_step J b w) k = server_remaining w k"
  by (cases b; cases w) (auto simp: server_remaining_def remaining_def split: prod.splits)

interpretation processes: shared_ledger server_remaining "server_charge E J" "processes_ok J cap" unseen "process_step J"
    of_server "fits_cap cap" "\<lambda>k. max 0 (cap k)" for E J cap
proof
  fix a :: redeem_action and b :: process_event and w :: processes and k k' :: string
  obtain srv dash fs where w: "w = (srv, dash, fs)" by (cases w)
  have c: "fst (server_charge E J a w k) = fst (charge_step E J a (srv, fs) k)"
    "server_remaining (snd (server_charge E J a w k)) k' = remaining (snd (charge_step E J a (srv, fs) k)) k'"
    "server_remaining w k' = remaining (srv, fs) k'" for k'
    by (auto simp: w server_charge_def server_remaining_def remaining_def split: prod.splits)
  show "0 < server_remaining w k \<and> server_remaining (snd (server_charge E J a w k)) k = server_remaining w k - 1"
    if "fst (server_charge E J a w k)"
    using that tokens.charge_ok unfolding c by blast
  show "server_remaining (snd (server_charge E J a w k)) k' = server_remaining w k'" if "fst (server_charge E J a w k)" "k' \<noteq> k"
    using that tokens.charge_other unfolding c by blast
  show "server_remaining (snd (server_charge E J a w k)) k' = server_remaining w k'" if "\<not> fst (server_charge E J a w k)"
    using that tokens.charge_no unfolding c by blast
  show "processes_ok J cap (snd (server_charge E J a w k))" if "processes_ok J cap w"
    using server_charge_ok [OF that] by blast
  show "\<not> unseen (snd (server_charge E J a w k))" if "processes_ok J cap w" "\<not> unseen w"
    using server_charge_ok [OF that(1)] that(2) by blast
  show "processes_ok J cap (process_step J b w)" if "processes_ok J cap w" "fits_cap cap b"
    using that server_reload_ok [OF that(1) refl] dash_mint_ok [OF that(1)] dash_burn_ok [OF that(1)]
    by (cases b) (simp_all only: fits_cap.simps server_sweep_ok)
  show "\<not> unseen (process_step J b w)" if "processes_ok J cap w" "of_server b" "\<not> unseen w"
    using that server_reload_ok [OF that(1) refl]
    by (cases b) (auto simp: server_sweep_ok simp del: process_step.simps)
  show "server_remaining (process_step J b w) k \<le> max 0 (server_remaining w k) \<or>
      unseen w \<and> \<not> unseen (process_step J b w) \<and> server_remaining (process_step J b w) k \<le> max 0 (cap k)"
    if "processes_ok J cap w" "of_server b"
    using that server_reload_ok [OF that(1) refl]
    by (cases b) (simp_all only: of_server.simps server_sweep_ok max.cobounded2 simp_thms)
  show "server_remaining (process_step J b w) k \<le> max 0 (server_remaining w k)" if "processes_ok J cap w" "\<not> of_server b"
    using dash_keeps_server [OF that(2)] by simp
qed

section \<open>A race\<close>

text \<open>Both processes have one link with one redemption left.\<close>

definition race_json :: json where
  "race_json = sample_json [sample_token ''a'' 1, sample_token ''a'' 0, sample_token ''b'' 1]"

definition race_start :: processes where
  "race_start = (sample_state [''a'' \<mapsto> sample_token ''a'' 1], sample_state [''a'' \<mapsto> sample_token ''a'' 1], sample_fs)"

definition race_mint :: process_event where
  "race_mint = Dash_mint (good_io 6) [''a'', ''b''] (sample_token ''b'' 1)"



text \<open>
  The other direction: a charge between the minting of a link and the server's next reload overwrites
  the file, so the link that the dashboard has reported is not redeemable, then or later.
\<close>

theorem minted_link_overwritten:
  "let w = snd (ledger_run (server_charge sample_env race_json) (process_step race_json) race_start
      [Background race_mint, Charge (good_io 8, [''a''], 9) ''a'', Background (Server_reload True (good_io 10))])
   in server_remaining w ''b'' = 0 \<and> \<not> unseen w \<and> st_redemptionTokens (fst (snd w)) ''b'' = Some (sample_token ''b'' 1)"
  by code_simp





section \<open>Properties\<close>



end
