(* ===== verification/Delivery.thy ===== *)
theory Delivery
  imports Redeem Header_Text Share_Link
begin

text \<open>
  The whole way of a share link, over several components: what the device gets for a token and
  what it can open (\<^verbatim>\<open>redeem.go\<close> with \<^verbatim>\<open>envelope.go\<close>), when the server cannot refuse, and a link from its
  minting in the dashboard (\<^verbatim>\<open>menu.go\<close>) through the file to the server's answer.
\<close>

section \<open>What an answer carries\<close>

text \<open>The envelopes of an answer, as a client reads them.\<close>

definition delivered :: "http_response \<Rightarrow> bytes list" where
  "delivered resp = (case hs_Body resp of Envelope_Body e \<Rightarrow> [e]
     | Bundle_Body v texts \<Rightarrow> map (\<lambda>s. case DecodeString s of None \<Rightarrow> [] | Some b \<Rightarrow> b) texts | _ \<Rightarrow> [])"

lemma delivered_response:
  "hs_Body resp = (if length envs = 1 then Envelope_Body (envs ! 0) else Bundle_Body 1 (map EncodeToString envs)) \<Longrightarrow>
   delivered resp = envs"
  by (auto simp: delivered_def Decode_Encode comp_def length_Suc_conv)

text \<open>What the envelope of a configuration promises to the owner of a public key.\<close>

definition envelope_for ::
    "crypto \<Rightarrow> texts \<Rightarrow> PublicKey \<Rightarrow> string \<Rightarrow> string \<Rightarrow> bytes \<Rightarrow> bytes \<Rightarrow> envelopePolicy \<Rightarrow> bytes \<Rightarrow> bool" where
  "envelope_for C T creator issuerURL displayName recipient configID policy raw =
     (\<exists>d dek wrap eph rnd bb pub. decodeEnvelopeWire T raw = Ok d \<and>
        DecodeString (eh_ConfigID (ed_Header d)) = Some configID \<and> eh_Policy (ed_Header d) = policy \<and>
        eh_Recipients (ed_Header d) = [\<lparr>rc_Fp = EncodeToString (sha256 C recipient), rc_Wrap = EncodeToString wrap\<rparr>] \<and>
        ecdhEphemeralWrap C eph rnd recipient configID dek = Ok (wrap, sha256 C recipient) \<and>
        cf_Pk (eh_Creator (ed_Header d)) = EncodeToString pub \<and> compressP256 creator = Ok pub \<and>
        verifyP1363Signature C creator (buildSignedRange (ed_HeaderBytes d) (ed_BodyNonce d) (ed_BodyCiphertext d)) (ed_Signature d) \<and>
        chachaPoly1305Decrypt C dek (ed_BodyNonce d) (ed_HeaderBytes d) (ed_BodyCiphertext d) = Ok bb \<and>
        encodeIssuerBody T \<lparr>ib_Kind = issuerBodyKindV2, ib_CreatorPubkey = EncodeToString pub, ib_IssuerURL = issuerURL,
          ib_DisplayName = normalizeDisplayName displayName\<rparr> = Some bb)"

lemma minted_for:
  assumes mint: "mintIssuerEnvelope C T R inp = Ok res" and key: "mi_CreatorKey inp = Some key"
    and inp: "mi_RecipientPubKeys inp = [recipient]" "mi_ConfigID inp = Some cid"
    and laws: "ecdsa_correct C key" "aead_correct C" "header_text_correct T"
    and policy: "\<And>p. mi_Policy inp = Some p \<Longrightarrow> policy_utf8 p"
    and size: "length (mr_EnvelopeBytes res) < 2 ^ 32"
  shows "envelope_for C T (sk_Public key) (mi_IssuerURL inp) (mi_DisplayName inp) recipient cid
    (case mi_Policy inp of None \<Rightarrow> default_envelopePolicy | Some p \<Rightarrow> p) (mr_EnvelopeBytes res)"
proof -
  let ?dek = "read_into 32 (snd (mn_dek R))" and ?n = "read_into 12 (snd (mn_nonce R))"
  obtain pub rs hb bb sig where f: "decodeEnvelopeWire T (mr_EnvelopeBytes res) = Ok \<lparr>ed_Header = mint_header C T inp R (mr_ConfigID res) pub rs,
      ed_HeaderBytes = hb, ed_BodyNonce = ?n, ed_BodyCiphertext = chacha_Seal C ?dek ?n bb hb, ed_Signature = sig\<rparr>"
    "wrap_recipients C R (mr_ConfigID res) ?dek 0 (mi_RecipientPubKeys inp) = Ok rs"
    "encodeIssuerBody T (mint_body inp pub) = Some bb" "compressP256 (sk_Public key) = Ok pub"
    "verifyP1363Signature C (sk_Public key) (buildSignedRange hb ?n (chacha_Seal C ?dek ?n bb hb)) sig"
    by (rule minted_frame [OF mint key laws(1,3) policy size])
  have cid: "mr_ConfigID res = cid" using mint inp(2) by (auto elim!: mint_cases simp: mint_checks_Ok)
  obtain wrap where w: "rs = [\<lparr>rc_Fp = EncodeToString (sha256 C recipient), rc_Wrap = EncodeToString wrap\<rparr>]"
    "ecdhEphemeralWrap C (mn_eph R 0) (mn_wrapNonce R 0) recipient cid ?dek = Ok (wrap, sha256 C recipient)"
    using wrap_recipients_result [OF f(2)] by (auto simp: inp(1) cid length_Suc_conv)
  have open_body: "chachaPoly1305Decrypt C ?dek ?n hb (chacha_Seal C ?dek ?n bb hb) = Ok bb"
    using laws(2) by (simp add: chachaPoly1305Decrypt_def aead_correct_def)
  have b: "encodeIssuerBody T \<lparr>ib_Kind = issuerBodyKindV2, ib_CreatorPubkey = EncodeToString pub, ib_IssuerURL = mi_IssuerURL inp,
      ib_DisplayName = normalizeDisplayName (mi_DisplayName inp)\<rparr> = Some bb"
    using f(3) by (simp add: mint_body_def)
  show ?thesis
    unfolding envelope_for_def
    by (rule exI, rule exI [of _ ?dek], rule exI [of _ wrap], rule exI [of _ "mn_eph R 0"], rule exI [of _ "mn_wrapNonce R 0"],
        rule exI [of _ bb], rule exI [of _ pub], rule conjI, rule f(1))
      (use f(4,5) w open_body b in \<open>simp add: mint_header_def Decode_Encode cid\<close>)
qed

section \<open>When minting succeeds\<close>

text \<open>
  What has to work for one wrap: the recipient's bytes are a point, the ephemeral key is generated
  and has the uncompressed form, and agreement, derivation and the sealing of a key have their documented sizes.
\<close>

definition wrap_works :: "crypto \<Rightarrow> random_read \<Rightarrow> bytes \<Rightarrow> bytes \<Rightarrow> bool" where
  "wrap_works C nonceRnd ephRnd recipient =
     (fst nonceRnd \<and>
      (\<exists>point priv y. decodeP256CompressedToEcdh C recipient = Ok point \<and>
         ecdh_GenerateKey C ephRnd = Some (priv, 4 # y) \<and> length y = 64 \<and> ecdh_ECDH C priv point \<noteq> None) \<and>
      (\<forall>secret salt info. hkdf_sha256 C secret salt info 32 \<noteq> None) \<and>
      (\<forall>k n m a. length (gcm_Seal C k n m a) = length m + 16))"

text \<open>What has to work around it.\<close>

definition mint_works :: "crypto \<Rightarrow> texts \<Rightarrow> PrivateKey \<Rightarrow> mintRandom \<Rightarrow> bytes \<Rightarrow> bool" where
  "mint_works C T key R recipient =
     (fst (mn_dek R) \<and> fst (mn_nonce R) \<and> wrap_works C (mn_wrapNonce R 0) (mn_eph R 0) recipient \<and>
      (\<forall>h. ecdsa_Sign C (mn_sign R) key h \<noteq> None) \<and> ecdsa_correct C key \<and>
      pk_Curve (sk_Public key) = P256 \<and> pk_X (sk_Public key) < 256 ^ 32 \<and>
      (\<forall>h. \<exists>b. tx_canonical T h = Ok b) \<and> (\<forall>b. tx_marshal_body T b \<noteq> None))"

lemma wrap_succeeds:
  assumes "wrap_works C nonceRnd ephRnd recipient" "length dek = 32"
  shows "\<exists>wrap. ecdhEphemeralWrap C ephRnd nonceRnd recipient cid dek = Ok (wrap, sha256 C recipient)"
proof -
  obtain point priv y shared where w: "decodeP256CompressedToEcdh C recipient = Ok point"
    "ecdh_GenerateKey C ephRnd = Some (priv, 4 # y)" "length y = 64" "ecdh_ECDH C priv point = Some shared" "fst nonceRnd"
    using assms(1) by (auto simp: wrap_works_def)
  have g: "length (gcm_Seal C k n m a) = length m + 16" for k n m a using assms(1) by (simp add: wrap_works_def)
  have "hkdf_sha256 C shared (sha256 C recipient) (envelopeWrapInfoLabel @ cid) 32 \<noteq> None"
    using assms(1) unfolding wrap_works_def by blast
  then obtain okm where h: "hkdf_sha256 C shared (sha256 C recipient) (envelopeWrapInfoLabel @ cid) 32 = Some okm" by blast
  have c: "\<exists>b. compressUncompressedP256 (4 # y) = Ok (b # take 32 y)"
    using w(3) by (simp add: compressUncompressedP256_def)
  then show ?thesis using w h g assms(2)
    by (auto simp: ecdhEphemeralWrap_def Let_def envelope_lens)
qed

lemma mint_succeeds:
  assumes "mint_works C T key R recipient" "mi_CreatorKey inp = Some key" "mi_RecipientPubKeys inp = [recipient]"
    "length recipient = 33" "mi_IssuerURL inp \<noteq> ''''" "mi_ConfigID inp = Some cid" "length cid = 16"
  shows "\<exists>res. mintIssuerEnvelope C T R inp = Ok res"
proof -
  let ?dek = "read_into 32 (snd (mn_dek R))" and ?n = "read_into 12 (snd (mn_nonce R))"
  have W: "fst (mn_dek R)" "fst (mn_nonce R)" "wrap_works C (mn_wrapNonce R 0) (mn_eph R 0) recipient"
    "\<And>h. ecdsa_Sign C (mn_sign R) key h \<noteq> None" "ecdsa_correct C key" "\<And>h. \<exists>b. tx_canonical T h = Ok b"
    "\<And>b. tx_marshal_body T b \<noteq> None" using assms(1) by (simp_all add: mint_works_def)
  have chk: "mint_checks inp R = Ok (key, cid)" using assms(2-) by (simp add: mint_checks_Ok)
  obtain pub where pub: "compressP256 (sk_Public key) = Ok pub"
    using assms(1) compressP256_Ok [of "sk_Public key"] by (auto simp: mint_works_def)
  obtain wrap where w: "ecdhEphemeralWrap C (mn_eph R 0) (mn_wrapNonce R 0) recipient cid ?dek = Ok (wrap, sha256 C recipient)"
    using wrap_succeeds [OF W(3), of ?dek cid] by auto
  obtain rs where rs: "wrap_recipients C R cid ?dek 0 [recipient] = Ok rs" using w by simp
  obtain hb where hb: "tx_canonical T (mint_header C T inp R cid pub rs) = Ok hb" using W(6) by blast
  obtain bb where bb: "encodeIssuerBody T (mint_body inp pub) = Some bb" using W(7) by (auto simp: encodeIssuerBody_def)
  let ?c = "chacha_Seal C ?dek ?n bb hb"
  obtain r s where "ecdsa_Sign C (mn_sign R) key (sha256 C (buildSignedRange hb ?n ?c)) = Some (r, s)"
    using W(4) by (metis option.exhaust prod.exhaust)
  then obtain sig where sig: "signP1363 C (mn_sign R) key (buildSignedRange hb ?n ?c) = Ok sig"
    using signP1363_verifies [OF W(5)] by blast
  show ?thesis using chk pub rs hb bb sig W(1,2) assms(3)
    by (simp add: mintIssuerEnvelope_def Let_def envelopeDEKLen_def envelopeBodyNonceLen_def
        chachaPoly1305Encrypt_def del: wrap_recipients.simps)
qed

text \<open>A token all of whose configurations are registered under well-formed names.\<close>

definition deliverable :: "State \<Rightarrow> RedemptionToken \<Rightarrow> bool" where
  "deliverable s t = (rt_ConfigIDs t \<noteq> [] \<and> (\<forall>k \<in> set (rt_ConfigIDs t).
     ConfigByID s k \<noteq> None \<and> (\<exists>cid. DecodeString k = Some cid \<and> length cid = 16)))"

lemma mint_all_succeeds:
  assumes "\<And>j. mint_works C T (st_CreatorSigningKey s) (R j) recipient" "length recipient = 33" "st_PublicIssuerURL s \<noteq> ''''"
    and "\<forall>k \<in> set ids. ConfigByID s k \<noteq> None \<and> (\<exists>cid. DecodeString k = Some cid \<and> length cid = 16)"
  shows "\<exists>envs. mint_all C T J R s recipient i ids = Ok envs"
  using assms(4)
proof (induction ids arbitrary: i)
  case Nil
  then show ?case by simp
next
  case (Cons k ids)
  obtain e cid where k: "ConfigByID s k = Some e" "DecodeString k = Some cid" "length cid = 16" using Cons.prems by auto
  obtain res where "mintIssuerEnvelope C T (R i) (redemptionMintInput J s e recipient cid) = Ok res"
    using mint_succeeds [OF assms(1) [of i], where inp = "redemptionMintInput J s e recipient cid" and cid = cid] assms(2,3) k(3)
    by (auto simp: redemptionMintInput_def)
  moreover obtain envs where "mint_all C T J R s recipient (Suc i) ids = Ok envs" using Cons by auto
  ultimately show ?case using k by (simp add: envelopeConfigIDLen_def)
qed

lemma redeem_mint_succeeds:
  assumes "DecodeString (rq_RecipientPubkey req) = Some recipient" "length recipient = 33"
    and "st_redemptionTokens s (rq_Token req) = Some t" "consumable (wo_env W) t (rd_checkNow rc)" "deliverable s t"
    and "st_PublicIssuerURL s \<noteq> ''''"
    and "\<And>j. mint_works (wo_crypto W) (wo_texts W) (st_CreatorSigningKey s) (rd_random rc j) recipient"
  shows "\<exists>envs. redeem_mint W rc s req = Ok envs"
proof -
  obtain envs where "mint_all (wo_crypto W) (wo_texts W) (wo_json W) (rd_random rc) s recipient 0 (rt_ConfigIDs t) = Ok envs"
    using mint_all_succeeds [where R = "rd_random rc", OF assms(7,2,6)] assms(5) unfolding deliverable_def by blast
  moreover have "HasConfigRegistry s"
    using assms(5) by (cases "rt_ConfigIDs t") (auto simp: deliverable_def ConfigByID_def HasConfigRegistry_def split: option.splits)
  ultimately show ?thesis using assms(1-6)
    by (auto simp: redeem_mint_def decode_recipient_def envelopeP256CompLen_def LookupRedemptionToken_def consumable_def
        configIDs_def deliverable_def not_le)
qed

section \<open>When a redemption is served\<close>

definition redeem_ready :: "world \<Rightarrow> redeem_call \<Rightarrow> State \<Rightarrow> RedeemRequest \<Rightarrow> RedemptionToken \<Rightarrow> bool" where
  "redeem_ready W rc s req t =
     (st_redemptionTokens s (rq_Token req) = Some t \<and> consumable (wo_env W) t (rd_checkNow rc) \<and> deliverable s t \<and>
      st_PublicIssuerURL s \<noteq> '''' \<and>
      (\<exists>recipient. DecodeString (rq_RecipientPubkey req) = Some recipient \<and> length recipient = 33 \<and>
        (\<forall>j. mint_works (wo_crypto W) (wo_texts W) (st_CreatorSigningKey s) (rd_random rc j) recipient)))"

lemma redeem_ready_limiter [simp]:
  "redeem_ready W rc (s\<lparr>st_redemptionLimiter := l\<rparr>) req t = redeem_ready W rc s req t"
  by (simp add: redeem_ready_def deliverable_def limiter_frame)

lemma redeem_ready_mints: "redeem_ready W rc s req t \<Longrightarrow> \<exists>envs. redeem_mint W rc s req = Ok envs"
  unfolding redeem_ready_def using redeem_mint_succeeds by blast

lemma handleRedeem_serves:
  assumes re: "after_reloads W rc s fs = (s2, fs2)" and p: "parse_redeem (wo_json W) (hr_Body r) = Ok req"
    and limit: "length (live_bucket Hour (st_redemptionLimiter s2) (rd_limiterNow rc) (clientIP (wo_net W) r (st_TrustedProxies s2))) < 30"
    and ready: "redeem_ready W rc s2 req t"
    and charge: "\<And>l. \<exists>t'. st_redemptionTokens (fst (rd_between rc (s2\<lparr>st_redemptionLimiter := l\<rparr>, fs2))) (rq_Token req) = Some t' \<and>
      consumable (wo_env W) t' (rd_consumeNow rc)"
  shows "\<exists>resp s' fs'. handleRedeem W rc s fs r = (resp, s', fs') \<and> hs_Status resp = 200"
proof -
  obtain resp s' fs' where h: "handleRedeem W rc s fs r = (resp, s', fs')" by (metis prod_cases3)
  obtain e1 s1 fs1 where r1: "ReloadRedemptionTokensIfChanged (wo_json W) (rd_tokensDisk rc) s fs = (e1, s1, fs1)"
    by (metis prod_cases3)
  obtain e2 where r2: "ReloadConfigsIfChanged (wo_env W) (wo_json W) (wo_verifiers W) (rd_configsDisk rc) s1 fs1 = (e2, s2, fs2)"
    using re r1 by (auto simp: after_reloads_def) (metis prod.collapse)
  obtain d l where a: "Allow (st_redemptionLimiter s2) (rd_limiterNow rc) (clientIP (wo_net W) r (st_TrustedProxies s2)) 30 (1 * Hour) = (d, l)"
    by fastforce
  have d: "Allowed d"
    using limit a Allow_allowed [of Hour 30 "st_redemptionLimiter s2" "rd_limiterNow rc" "clientIP (wo_net W) r (st_TrustedProxies s2)"] by simp
  obtain envs where m: "redeem_mint W rc (s2\<lparr>st_redemptionLimiter := l\<rparr>) req = Ok envs"
    using redeem_ready_mints [of W rc "s2\<lparr>st_redemptionLimiter := l\<rparr>" req t] ready by auto
  obtain s4 fs4 where b: "rd_between rc (s2\<lparr>st_redemptionLimiter := l\<rparr>, fs2) = (s4, fs4)" by fastforce
  obtain t' where t': "st_redemptionTokens s4 (rq_Token req) = Some t'" "consumable (wo_env W) t' (rd_consumeNow rc)"
    using charge [of l] b by auto
  obtain res s5 fs5 where c: "ConsumeRedemptionToken (wo_env W) (wo_json W) (rd_consumeDisk rc) (rd_ord rc) s4 fs4
      (rq_Token req) (rd_consumeNow rc) = (res, s5, fs5)" by (metis prod_cases3)
  have "cr_Consumed res" using Consumed_iff [OF t'(1), of "wo_env W" "wo_json W" "rd_consumeDisk rc" "rd_ord rc" fs4 "rd_consumeNow rc"] c t'(2) by simp
  then have "resp = redeem_response envs"
    using h p a d m b c by (simp add: handleRedeem_def Let_def r1 r2 redeemMaxPerIPPerHour_def)
  then show ?thesis using h by simp
qed

text \<open>The envelopes of a 200, each for the registered entry of its configuration.\<close>

lemma delivered_envelopes:
  assumes h: "handleRedeem W rc s fs r = (resp, s', fs')" and ok: "hs_Status resp = 200"
    and re: "after_reloads W rc s fs = (s2, fs2)"
    and laws: "ecdsa_correct (wo_crypto W) (st_CreatorSigningKey s2)" "aead_correct (wo_crypto W)" "header_text_correct (wo_texts W)"
    and policies: "\<forall>k e p. ConfigByID s2 k = Some e \<and> ce_IssuedPolicy e = Some p \<longrightarrow> policy_utf8 p"
    and size: "\<forall>raw \<in> set (delivered resp). length raw < 2 ^ 32"
  shows "\<exists>req recipient token. parse_redeem (wo_json W) (hr_Body r) = Ok req \<and> DecodeString (rq_RecipientPubkey req) = Some recipient \<and>
    st_redemptionTokens s2 (rq_Token req) = Some token \<and> length (delivered resp) = length (rt_ConfigIDs token) \<and>
    (\<forall>j < length (delivered resp). \<exists>e cid. ConfigByID s2 (rt_ConfigIDs token ! j) = Some e \<and>
       DecodeString (rt_ConfigIDs token ! j) = Some cid \<and>
       envelope_for (wo_crypto W) (wo_texts W) (sk_Public (st_CreatorSigningKey s2)) (st_PublicIssuerURL s2)
         (effectiveDisplayName (wo_json W) e) recipient cid
         (case ce_IssuedPolicy e of None \<Rightarrow> default_envelopePolicy | Some p \<Rightarrow> p) (delivered resp ! j))"
proof -
  obtain req recipient token l s4 t envs where f: "parse_redeem (wo_json W) (hr_Body r) = Ok req"
    "DecodeString (rq_RecipientPubkey req) = Some recipient" "st_redemptionTokens s2 (rq_Token req) = Some token"
    "length envs = length (rt_ConfigIDs token)"
    "\<forall>j < length envs. \<exists>e cid res. ConfigByID s2 (rt_ConfigIDs token ! j) = Some e \<and>
       DecodeString (rt_ConfigIDs token ! j) = Some cid \<and>
       mintIssuerEnvelope (wo_crypto W) (wo_texts W) (rd_random rc j) (redemptionMintInput (wo_json W) s2 e recipient cid) = Ok res \<and>
       envs ! j = mr_EnvelopeBytes res"
    "hs_Body resp = (if length envs = 1 then Envelope_Body (envs ! 0) else Bundle_Body 1 (map EncodeToString envs))"
    using handleRedeem_200 [OF h ok re] by blast
  have d: "delivered resp = envs" by (rule delivered_response [OF f(6)])
  have "\<exists>e cid. ConfigByID s2 (rt_ConfigIDs token ! j) = Some e \<and> DecodeString (rt_ConfigIDs token ! j) = Some cid \<and>
       envelope_for (wo_crypto W) (wo_texts W) (sk_Public (st_CreatorSigningKey s2)) (st_PublicIssuerURL s2)
         (effectiveDisplayName (wo_json W) e) recipient cid
         (case ce_IssuedPolicy e of None \<Rightarrow> default_envelopePolicy | Some p \<Rightarrow> p) (envs ! j)" if j: "j < length envs" for j
  proof -
    obtain e cid res where m: "ConfigByID s2 (rt_ConfigIDs token ! j) = Some e" "DecodeString (rt_ConfigIDs token ! j) = Some cid"
       "mintIssuerEnvelope (wo_crypto W) (wo_texts W) (rd_random rc j) (redemptionMintInput (wo_json W) s2 e recipient cid) = Ok res"
       "envs ! j = mr_EnvelopeBytes res" using f(5) j by blast
    have "length (mr_EnvelopeBytes res) < 2 ^ 32" using size j m(4) d by (metis nth_mem)
    from minted_for [OF m(3) _ _ _ laws _ this, of recipient cid]
    show ?thesis using m(1,2,4) policies by (simp add: redemptionMintInput_def)
  qed
  then show ?thesis using f(1-4) d by blast
qed

section \<open>A link from the dashboard to the device\<close>

lemma reload_reads:
  assumes "\<not> in_sync (s, fs)" "st_redemptionTokensPath s \<noteq> ''''"
    and "loadRedemptionTokensFile J (quiet_disk True io) fs (st_redemptionTokensPath s) = Ok m"
  shows "\<exists>mt. ReloadRedemptionTokensIfChanged J (quiet_disk True io) s fs
    = (None, s\<lparr>st_redemptionTokens := m, st_redemptionTokensMtime := mt\<rparr>, fs)"
proof -
  obtain n where n: "files fs (st_redemptionTokensPath s) = Some n" "st_redemptionTokensMtime s < mtime n"
    using assms(1) by (auto simp: in_sync_def split: option.splits)
  then have "os_Stat (quiet_disk True io) fs (st_redemptionTokensPath s) = Stat_Time (mtime n)"
    by (simp add: os_Stat_def quiet_disk_def)
  then show ?thesis using n(2) assms(2,3) by (simp add: ReloadRedemptionTokensIfChanged_def After_def) (auto simp: quiet_disk_def)
qed

lemma reload_configs_tokens:
  assumes "ReloadConfigsIfChanged E J reg dk s fs = (e, s', fs')"
  shows "st_redemptionTokens s' = st_redemptionTokens s"
  using assms by (auto simp: ReloadConfigsIfChanged_def Let_def split: if_splits stat_result.splits sum.splits)

lemma reloaded_tokens:
  assumes "after_reloads W rc s fs = (s2, fs2)" "rd_tokensDisk rc = quiet_disk True io"
    and "\<not> in_sync (s, fs)" "st_redemptionTokensPath s \<noteq> ''''"
    and "loadRedemptionTokensFile (wo_json W) (quiet_disk True io) fs (st_redemptionTokensPath s) = Ok m"
  shows "st_redemptionTokens s2 = m"
proof -
  obtain mt where r: "ReloadRedemptionTokensIfChanged (wo_json W) (rd_tokensDisk rc) s fs
      = (None, s\<lparr>st_redemptionTokens := m, st_redemptionTokensMtime := mt\<rparr>, fs)"
    unfolding assms(2) using reload_reads [OF assms(3-5)] by blast
  let ?s1 = "s\<lparr>st_redemptionTokens := m, st_redemptionTokensMtime := mt\<rparr>"
  obtain e where "ReloadConfigsIfChanged (wo_env W) (wo_json W) (wo_verifiers W) (rd_configsDisk rc) ?s1 fs = (e, s2, fs2)"
    using assms(1) r by (auto simp: after_reloads_def) (metis prod.collapse)
  from reload_configs_tokens [OF this] show ?thesis by simp
qed

text \<open>A link is open until a second before its lifetime is over.\<close>

definition still_open :: "(string \<Rightarrow> duration option) \<Rightarrow> string \<Rightarrow> time \<Rightarrow> time \<Rightarrow> bool" where
  "still_open pd x minted at =
     (case link_lifetime pd x of None \<Rightarrow> True | Some dur \<Rightarrow> at \<le> minted + sint dur - sint Second)"

lemma joinShareLink_token: "joinShareLink url a = joinShareLink url b \<Longrightarrow> a = b"
  by (simp add: joinShareLink_def)

section \<open>Sample calls with the code's own header text\<close>

definition delivery_texts :: texts where
  "delivery_texts = header_texts (\<lambda>b. Some [2]) (\<lambda>t. ''t'')"

lemma delivery_texts_correct: "header_text_correct delivery_texts"
proof -
  have "valid_text ''t'' = ''t''" by (rule valid_text_ascii) (simp add: code_def)
  then show ?thesis unfolding delivery_texts_def by (intro header_texts_correct) simp
qed


lemma sample_mint_works: "mint_works sample_crypto delivery_texts sample_key sample_random sample_recipient"
proof -
  have l: "length sample_recipient = 33" "length (replicate 32 0 :: bytes) = 32" by (simp_all add: sample_recipient_def)
  obtain w where "ecdhEphemeralWrap sample_crypto [] (True, []) sample_recipient [] (replicate 32 0) = Ok (w, sha256 sample_crypto sample_recipient)"
    by (rule sample_wrap [OF l])
  then obtain p where p: "decodeP256CompressedToEcdh sample_crypto sample_recipient = Ok p"
    by (auto simp: ecdhEphemeralWrap_def split: sum.splits)
  have "\<exists>b. tx_canonical delivery_texts h = Ok b" for h
    using writeCanonical_header by (simp add: delivery_texts_def header_texts_def)
  then show ?thesis
    using p sample_ecdsa_correct
    by (simp add: mint_works_def wrap_works_def delivery_texts_def header_texts_def sample_random_def)
      (simp add: sample_crypto_def sample_key_def)
qed

definition delivery_world :: "json \<Rightarrow> env \<Rightarrow> string \<Rightarrow> world" where
  "delivery_world J E token = (sample_world undefined token)\<lparr>wo_texts := delivery_texts, wo_env := E,
     wo_json := J\<lparr>js_unmarshal_redeem := (\<lambda>d. Some \<lparr>rq_V = 1, rq_Token = token, rq_RecipientPubkey = EncodeToString sample_recipient\<rparr>)\<rparr>\<rparr>"

lemma delivery_world_simps [simp]:
  "wo_env (delivery_world J E k) = E" "wo_texts (delivery_world J E k) = delivery_texts" "wo_crypto (delivery_world J E k) = sample_crypto"
  "wo_verifiers (delivery_world J E k) = []" "wo_net (delivery_world J E k) = wo_net (sample_world undefined k)"
  by (simp_all add: delivery_world_def sample_world_def)

lemma delivery_parse: "k \<noteq> '''' \<Longrightarrow> parse_redeem (wo_json (delivery_world J E k)) (hr_Body sample_http)
    = Ok \<lparr>rq_V = 1, rq_Token = k, rq_RecipientPubkey = EncodeToString sample_recipient\<rparr>"
  using EncodeToString_nonempty [of sample_recipient]
  by (simp add: parse_redeem_def delivery_world_def sample_http_def sample_recipient_def del: EncodeToString_nonempty)

lemma sample_limit: "length (live_bucket Hour newRateLimiter t k) < 30"
  by (simp add: live_bucket_def bucket_of_def newRateLimiter_def)

lemma delivery_deliverable:
  "st_configs s = Some [EncodeToString (replicate 16 1) \<mapsto> sample_entry None] \<Longrightarrow>
   rt_ConfigIDs t = [EncodeToString (replicate 16 1)] \<Longrightarrow> deliverable s t"
  by (simp add: deliverable_def ConfigByID_def Decode_Encode)

section \<open>Properties\<close>

text \<open>C6. What a redemption delivers can be opened: when the handler answers 200, its body holds one envelope for each
  configuration of the token, in order, and the decoder accepts each; its header names that configuration, carries the policy
  registered for it (or the default one) and one recipient, the requester, to whom the content key is wrapped; the creator's
  key, which the header carries, verifies the signature; and the content key opens the body: this creator's
  key, the issuer URL of this server and the display name of the registered entry.\<close>

theorem redeemed_envelopes_open:
  assumes h: "handleRedeem W rc s fs r = (resp, s', fs')" and ok: "hs_Status resp = 200"
    and re: "after_reloads W rc s fs = (s2, fs2)"
    and laws: "ecdsa_correct (wo_crypto W) (st_CreatorSigningKey s2)" "aead_correct (wo_crypto W)" "header_text_correct (wo_texts W)"
    and policies: "\<forall>k e p. ConfigByID s2 k = Some e \<and> ce_IssuedPolicy e = Some p \<longrightarrow> policy_utf8 p"
    and size: "\<forall>raw \<in> set (delivered resp). length raw < 2 ^ 32"
  shows "\<exists>req recipient token. parse_redeem (wo_json W) (hr_Body r) = Ok req \<and> DecodeString (rq_RecipientPubkey req) = Some recipient \<and>
    st_redemptionTokens s2 (rq_Token req) = Some token \<and> length (delivered resp) = length (rt_ConfigIDs token) \<and>
    (\<forall>j < length (delivered resp). \<exists>e cid. ConfigByID s2 (rt_ConfigIDs token ! j) = Some e \<and>
       DecodeString (rt_ConfigIDs token ! j) = Some cid \<and>
       envelope_for (wo_crypto W) (wo_texts W) (sk_Public (st_CreatorSigningKey s2)) (st_PublicIssuerURL s2)
         (effectiveDisplayName (wo_json W) e) recipient cid
         (case ce_IssuedPolicy e of None \<Rightarrow> default_envelopePolicy | Some p \<Rightarrow> p) (delivered resp ! j))"
  using assms by (rule delivered_envelopes)

text \<open>C21. An honest redemption is served: when the request parses with a 33-byte key, the token is registered, has redemptions
  left and has not expired, when it is looked up as when it is charged, its configurations are registered, the issuer URL is set,
  fewer than 30 requests of this client were admitted within the hour, and randomness, primitives and JSON work, the answer
  is 200, with one envelope for each configuration, and the token's count is one lower.\<close>

theorem honest_redeem_served:
  assumes "after_reloads W rc s fs = (s2, fs2)" "parse_redeem (wo_json W) (hr_Body r) = Ok req"
    and "length (live_bucket Hour (st_redemptionLimiter s2) (rd_limiterNow rc) (clientIP (wo_net W) r (st_TrustedProxies s2))) < 30"
    and "redeem_ready W rc s2 req t"
    and "\<And>l. st_redemptionTokens (fst (rd_between rc (s2\<lparr>st_redemptionLimiter := l\<rparr>, fs2))) (rq_Token req) = Some t'"
    and "consumable (wo_env W) t' (rd_consumeNow rc)"
  shows "\<exists>resp s' fs'. handleRedeem W rc s fs r = (resp, s', fs') \<and> hs_Status resp = 200 \<and>
    length (delivered resp) = length (rt_ConfigIDs t) \<and> st_redemptionTokens s' (rq_Token req) = Some (spend t')"
proof -
  obtain resp s' fs' where h: "handleRedeem W rc s fs r = (resp, s', fs')" "hs_Status resp = 200"
    using handleRedeem_serves [OF assms(1-4)] assms(5,6) by blast
  from handleRedeem_200 [OF h assms(1)] assms(2,4,5) delivered_response [of resp]
  have "length (delivered resp) = length (rt_ConfigIDs t) \<and> st_redemptionTokens s' (rq_Token req) = Some (spend t')"
    by (auto simp: redeem_ready_def)
  with h show ?thesis by blast
qed

theorem redeemed_envelopes_open_witness:
  "\<exists>h resp s' fs'. handleRedeem (sample_world h ''a'') sample_call (sample_server 2) sample_fs sample_http = (resp, s', fs') \<and>
     hs_Status resp = 200 \<and> (\<exists>name. envelope_for sample_crypto (sample_texts h) (sk_Public sample_key) ''https://i'' name
       sample_recipient (replicate 16 1) default_envelopePolicy (delivered resp ! 0))"
proof -
  obtain h resp s' fs' where h: "handleRedeem (sample_world h ''a'') sample_call (sample_server 2) sample_fs sample_http = (resp, s', fs')"
    "hs_Status resp = 200" "\<exists>envs. resp = redeem_response envs \<and> (\<forall>raw \<in> set envs. length raw < 2 ^ 32)"
    by (rule sample_redeem)
  let ?W = "sample_world h ''a''"
  have W: "wo_crypto ?W = sample_crypto" "wo_texts ?W = sample_texts h" by (simp_all add: sample_world_def)
  have s: "st_CreatorSigningKey (sample_server 2) = sample_key" "st_PublicIssuerURL (sample_server 2) = ''https://i''"
    "ConfigByID (sample_server 2) k = (if k = EncodeToString (replicate 16 1) then Some (sample_entry None) else None)"
    "st_redemptionTokens (sample_server 2) k = (if k = ''a'' then Some (sample_token ''a'' 2) else None)"
    "rt_ConfigIDs (sample_token ''a'' 2) = [EncodeToString (replicate 16 1)]" "ce_IssuedPolicy (sample_entry None) = None" for k
    by (simp_all add: sample_server_def sample_state_def ConfigByID_def sample_token_def sample_entry_def)
  obtain envs where envs: "resp = redeem_response envs" "\<forall>raw \<in> set envs. length raw < 2 ^ 32" using h(3) by blast
  have "delivered resp = envs"
    by (rule delivered_response) (auto simp: envs(1) redeem_response_def length_Suc_conv split: list.splits)
  then have size: "\<forall>raw \<in> set (delivered resp). length raw < 2 ^ 32" using envs(2) by simp
  have pol: "\<forall>k e p. ConfigByID (sample_server 2) k = Some e \<and> ce_IssuedPolicy e = Some p \<longrightarrow> policy_utf8 p"
    by (auto simp: s(3,6) split: if_splits)
  obtain req recipient token where g: "parse_redeem (wo_json ?W) (hr_Body sample_http) = Ok req"
    "DecodeString (rq_RecipientPubkey req) = Some recipient" "st_redemptionTokens (sample_server 2) (rq_Token req) = Some token"
    "length (delivered resp) = length (rt_ConfigIDs token)"
    "\<forall>j < length (delivered resp). \<exists>e cid. ConfigByID (sample_server 2) (rt_ConfigIDs token ! j) = Some e \<and>
       DecodeString (rt_ConfigIDs token ! j) = Some cid \<and>
       envelope_for sample_crypto (sample_texts h) (sk_Public sample_key) ''https://i'' (effectiveDisplayName (wo_json ?W) e) recipient cid
         (case ce_IssuedPolicy e of None \<Rightarrow> default_envelopePolicy | Some p \<Rightarrow> p) (delivered resp ! j)"
    using redeemed_envelopes_open [OF h(1,2) sample_after_reloads, unfolded W s(1,2), OF sample_ecdsa_correct sample_laws pol size]
    by blast
  have "req = \<lparr>rq_V = 1, rq_Token = ''a'', rq_RecipientPubkey = EncodeToString sample_recipient\<rparr>"
    using g(1) by (simp add: sample_parse)
  then have "recipient = sample_recipient" "token = sample_token ''a'' 2" using g(2,3) by (simp_all add: Decode_Encode s(4))
  then have "\<exists>name. envelope_for sample_crypto (sample_texts h) (sk_Public sample_key) ''https://i'' name
       sample_recipient (replicate 16 1) default_envelopePolicy (delivered resp ! 0)"
    using g(4,5) by (auto simp: s(3,5,6) Decode_Encode)
  then show ?thesis using h(1,2) by blast
qed

theorem honest_redeem_served_witness:
  "\<exists>resp s' fs'. handleRedeem (delivery_world (sample_json []) sample_env ''a'') sample_call (sample_server 2) sample_fs sample_http
      = (resp, s', fs') \<and> hs_Status resp = 200 \<and> length (delivered resp) = 1 \<and>
     st_redemptionTokens s' ''a'' = Some (spend (sample_token ''a'' 2))"
proof -
  let ?W = "delivery_world (sample_json []) sample_env ''a''" and ?t = "sample_token ''a'' 2"
  have re: "after_reloads ?W sample_call (sample_server 2) sample_fs = (sample_server 2, sample_fs)"
    by (simp add: after_reloads_def sample_call_def sample_server_def sample_state_def ReloadRedemptionTokensIfChanged_def
        ReloadConfigsIfChanged_def os_Stat_def quiet_disk_def After_def Let_def)
  have s: "st_redemptionTokens (sample_server 2) ''a'' = Some ?t" "st_PublicIssuerURL (sample_server 2) \<noteq> ''''"
    "st_CreatorSigningKey (sample_server 2) = sample_key" "st_redemptionLimiter (sample_server 2) = newRateLimiter"
    by (simp_all add: sample_server_def sample_state_def)
  have t: "consumable sample_env ?t now" "rt_ConfigIDs ?t = [EncodeToString (replicate 16 1)]" for now
    by (simp_all add: consumable_def token_expired_def sample_token_def)
  have c: "rd_random sample_call = (\<lambda>j. sample_random)" "rd_between sample_call = (\<lambda>w. w)" by (simp_all add: sample_call_def)
  have "deliverable (sample_server 2) ?t" by (rule delivery_deliverable [OF _ t(2)]) (simp add: sample_server_def)
  then have ready: "redeem_ready ?W sample_call (sample_server 2)
      \<lparr>rq_V = 1, rq_Token = ''a'', rq_RecipientPubkey = EncodeToString sample_recipient\<rparr> ?t"
    using s t(1) sample_mint_works by (simp add: redeem_ready_def Decode_Encode c) (simp add: sample_recipient_def)
  have limit: "length (live_bucket Hour (st_redemptionLimiter (sample_server 2)) t k) < 30" for t k
    unfolding s(4) by (rule sample_limit)
  have "\<exists>resp s' fs'. handleRedeem ?W sample_call (sample_server 2) sample_fs sample_http = (resp, s', fs') \<and> hs_Status resp = 200 \<and>
    length (delivered resp) = length (rt_ConfigIDs ?t) \<and>
    st_redemptionTokens s' (rq_Token \<lparr>rq_V = 1, rq_Token = ''a'', rq_RecipientPubkey = EncodeToString sample_recipient\<rparr>) = Some (spend ?t)"
    by (rule honest_redeem_served [OF re delivery_parse limit ready]) (use t(1) s(1) in \<open>simp_all add: c\<close>)
  then show ?thesis by (simp add: t(2))
qed

text \<open>C5. A share link works from the dashboard to the device: a link that the dashboard reports, redeemed at a server
  that has not read the token file since, before the link's lifetime is over, gives one envelope for each of
  the chosen configurations and leaves the chosen count less one, when the server has those configurations registered, the request
  carries the link's token and a 33-byte key, the client is within its limit, and randomness, primitives and JSON work.\<close>

theorem minted_link_served:
  assumes mint: "mintShareLink (wo_env W) (wo_json W) pd dk ord s fs rnd now1 now2 ids url n x label = (Ok link, s', fs')"
    and "whole_second_texts (wo_env W)" "tokens_wf (st_redemptionTokens s)" "st_redemptionTokensPath s \<noteq> ''''"
    and "enumerates ord (st_redemptionTokens s')" "json_keeps (wo_json W) (ran (st_redemptionTokens s'))" "dk_between dk = (\<lambda>fs. fs)"
    and server: "st_redemptionTokensPath sv = st_redemptionTokensPath s" "\<not> in_sync (sv, fs')" "rd_tokensDisk rc = quiet_disk True io"
    and re: "after_reloads W rc sv fs' = (s2, fs2)"
    and request: "parse_redeem (wo_json W) (hr_Body r) = Ok req" "link = joinShareLink url (rq_Token req)"
    and limit: "length (live_bucket Hour (st_redemptionLimiter s2) (rd_limiterNow rc) (clientIP (wo_net W) r (st_TrustedProxies s2))) < 30"
    and lasts: "still_open pd x now1 (rd_checkNow rc)" "still_open pd x now1 (rd_consumeNow rc)"
    and ready: "\<And>t. rt_ConfigIDs t = ids \<Longrightarrow> deliverable s2 t" "st_PublicIssuerURL s2 \<noteq> ''''"
      "DecodeString (rq_RecipientPubkey req) = Some recipient" "length recipient = 33"
      "\<And>j. mint_works (wo_crypto W) (wo_texts W) (st_CreatorSigningKey s2) (rd_random rc j) recipient"
    and alone: "rd_between rc = (\<lambda>w. w)"
  shows "\<exists>resp sv' fs'' t. handleRedeem W rc sv fs' r = (resp, sv', fs'') \<and> hs_Status resp = 200 \<and>
    length (delivered resp) = length ids \<and> st_redemptionTokens sv' (rq_Token req) = Some t \<and>
    rt_ConfigIDs t = ids \<and> Atoi (TrimSpace n) = Some (rt_RemainingRedemptions t + 1)"
proof -
  have rd: "dk_read (quiet_disk True io)" by (simp add: quiet_disk_def)
  obtain t where t: "link = joinShareLink url (rt_Token t)" "rt_ConfigIDs t = ids" "Atoi (TrimSpace n) = Some (rt_RemainingRedemptions t)"
    "st_redemptionTokens s' = (st_redemptionTokens s)(rt_Token t \<mapsto> t)"
    "loadRedemptionTokensFile (wo_json W) (quiet_disk True io) fs' (st_redemptionTokensPath s) = Ok (st_redemptionTokens s')"
    and last: "\<forall>at. (link_lifetime pd x = None \<longrightarrow> consumable (wo_env W) t at) \<and>
      (\<forall>dur. link_lifetime pd x = Some dur \<longrightarrow> (at \<le> now1 + sint dur - sint Second \<longrightarrow> consumable (wo_env W) t at) \<and>
        (now1 + sint dur < at \<longrightarrow> \<not> consumable (wo_env W) t at))"
    by (rule minted_token [OF assms(1-7) rd])
  have k: "rq_Token req = rt_Token t" using joinShareLink_token t(1) request(2) by metis
  have c: "consumable (wo_env W) t (rd_checkNow rc)" "consumable (wo_env W) t (rd_consumeNow rc)"
    using last lasts by (auto simp: still_open_def split: option.splits)
  have tok: "st_redemptionTokens s2 (rq_Token req) = Some t"
    using reloaded_tokens [OF re server(3,2)] server(1) assms(4) t(4,5) k by simp
  have r: "redeem_ready W rc s2 req t" using tok c(1) ready(1) [OF t(2)] ready(2-5) by (auto simp: redeem_ready_def)
  have "\<exists>t'. st_redemptionTokens (fst (rd_between rc (s2\<lparr>st_redemptionLimiter := l\<rparr>, fs2))) (rq_Token req) = Some t' \<and>
      consumable (wo_env W) t' (rd_consumeNow rc)" for l using tok c(2) by (simp add: alone)
  then obtain resp sv' fs'' where h: "handleRedeem W rc sv fs' r = (resp, sv', fs'')" "hs_Status resp = 200"
    using handleRedeem_serves [OF re request(1) limit r] by blast
  from handleRedeem_200 [OF h re] request(1) tok delivered_response [of resp]
  have "length (delivered resp) = length ids \<and> st_redemptionTokens sv' (rq_Token req) = Some (spend t)"
    by (auto simp: alone t(2))
  moreover have "rt_ConfigIDs (spend t) = ids" "Atoi (TrimSpace n) = Some (rt_RemainingRedemptions (spend t) + 1)"
    using t(2,3) by (simp_all add: spend_def)
  ultimately show ?thesis using h by blast
qed

text \<open>A link of five, minted next to a running server with the configuration.\<close>

definition link_world :: world where
  "link_world = delivery_world (sample_json [sample_link_token]) sample_clock (rt_Token sample_link_token)"

definition link_server :: State where
  "link_server = (sample_state Map.empty)\<lparr>st_configs := Some [EncodeToString (replicate 16 1) \<mapsto> sample_entry None]\<rparr>"

theorem minted_link_served_witness:
  "\<exists>link s' fs' resp sv' fs''. sample_mint_link (wo_json link_world) = (Ok link, s', fs') \<and>
     handleRedeem link_world sample_call link_server fs' sample_http = (resp, sv', fs'') \<and> hs_Status resp = 200 \<and> length (delivered resp) = 1"
proof -
  let ?J = "wo_json link_world" and ?k = "rt_Token sample_link_token" and ?cid = "EncodeToString (replicate 16 1)"
  let ?req = "\<lparr>rq_V = 1, rq_Token = ?k, rq_RecipientPubkey = EncodeToString sample_recipient\<rparr>"
  have J: "?J = (sample_json [sample_link_token])\<lparr>js_unmarshal_redeem := (\<lambda>d. Some ?req)\<rparr>"
    by (simp add: link_world_def delivery_world_def)
  obtain d where d: "js_marshal_tokens ?J [sample_link_token] = Some d" by (simp add: J) (simp add: sample_json_def)
  obtain s' fs' n where m: "sample_mint_link ?J = (Ok (joinShareLink ''https://i/v1/redeem'' ?k), s', fs')"
    "st_redemptionTokens s' = [?k \<mapsto> sample_link_token]" "files fs' ''/s/f'' = Some n" "mtime n = 3"
    by (rule sample_link_minted [OF d])
  have st: "st_redemptionTokensPath (sample_state x) = ''/s/f''" "st_redemptionTokens (sample_state x) = x" for x
    by (simp_all add: sample_state_def)
  have sv: "st_redemptionTokensPath link_server = ''/s/f''" "\<not> in_sync (link_server, fs')"
    using m(3,4) by (simp_all add: link_server_def sample_state_def in_sync_def)
  have "json_keeps (sample_json [sample_link_token]) {sample_link_token}" by (rule sample_json_keeps) simp_all
  then have keeps: "json_keeps ?J (ran (st_redemptionTokens s'))" by (simp add: m(2) J json_keeps_def cong: option.case_cong)
  obtain s2 fs2 where re: "after_reloads link_world sample_call link_server fs' = (s2, fs2)" by fastforce
  have s2: "s2 = link_server\<lparr>st_redemptionTokens := st_redemptionTokens s2, st_redemptionTokensMtime := st_redemptionTokensMtime s2\<rparr>"
    using re by (auto simp: after_reloads_def ReloadConfigsIfChanged_def ReloadRedemptionTokensIfChanged_def link_server_def sample_state_def Let_def
        split: if_splits stat_result.splits sum.splits)
  have f: "st_configs s2 = Some [?cid \<mapsto> sample_entry None]" "st_PublicIssuerURL s2 \<noteq> ''''" "st_CreatorSigningKey s2 = sample_key"
    "st_redemptionLimiter s2 = newRateLimiter"
    by (subst s2, simp add: link_server_def sample_state_def)+
  have ids: "rt_ConfigIDs sample_link_token = [?cid]" by (simp add: sample_link_token_def)
  have k: "?k \<noteq> ''''" unfolding sample_link_token_def by (simp del: replicate.simps)
  have W: "wo_env link_world = sample_clock" "wo_crypto link_world = sample_crypto" "wo_texts link_world = delivery_texts"
    by (simp_all add: link_world_def)
  have c: "rd_tokensDisk sample_call = quiet_disk True (good_io 3)" "rd_random sample_call = (\<lambda>j. sample_random)" "rd_between sample_call = (\<lambda>w. w)"
    by (simp_all add: sample_call_def)
  have parse: "parse_redeem ?J (hr_Body sample_http) = Ok ?req" unfolding link_world_def by (rule delivery_parse [OF k])
  have limit: "length (live_bucket Hour (st_redemptionLimiter s2) t ip) < 30" for t ip unfolding f(4) by (rule sample_limit)
  have lasts: "still_open (\<lambda>d. None) ''0'' now at" for now at
  proof -
    have "TrimSpace ''0'' = ''0''" by (rule TrimSpace_plain) (simp add: plain_char_def)
    then show ?thesis by (simp add: still_open_def link_lifetime_def)
  qed
  have "\<exists>resp sv' fs'' t. handleRedeem link_world sample_call link_server fs' sample_http = (resp, sv', fs'') \<and> hs_Status resp = 200 \<and>
    length (delivered resp) = length (rt_ConfigIDs sample_link_token) \<and> st_redemptionTokens sv' (rq_Token ?req) = Some t \<and>
    rt_ConfigIDs t = rt_ConfigIDs sample_link_token \<and> Atoi (TrimSpace ''5'') = Some (rt_RemainingRedemptions t + 1)"
  proof (rule minted_link_served [where recipient = sample_recipient, OF m(1) [unfolded sample_mint_link_def, folded W(1)] _ _ _ _ keeps _ _ sv(2) c(1) re parse _ limit
        lasts lasts _ f(2) _ _ _ c(3)])
    show "deliverable s2 t" if "rt_ConfigIDs t = rt_ConfigIDs sample_link_token" for t
      using that unfolding ids by (rule delivery_deliverable [OF f(1)])
    show "length sample_recipient = 33" by (simp add: sample_recipient_def)
  qed (simp_all add: W sample_clock_whole st sv(1) m(2) quiet_disk_def Decode_Encode f(3) c(2) sample_mint_works)
  then show ?thesis using m(1) by (auto simp: ids)
qed

end
