(* ===== verification/Spec2Isabelle.thy ===== *)
theory Spec2Isabelle
  imports Routes Header_Text App_Attest Service_Control Pem Startup Navigation Two_Processes Delivery
begin

text \<open>
  A verification development for \<^verbatim>\<open>creator-server\<close>, the Go program that a creator of VPN configurations
  runs: it hands out signed and encrypted configurations to apps over HTTP, and lets the creator manage
  them from a terminal.

  \<^bold>\<open>The program.\<close>
  One binary is three programs (\<^verbatim>\<open>main.go\<close>, theory \<^verbatim>\<open>Dispatch\<close>). As a server it loads a directory of state
  (signing key, audit salt, \<^verbatim>\<open>configs.json\<close>, \<^verbatim>\<open>redemption-tokens.json\<close>) and serves two endpoints.
  \<^verbatim>\<open>/v1/redeem\<close> exchanges the token of a share link for envelopes, which name a configuration and
  this issuer and are wrapped to the key of one device. \<^verbatim>\<open>/v1/issue\<close> gives the configuration itself to a device
  that proves its key and, where the configuration has an attestation policy, its integrity, through
  Android Key Attestation or Apple App Attest. As a dashboard it imports and edits configurations, mints and burns
  share links, installs the server as a service of systemd and watches it. As
  the private command \<^verbatim>\<open>__service\<close> it carries out, as root, what the dashboard asks of systemd. Server and dashboard are
  separate processes that meet in the files: the server polls their modification times and reloads them.

  \<^bold>\<open>Theories and code\<close>, in the order in which they are built.
  \<^item> Foundations: \<^verbatim>\<open>Prelude\<close> (strings as bytes, \<^verbatim>\<open>strings\<close>, the \<open>codec\<close> contracts), \<^verbatim>\<open>Go_Time\<close> (instants and 64-bit
    durations), \<^verbatim>\<open>Base64Url\<close>, \<^verbatim>\<open>Utf8\<close>, \<^verbatim>\<open>Go_Text\<close> (decimal and hexadecimal texts), \<^verbatim>\<open>Wire_Types\<close> and \<^verbatim>\<open>State_Types\<close> (the structs of
    \<^verbatim>\<open>types.go\<close>, \<^verbatim>\<open>state.go\<close>, \<^verbatim>\<open>envelope.go\<close> as records).
  \<^item> Tables with a memory: \<^verbatim>\<open>Sliding_Window\<close> is the contract; \<^verbatim>\<open>RateLimit\<close> (\<^verbatim>\<open>ratelimit.go\<close>) and the replay cache of
    \<^verbatim>\<open>Challenge\<close> (\<^verbatim>\<open>attestation_challenge.go\<close>) meet it. \<^verbatim>\<open>Ledger\<close> is the contract of counted permits, which
    the tokens meet.
  \<^item> State: \<^verbatim>\<open>AtomicFile\<close> (\<^verbatim>\<open>atomicfile.go\<close>: the system calls one by one, each of which may fail, over a file system as a map
    of inodes), \<^verbatim>\<open>Registry_Loader\<close> (the loop both registries are loaded by), \<^verbatim>\<open>Tokens\<close> and \<^verbatim>\<open>Registry\<close> (\<^verbatim>\<open>state.go\<close>).
  \<^item> Cryptographic formats: \<^verbatim>\<open>Crypto\<close> (\<^verbatim>\<open>crypto.go\<close>, points and signatures of \<^verbatim>\<open>envelope.go\<close>), \<^verbatim>\<open>Envelope\<close> (\<^verbatim>\<open>envelope.go\<close>),
    \<^verbatim>\<open>Canonical_Json\<close> and \<^verbatim>\<open>Header_Text\<close> (\<^verbatim>\<open>canonical_json.go\<close>).
  \<^item> Attestation: \<^verbatim>\<open>Policy\<close> (\<^verbatim>\<open>policy.go\<close>, \<^verbatim>\<open>verifier.go\<close>), \<^verbatim>\<open>X509\<close>, \<^verbatim>\<open>Der\<close>, \<^verbatim>\<open>Aka\<close> (\<^verbatim>\<open>aka.go\<close>), \<^verbatim>\<open>App_Attest\<close> (\<^verbatim>\<open>app_attest.go\<close>),
    \<^verbatim>\<open>Pem\<close> (\<^verbatim>\<open>aka_roots.go\<close>, \<^verbatim>\<open>app_attest_roots.go\<close>, and the date of a certificate in \<^verbatim>\<open>lifecycle.go\<close>).
  \<^item> The server: \<^verbatim>\<open>Http\<close>, \<^verbatim>\<open>Audit_Log\<close> (\<^verbatim>\<open>audit.go\<close>), \<^verbatim>\<open>Redeem\<close> (\<^verbatim>\<open>redeem.go\<close>), \<^verbatim>\<open>Issue\<close> and \<^verbatim>\<open>Routes\<close> (\<^verbatim>\<open>server.go\<close>).
  \<^item> The service: \<^verbatim>\<open>Service\<close> (units), \<^verbatim>\<open>Service_Control\<close> (controller, verbs, private command line), both of \<^verbatim>\<open>service.go\<close>;
    \<^verbatim>\<open>Lifecycle\<close> (\<^verbatim>\<open>lifecycle.go\<close>), \<^verbatim>\<open>Setup\<close> (\<^verbatim>\<open>setup.go\<close> and the settings of \<^verbatim>\<open>menu.go\<close>), \<^verbatim>\<open>Dispatch\<close> and \<^verbatim>\<open>Startup\<close> (\<^verbatim>\<open>main.go\<close>, \<^verbatim>\<open>version.go\<close>).
  \<^item> The dashboard: \<^verbatim>\<open>Config_Edit\<close> (\<^verbatim>\<open>management.go\<close>, \<^verbatim>\<open>configedit.go\<close>, registration in \<^verbatim>\<open>menu.go\<close>), \<^verbatim>\<open>Share_Link\<close> (\<^verbatim>\<open>share_link.go\<close>,
    minting in \<^verbatim>\<open>menu.go\<close> and \<^verbatim>\<open>configedit.go\<close>), \<^verbatim>\<open>Backup\<close> (\<^verbatim>\<open>backup.go\<close>), \<^verbatim>\<open>Dashboard\<close> and \<^verbatim>\<open>Console\<close> (\<^verbatim>\<open>menu.go\<close>: texts,
    forms, dialogs, start), \<^verbatim>\<open>Navigation\<close> (its screens, keys, callbacks and background work as a machine of events).
  \<^item> Components together: \<^verbatim>\<open>Two_Processes\<close> (server and dashboard over one token file, as interleaved steps), \<^verbatim>\<open>Delivery\<close> (a share
    link from the dashboard to the device) and this theory.

  \<^bold>\<open>Conventions.\<close> Definitions have the names of the code; the fields of a struct carry a prefix of two or three letters. A method
  takes its receiver as an argument and returns it updated. A Go error is \<open>Err\<close> of its text, a panic is an \<open>Err\<close> as well. Clock readings, random bytes and the
  outcomes of the disk (record \<open>disk\<close>, with what other processes do between two of its calls) are arguments, one for each time the code asks.
  What is not in the repository is an argument too: the primitives of cryptography (\<open>crypto\<close>), \<^verbatim>\<open>crypto/x509\<close>, CBOR,
  PEM and JSON codecs (\<open>json\<close>, \<open>texts\<close>, \<open>console_json\<close>), parsing of addresses, Unicode tables. A property that needs a law of these
  has it as a hypothesis, and its witness instantiates it.

  \<^bold>\<open>What is shown.\<close>
  \<^item> Issuing: a configuration goes out only after every check; under a strict Android rule the checks reach down to the certificate chain and
    the parsed key description (the first property below); a request is answered once in 25 hours;
    an honest one is served; the form of each answer is fixed by its status. The verifiers accept exactly what they should, and the evaluator
    refines its decision table.
  \<^item> Redeeming: an answer delivers envelopes that open to what was registered and charges the token once; a refusal charges nothing; an
    honest request, and a link that was just minted, is served; the client address cannot be chosen by the client. No interleaving of the server's
    own operations charges a token more often than it has redemptions; with a dashboard that writes the same file the bound grows
    by one full count for each write, and is reached.
  \<^item> State: replacing a file is atomic under every failure; reachable states are well formed; a bad edit leaves the last good registry in
    force; key, salt and charges survive a restart.
  \<^item> Formats: the frame of an envelope and canonical JSON identify their contents; where decoding panics is characterised.
  \<^item> Dashboard: any session of edits leaves a file the server loads and refines the same edits on a map; a restriction chosen in the app is enforced by
    the evaluator of the server; a minted link can be redeemed until its expiry, a burned one cannot; a finished
    setup starts a server that answers where the console looks for it; a backup is complete; opening the console overwrites nothing but its settings; looking around in it
    changes nothing, and two escapes lead to its main menu.
  Where the code falls short of its comments, a theorem says so as well: the panics of decoding in \<^verbatim>\<open>Envelope\<close>, the unrestricted handout in \<^verbatim>\<open>Share_Link\<close>,
  \<open>ios_attestation_unbound\<close> here, \<open>unreadable_restriction_dropped\<close>, \<open>burn_unloaded_ignored\<close>, \<open>state_dir_injects_directive\<close> in their theories.

  \<^bold>\<open>Bounds, fuel, termination.\<close> Durations are 64-bit words and wrap; lengths in frames are 32-bit. Loops are recursions that the kernel accepts as total, with a
  measure where they are not structural (\<open>chain_loop\<close>, \<open>nat_text\<close>, \<open>poll_health\<close>: at most 16 probes). The two loops
  over PEM blocks are partial; a property of \<^verbatim>\<open>Pem\<close> shows that they return when a decoded block is consumed; the fuel of their reference \<open>pem_blocks\<close> is the
  length of the input, which bounds the number of blocks.

  \<^bold>\<open>Not modelled.\<close> The widgets of the terminal interface, their layout, colours, help and secondary texts (its pages are an argument, what
  the user does is a sequence of events); sockets (the end of a listener, a signal and a tick of the sweep timer are events); the
  certificate manager beyond its configuration; log lines of the server except the audit log; headers and compression of the backup. Texts of errors that come from libraries
  are dropped, and long messages of the interface shortened. The state's mutex makes each operation of \<^verbatim>\<open>state.go\<close> one step; a handler runs as one step between
  the hooks for other requests that \<open>redeem_call\<close> and \<open>disk\<close> provide.
\<close>

section \<open>From the handler to the hardware\<close>

text \<open>C1. Under a strict Android rule a configuration goes only to a device whose hardware vouches for it: when
  the issue handler of a server that has issued a challenge answers 200, the token of the request is a
  chain of certificates signed link by
  link and anchored at the configured Google roots; the certificate nearest the root that carries the
  attestation extension describes a key whose challenge is the current challenge of this server, not
  yet expired; that key signed this challenge together with the device key that signed the request;
  and the description meets the demands of the rule: the security level, the boot state, the
  application.\<close>

theorem strict_android_end_to_end:
  assumes "handleIssue W ic sv fs r = ((resp, log), sv', fs')" "hs_Status resp = 200"
    and "ReloadConfigsIfChanged (wo_env W) (wo_json W) (wo_verifiers W) (is_configsDisk ic) (sv_state sv) fs = (err, s1, fs1)"
    and "parse_issue (wo_json W) (hr_Body r) = Ok req"
    and "ConfigByID s1 (iq_ConfigID req) = Some entry" "ce_AttestationPolicy entry = Some pol"
    and "pol_Mode pol = AttestationModeStrict"
    and "armFor (wo_env W) (Some pol) (ab_Platform (iq_Attestation req)) = Some arm"
    and "arm_Verifier arm = android_key_attestation"
    and "Verifier_Lookup (wo_env W) (wo_verifiers W) android_key_attestation
      = Ok (Some (OtherVerifier (androidKeyAttestation_Verify X C (Some roots) now)))"
    and issued: "current (sv_challenges sv) \<noteq> []"
  shows "\<exists>raw pre cert post ext parsed pub bits sig.
    DecodeString (ab_Token (iq_Attestation req)) = Some raw \<and> framed_as X raw (pre @ cert # post) \<and>
    chain_linked X (pre @ cert # post) \<and> chain_anchored X roots now (pre @ cert # post) \<and>
    map_of (crt_Extensions cert) androidKeyAttestationOID = Some ext \<and>
    (\<forall>c \<in> set post. map_of (crt_Extensions c) androidKeyAttestationOID = None) \<and> parseKeyDescription ext = Ok parsed \<and>
    ak_challenge parsed = current (sv_challenges sv) \<and> is_challengeNow ic < expiresAt (sv_challenges sv) \<and>
    crt_PublicKey cert = EcdsaKey pub bits \<and> DecodeString (ab_Proof (iq_Attestation req)) = Some sig \<and>
    verifyP1363Signature C pub
      (bytes_of (''v2.attest|'' @ ab_Nonce (iq_Attestation req) @ ''|'' @ iq_DevicePk req)) sig \<and>
    (arm_RequireHardwareBacked arm \<longrightarrow> ak_securityLevel parsed = 1 \<or> ak_securityLevel parsed = 2) \<and>
    (arm_RequireVerifiedBoot arm \<longrightarrow> ak_rootOfTrustPresent parsed \<and> ak_verifiedBootState parsed = 0 \<and> ak_deviceLocked parsed) \<and>
    expectedPackage arm \<in> set (ak_packageNames parsed)"
proof -
  let ?a = "iq_Attestation req"
  note G = strict_android_granted [OF assms(1-10)]
  from G have b: "ab_BoundDevicePk ?a = iq_DevicePk req" "ab_Proof ?a \<noteq> ''''" "Challenge_Valid (sv_challenges sv) (ab_Nonce ?a) (is_challengeNow ic)"
    by simp_all
  from G obtain v where v: "androidKeyAttestation_Verify X C (Some roots) now ?a = Ok v" "vd_Verified v"
      "arm_RequireHardwareBacked arm \<longrightarrow> vd_HardwareBacked v"
      "arm_RequireVerifiedBoot arm \<longrightarrow> vd_VerifiedBootState v = ''verified'' \<and> vd_DeviceLocked v"
      "expectedPackage arm \<in> set (vd_AppPackageNames v)"
    by auto
  from android_verified_iff [THEN iffD1, OF conjI, OF v(1,2)]
  obtain raw pre cert post ext parsed where c: "DecodeString (ab_Token ?a) = Some raw" "framed_as X raw (pre @ cert # post)"
      "chain_linked X (pre @ cert # post)" "chain_anchored X roots now (pre @ cert # post)"
      "map_of (crt_Extensions cert) androidKeyAttestationOID = Some ext"
      "\<forall>c \<in> set post. map_of (crt_Extensions c) androidKeyAttestationOID = None" "parseKeyDescription ext = Ok parsed"
      "challenge_matches ?a parsed" "proof_verifies C ?a cert" "v = aka_verdict None parsed"
    by auto
  obtain pub bits sig where p: "crt_PublicKey cert = EcdsaKey pub bits" "DecodeString (ab_Proof ?a) = Some sig"
      "verifyP1363Signature C pub (attestationBindingInput ?a) sig"
    using c(9) b(2) by (auto simp: proof_verifies_def split: CertKey.splits option.splits)
  have "DecodeString (ab_Nonce ?a) = Some (current (sv_challenges sv))" "is_challengeNow ic < expiresAt (sv_challenges sv)"
    using b(3) by (auto simp: Challenge_Valid_def Before_def split: option.splits)
  moreover from this c(8) issued have "ak_challenge parsed = current (sv_challenges sv)"
    using Decode_Encode [of "[]"] by (auto simp: challenge_matches_def EncodeToString_def)
  moreover have "arm_RequireVerifiedBoot arm \<longrightarrow> ak_rootOfTrustPresent parsed \<and> ak_verifiedBootState parsed = 0 \<and> ak_deviceLocked parsed"
    using v(4) by (auto simp: c(10) aka_verdict_def verifiedBootStateString_def aka_consts split: if_splits)
  ultimately show ?thesis using c p v(3,5) b(1)
    by (intro exI conjI) (auto simp: attestationBindingInput_def aka_verdict_def aka_consts)
qed

theorem strict_android_end_to_end_witness:
  "\<exists>raw pre cert post (parsed :: akaParsed). DecodeString (ab_Token sample_android) = Some raw \<and>
     framed_as (sample_x509 [7] sample_leaf) raw (pre @ cert # post) \<and> ak_challenge parsed = [9]"
proof -
  obtain resp log sv' where h: "handleIssue sample_issue_world sample_issue_call sample_issue_server sample_fs sample_http = ((resp, log), sv', sample_fs)"
    "hs_Status resp = 200" by (rule sample_issue_runs)
  have p: "ce_AttestationPolicy (sample_entry (Some (strictDeviceAttestationPolicy ''''))) = Some (strictDeviceAttestationPolicy '''')"
    "pol_Mode (strictDeviceAttestationPolicy '''') = AttestationModeStrict" "arm_Verifier sample_android_arm = android_key_attestation"
    by (simp_all add: sample_entry_def strictDeviceAttestationPolicy_def sample_android_arm_def)
  have c: "current (sv_challenges sample_issue_server) = [9]" "iq_Attestation sample_issue = sample_android"
    by (simp_all add: sample_issue_server_def sample_issue_def)
  then have "current (sv_challenges sample_issue_server) \<noteq> []" by simp
  from strict_android_end_to_end [OF h sample_issue_reload sample_issue_parse sample_issue_entry p(1,2) sample_issue_arm p(3)
      sample_issue_lookup [unfolded sample_aka_def] this]
  show ?thesis unfolding c by blast
qed

text \<open>The App Attest counterpart is weaker: no check of the handler ties an attestation of an iOS device to
  this server's challenge or to the device key of the request. Its decision is a function of the
  token and the nonce, both of the client's choosing, so an attestation seen once is good for every
  device key.\<close>

theorem ios_attestation_unbound:
  assumes "armFor E (Some pol) (ab_Platform (iq_Attestation req)) = Some arm" "arm_Verifier arm = apple_app_attest"
    and "lookup apple_app_attest = Ok (Some (AppleAppAttest (verifyWithAppID X C dec v_roots now)))"
    and "ab_Platform (iq_Attestation req') = ab_Platform (iq_Attestation req)"
      "ab_Token (iq_Attestation req') = ab_Token (iq_Attestation req)" "ab_Nonce (iq_Attestation req') = ab_Nonce (iq_Attestation req)"
  shows "android_guard E m t req' (Some pol) = None \<and>
    evaluateAttestationPolicy E (Some pol) (iq_Attestation req') lookup ttl
      = evaluateAttestationPolicy E (Some pol) (iq_Attestation req) lookup ttl"
proof -
  have v: "verifyWithAppID X C dec v_roots now (iq_Attestation req') = verifyWithAppID X C dec v_roots now (iq_Attestation req)"
    by (rule ext) (simp only: verifyWithAppID_def assms)
  have "android_guard E m t req' (Some pol) = None"
    using assms by (auto simp: android_guard_def apple_app_attest_def android_key_attestation_def split: option.splits)
  moreover have "is_attested E (Some arm) x (iq_Attestation req') = is_attested E (Some arm) x (iq_Attestation req)"
    "reject_reason E (Some arm) x (iq_Attestation req') = reject_reason E (Some arm) x (iq_Attestation req)" for x
    using assms by (cases x; simp add: claimsAttestation_def)+
  ultimately show ?thesis
    using assms by (simp add: evaluateAttestationPolicy_def run_verifier_def v apple_app_attest_def Let_def)
qed

end
